(* ===== verification/Prelude.thy ===== *)
theory Prelude
  imports Main "HOL-Library.Word" "HOL-Library.Multiset"
begin

unbundle bit_operations_syntax

text \<open>
  Shared types, the sum type as Rust's \<open>Result\<close>, and generic lemmas on lists and
  association lists used by every component.

  Rust's \<open>Result<T, E>\<close> is \<open>'e + 'a\<close>, with \<open>Inl\<close> for \<open>Err\<close> and \<open>Inr\<close> for \<open>Ok\<close>;
  \<open>Option<T>\<close> is \<open>'a option\<close>. A Rust \<open>String\<close> is a UTF-8 byte sequence: it is modelled as
  \<open>string\<close>, whose characters are bytes, so \<open>length\<close> is Rust's \<open>len()\<close>.
  A \<open>Uuid\<close> is its 128-bit value, and a \<open>DateTime<Utc>\<close> is a number of nanoseconds.
\<close>

type_synonym byte = "8 word"
type_synonym u64 = "64 word"
type_synonym uuid = "128 word"
type_synonym datetime = int

named_theorems result_simps \<open>computation rules of the Result helpers\<close>

section \<open>Result\<close>

text \<open>The \<open>?\<close> operator on a pure \<open>Result\<close>, \<open>Option::ok_or\<close>, \<open>Result::map_err\<close>.\<close>

definition try_result :: "'e + 'a \<Rightarrow> ('a \<Rightarrow> 'e + 'b) \<Rightarrow> 'e + 'b" where
  "try_result r k = (case r of Inl e \<Rightarrow> Inl e | Inr x \<Rightarrow> k x)"

definition ok_or :: "'e \<Rightarrow> 'a option \<Rightarrow> 'e + 'a" where
  "ok_or e x = (case x of None \<Rightarrow> Inl e | Some a \<Rightarrow> Inr a)"

definition map_err :: "('e \<Rightarrow> 'f) \<Rightarrow> 'e + 'a \<Rightarrow> 'f + 'a" where
  "map_err f r = (case r of Inl e \<Rightarrow> Inl (f e) | Inr x \<Rightarrow> Inr x)"

definition map_ok :: "('a \<Rightarrow> 'b) \<Rightarrow> 'e + 'a \<Rightarrow> 'e + 'b" where
  "map_ok f r = (case r of Inl e \<Rightarrow> Inl e | Inr x \<Rightarrow> Inr (f x))"

text \<open>\<open>Iterator::collect\<close> into a \<open>Result\<close>: the first error wins.\<close>

fun collect_results :: "('e + 'a) list \<Rightarrow> 'e + 'a list" where
  "collect_results [] = Inr []"
| "collect_results (r # rs) =
     (case r of Inl e \<Rightarrow> Inl e
      | Inr x \<Rightarrow> (case collect_results rs of Inl e \<Rightarrow> Inl e | Inr xs \<Rightarrow> Inr (x # xs)))"

text \<open>\<open>Option<Result<T, E>>::transpose\<close>.\<close>

definition transpose_result :: "('e + 'a) option \<Rightarrow> 'e + 'a option" where
  "transpose_result x =
     (case x of None \<Rightarrow> Inr None | Some (Inl e) \<Rightarrow> Inl e | Some (Inr a) \<Rightarrow> Inr (Some a))"

lemma try_result_simps [simp, result_simps]:
  "try_result (Inl e) k = Inl e"
  "try_result (Inr x) k = k x"
  by (simp_all add: try_result_def)

lemma ok_or_simps [simp, result_simps]:
  "ok_or e None = Inl e"
  "ok_or e (Some a) = Inr a"
  by (simp_all add: ok_or_def)

lemma map_err_simps [simp, result_simps]:
  "map_err f (Inl e) = Inl (f e)"
  "map_err f (Inr x) = Inr x"
  by (simp_all add: map_err_def)

lemma map_ok_simps [simp, result_simps]:
  "map_ok f (Inl e) = Inl e"
  "map_ok f (Inr x) = Inr (f x)"
  by (simp_all add: map_ok_def)

lemma transpose_result_simps [simp, result_simps]:
  "transpose_result None = Inr None"
  "transpose_result (Some (Inl e)) = Inl e"
  "transpose_result (Some (Inr a)) = Inr (Some a)"
  by (simp_all add: transpose_result_def)

lemma try_result_eq_Inr [result_simps]:
  "try_result r k = Inr y \<longleftrightarrow> (\<exists>x. r = Inr x \<and> k x = Inr y)"
  by (cases r) auto

lemma try_result_eq_Inl [result_simps]:
  "try_result r k = Inl e \<longleftrightarrow> r = Inl e \<or> (\<exists>x. r = Inr x \<and> k x = Inl e)"
  by (cases r) auto

lemma map_err_eq_Inr [result_simps]: "map_err f r = Inr x \<longleftrightarrow> r = Inr x"
  by (cases r) auto

lemma ok_or_eq_Inr [result_simps]: "ok_or e x = Inr a \<longleftrightarrow> x = Some a"
  by (cases x) auto

lemma collect_results_map_Inr [simp]: "collect_results (map (\<lambda>x. Inr (f x)) xs) = Inr (map f xs)"
  by (induction xs) auto

lemma collect_results_eq_Inr:
  "collect_results rs = Inr xs \<longleftrightarrow> rs = map Inr xs"
  by (induction rs arbitrary: xs) (auto split: sum.splits simp: Cons_eq_map_conv)

lemma collect_results_eq_Inl:
  "(\<exists>e. collect_results rs = Inl e) \<longleftrightarrow> (\<exists>r \<in> set rs. \<exists>e. r = Inl e)"
  by (induction rs) (auto split: sum.splits)

section \<open>Lists and association lists\<close>

text \<open>
  Two lists that hold the same elements and are both ascending in the same injective key are
  equal: \<open>ORDER BY\<close> has one answer when no two rows share the key.
\<close>

lemma sorted_key_unique:
  assumes "mset xs = mset ys" "sorted (map f xs)" "sorted (map f ys)"
    and "distinct (map f ys)"
  shows "xs = ys"
proof -
  have "inj_on f (set xs)"
    using assms by (metis distinct_map mset_eq_setD)
  moreover have "map f xs = map f ys"
    using assms by (metis mset_map properties_for_sort sorted_sort_id)
  moreover have "set xs = set ys"
    using assms(1) by (rule mset_eq_setD)
  ultimately show ?thesis
    by (metis inj_on_map_eq_map Un_absorb)
qed

lemma map_of_append_fresh:
  "k \<notin> fst ` set xs \<Longrightarrow> map_of (xs @ [(k, v)]) = (map_of xs)(k \<mapsto> v)"
  by (induction xs) (auto simp: fun_upd_twist)

lemma map_of_notin: "map_of xs k = None \<longleftrightarrow> k \<notin> fst ` set xs"
  by (rule map_of_eq_None_iff)

definition map_entry :: "'k \<Rightarrow> ('v \<Rightarrow> 'v) \<Rightarrow> ('k \<times> 'v) list \<Rightarrow> ('k \<times> 'v) list" where
  "map_entry k f xs = map (\<lambda>(k', v). (k', if k' = k then f v else v)) xs"

lemma map_of_map_entry [simp]:
  "map_of (map_entry k f xs) =
     (case map_of xs k of None \<Rightarrow> map_of xs | Some v \<Rightarrow> (map_of xs)(k \<mapsto> f v))"
  by (rule ext, induction xs) (auto simp: map_entry_def split: option.splits)

lemma fst_map_entry [simp]: "map fst (map_entry k f xs) = map fst xs"
  by (induction xs) (auto simp: map_entry_def)

lemma map_entry_absent: "map_of xs k = None \<Longrightarrow> map_entry k f xs = xs"
  by (induction xs) (auto simp: map_entry_def split: if_splits)

lemma map_of_filter_key:
  "map_of (filter (\<lambda>(k', v). k' \<noteq> k) xs) = (map_of xs)(k := None)"
  by (rule ext, induction xs) auto

end
