(* ===== verification/Rust_Str.thy ===== *)
theory Rust_Str
  imports Prelude
begin

text \<open>
  The string functions of Rust's standard library that the crates call, on UTF-8 byte
  sequences: character boundaries and slicing (which panics off a boundary), case folding,
  \<open>split_once\<close>, \<open>strip_prefix\<close>, \<open>split_whitespace\<close>, \<open>trim\<close>, \<open>join\<close>, \<open>replace\<close> and
  \<open>u8::from_str_radix(_, 16)\<close>, and the \<open>{:02x}\<close> formatting of a byte.
  Unicode case tables are a parameter (\<open>uni\<close>): only strings with a non-ASCII byte reach them.
\<close>

definition byte_of :: "char \<Rightarrow> byte" where
  "byte_of c = of_char c"

definition is_ascii :: "string \<Rightarrow> bool" where
  "is_ascii s = list_all (\<lambda>c. byte_of c < 128) s"

definition ascii_lower :: "char \<Rightarrow> char" where
  "ascii_lower c = (if 65 \<le> byte_of c \<and> byte_of c \<le> 90 then char_of (unat (byte_of c + 32)) else c)"

definition to_lowercase :: "(string \<Rightarrow> string) \<Rightarrow> string \<Rightarrow> string" where
  "to_lowercase uni s = (if is_ascii s then map ascii_lower s else uni s)"

section \<open>Boundaries and slices\<close>

definition is_char_boundary :: "string \<Rightarrow> nat \<Rightarrow> bool" where
  "is_char_boundary s i \<longleftrightarrow>
     i = 0 \<or> i = length s \<or>
     (i < length s \<and> \<not> (128 \<le> byte_of (s ! i) \<and> byte_of (s ! i) < 192))"

text \<open>\<open>&s[a..b]\<close>: \<open>None\<close> is the panic.\<close>

definition str_slice :: "string \<Rightarrow> nat \<Rightarrow> nat \<Rightarrow> string option" where
  "str_slice s a b =
     (if a \<le> b \<and> b \<le> length s \<and> is_char_boundary s a \<and> is_char_boundary s b
      then Some (take (b - a) (drop a s)) else None)"

section \<open>Splitting and searching\<close>

text \<open>\<open>split_once\<close> at a single-byte separator: at its first occurrence.\<close>

fun split_once :: "char \<Rightarrow> string \<Rightarrow> (string \<times> string) option" where
  "split_once c [] = None"
| "split_once c (x # xs) =
     (if x = c then Some ([], xs)
      else map_option (\<lambda>(a, b). (x # a, b)) (split_once c xs))"

fun strip_prefix :: "string \<Rightarrow> string \<Rightarrow> string option" where
  "strip_prefix [] s = Some s"
| "strip_prefix (p # ps) [] = None"
| "strip_prefix (p # ps) (x # xs) = (if p = x then strip_prefix ps xs else None)"

text \<open>\<open>replace(c, "")\<close> for a single-byte pattern.\<close>

definition remove_char :: "char \<Rightarrow> string \<Rightarrow> string" where
  "remove_char c s = filter (\<lambda>x. x \<noteq> c) s"

text \<open>
  The number of bytes of the White\_Space character a UTF-8 string starts with, 0 when it
  starts with another character: U+0009 to U+000D, U+0020, U+0085, U+00A0, U+1680, U+2000 to
  U+200A, U+2028, U+2029, U+202F, U+205F and U+3000.
\<close>

definition ws_len :: "string \<Rightarrow> nat" where
  "ws_len s =
     (case map byte_of (take 3 s) of
        [] \<Rightarrow> 0
      | a # r \<Rightarrow>
          if (9 \<le> a \<and> a \<le> 13) \<or> a = 32 then 1
          else (case r of
              [] \<Rightarrow> 0
            | b # r' \<Rightarrow>
                if a = 0xC2 \<and> (b = 0x85 \<or> b = 0xA0) then 2
                else (case r' of
                    [] \<Rightarrow> 0
                  | c # _ \<Rightarrow>
                      if (a = 0xE1 \<and> b = 0x9A \<and> c = 0x80)
                         \<or> (a = 0xE2 \<and> b = 0x80 \<and> 0x80 \<le> c \<and> c \<le> 0x8A)
                         \<or> (a = 0xE2 \<and> b = 0x80 \<and> (c = 0xA8 \<or> c = 0xA9 \<or> c = 0xAF))
                         \<or> (a = 0xE2 \<and> b = 0x81 \<and> c = 0x9F)
                         \<or> (a = 0xE3 \<and> b = 0x80 \<and> c = 0x80) then 3 else 0)))"

text \<open>
  \<open>split_whitespace\<close>: \<open>acc\<close> is the token read so far, in reverse; \<open>skip\<close> is the number of
  bytes left of the white-space character being skipped. Empty tokens are dropped.
\<close>

fun split_ws_aux :: "string \<Rightarrow> nat \<Rightarrow> string \<Rightarrow> string list" where
  "split_ws_aux acc skip [] = (if acc = [] then [] else [rev acc])"
| "split_ws_aux acc (Suc skip) (x # xs) = split_ws_aux acc skip xs"
| "split_ws_aux acc 0 (x # xs) =
     (if ws_len (x # xs) = 0 then split_ws_aux (x # acc) 0 xs
      else (if acc = [] then [] else [rev acc]) @ split_ws_aux [] (ws_len (x # xs) - 1) xs)"

definition split_whitespace :: "string \<Rightarrow> string list" where
  "split_whitespace s = split_ws_aux [] 0 s"

text \<open>\<open>s.trim().is_empty()\<close>: every character is white space.\<close>

definition trim_is_empty :: "string \<Rightarrow> bool" where
  "trim_is_empty s \<longleftrightarrow> split_whitespace s = []"

fun join :: "string \<Rightarrow> string list \<Rightarrow> string" where
  "join sep [] = []"
| "join sep [x] = x"
| "join sep (x # y # ys) = x @ sep @ join sep (y # ys)"

section \<open>Hexadecimal\<close>

definition hex_digit :: "nat \<Rightarrow> char" where
  "hex_digit n = ''0123456789abcdef'' ! n"

text \<open>\<open>format!("{byte:02x}")\<close>.\<close>

definition fmt_02x :: "byte \<Rightarrow> string" where
  "fmt_02x b = [hex_digit (unat (drop_bit 4 b)), hex_digit (unat (b AND 15))]"

text \<open>
  \<open>u8::from_str_radix(s, 16)\<close>: one leading \<open>+\<close> is accepted; both cases of the digits are;
  the error carries the text its \<open>Display\<close> prints.
\<close>

definition to_digit16 :: "char \<Rightarrow> nat option" where
  "to_digit16 c =
     (let b = unat (byte_of c) in
      if 48 \<le> b \<and> b \<le> 57 then Some (b - 48)
      else if 97 \<le> b \<and> b \<le> 102 then Some (b - 87)
      else if 65 \<le> b \<and> b \<le> 70 then Some (b - 55)
      else None)"

fun parse_digits16 :: "nat \<Rightarrow> string \<Rightarrow> string + byte" where
  "parse_digits16 acc [] = Inr (of_nat acc)"
| "parse_digits16 acc (c # cs) =
     (case to_digit16 c of
        None \<Rightarrow> Inl ''invalid digit found in string''
      | Some d \<Rightarrow>
          if acc * 16 + d < 256 then parse_digits16 (acc * 16 + d) cs
          else Inl ''number too large to fit in target type'')"

definition from_str_radix16 :: "string \<Rightarrow> string + byte" where
  "from_str_radix16 s =
     (case s of
        [] \<Rightarrow> Inl ''cannot parse integer from empty string''
      | c # cs \<Rightarrow>
          if cs = [] \<and> (c = CHR ''+'' \<or> c = CHR ''-'') then Inl ''invalid digit found in string''
          else if c = CHR ''+'' then parse_digits16 0 cs
          else parse_digits16 0 s)"

section \<open>Facts about hexadecimal\<close>

lemma hex_digit_cases:
  "n < 16 \<Longrightarrow> P 0 \<Longrightarrow> P 1 \<Longrightarrow> P 2 \<Longrightarrow> P 3 \<Longrightarrow> P 4 \<Longrightarrow> P 5 \<Longrightarrow> P 6 \<Longrightarrow> P 7 \<Longrightarrow> P 8 \<Longrightarrow> P 9 \<Longrightarrow> P 10
   \<Longrightarrow> P 11 \<Longrightarrow> P 12 \<Longrightarrow> P 13 \<Longrightarrow> P 14 \<Longrightarrow> P 15 \<Longrightarrow> P (n::nat)"
  by (simp add: numeral_eq_Suc less_Suc_eq) auto

lemma unat_high_nibble: "unat (drop_bit 4 (b::byte)) = unat b div 16"
  by (simp add: drop_bit_eq_div unat_div_distrib)

lemma unat_low_nibble: "unat ((b::byte) AND 15) = unat b mod 16"
proof -
  have "b AND 15 = b mod 16"
    using take_bit_eq_mask [of 4 b] take_bit_eq_mod [of 4 b] by (simp add: mask_eq_exp_minus_1)
  then show ?thesis by (simp add: unat_mod_distrib)
qed

lemma nibble_bounds: "unat (drop_bit 4 (b::byte)) < 16" "unat ((b::byte) AND 15) < 16"
  using unsigned_less [of b, where ?'a = nat] by (simp_all only: unat_high_nibble unat_low_nibble) simp_all

lemma to_digit16_hex_digit [simp]: "n < 16 \<Longrightarrow> to_digit16 (hex_digit n) = Some n"
  by (erule hex_digit_cases) (simp_all add: to_digit16_def hex_digit_def byte_of_def)

lemma hex_digit_ascii: "n < 16 \<Longrightarrow> byte_of (hex_digit n) < 128"
  by (erule hex_digit_cases) (simp_all add: hex_digit_def byte_of_def)

lemma hex_digit_lower: "n < 16 \<Longrightarrow> ascii_lower (hex_digit n) = hex_digit n"
  by (erule hex_digit_cases) (simp_all add: hex_digit_def byte_of_def ascii_lower_def)

lemma hex_digit_not_plus: "n < 16 \<Longrightarrow> hex_digit n \<noteq> CHR ''+''"
  by (erule hex_digit_cases) (simp_all add: hex_digit_def)

lemma hex_digit_inj: "m < 16 \<Longrightarrow> n < 16 \<Longrightarrow> hex_digit m = hex_digit n \<longleftrightarrow> m = n"
  by (metis to_digit16_hex_digit option.inject)

lemma length_fmt_02x [simp]: "length (fmt_02x b) = 2"
  by (simp add: fmt_02x_def)

lemma of_nat_nibbles: "of_nat (unat b div 16 * 16 + unat b mod 16) = (b::byte)"
  by simp

lemma from_str_radix16_fmt_02x [simp]: "from_str_radix16 (fmt_02x b) = Inr b"
proof -
  have "unat b div 16 * 16 + unat b mod 16 < 256"
    using unsigned_less [of b, where ?'a = nat] by simp
  then show ?thesis
    using nibble_bounds [of b] hex_digit_not_plus [OF nibble_bounds(1), of b]
    by (simp add: from_str_radix16_def fmt_02x_def unat_high_nibble unat_low_nibble)
qed

lemma fmt_02x_inj: "fmt_02x a = fmt_02x b \<longleftrightarrow> a = b"
  by (metis from_str_radix16_fmt_02x sum.inject(2))

section \<open>Facts about tokens\<close>

text \<open>The characters an OAuth scope token may hold: visible ASCII.\<close>

definition visible :: "string \<Rightarrow> bool" where
  "visible t = list_all (\<lambda>c. 33 \<le> byte_of c \<and> byte_of c < 127) t"

lemma ws_len_visible: "33 \<le> byte_of x \<and> byte_of x < 127 \<Longrightarrow> ws_len (x # xs) = 0"
proof -
  assume v: "33 \<le> byte_of x \<and> byte_of x < 127"
  then have "\<not> byte_of x \<le> 13" "byte_of x \<noteq> 32"
    by (auto simp: word_le_nat_alt)
  moreover have "byte_of x \<noteq> 0xC2" "byte_of x \<noteq> 0xE1" "byte_of x \<noteq> 0xE2" "byte_of x \<noteq> 0xE3"
    using v by auto
  ultimately show ?thesis
    by (simp add: ws_len_def split: list.splits)
qed

lemma ws_len_space [simp]: "ws_len (CHR '' '' # xs) = 1"
  by (simp add: ws_len_def byte_of_def)

lemma split_ws_aux_visible:
  "visible t \<Longrightarrow> split_ws_aux acc 0 (t @ rest) = split_ws_aux (rev t @ acc) 0 rest"
  by (induction t arbitrary: acc) (auto simp: visible_def ws_len_visible)

lemma split_whitespace_join:
  assumes "list_all (\<lambda>t. t \<noteq> [] \<and> visible t) ts"
  shows "split_whitespace (join '' '' ts) = ts"
  using assms
proof (induction "'' ''" ts rule: join.induct)
  case 1
  then show ?case by (simp add: split_whitespace_def)
next
  case (2 x)
  then show ?case
    using split_ws_aux_visible [of x "[]" "[]"] by (simp add: split_whitespace_def)
next
  case (3 x y ys)
  then show ?case
    by (simp add: split_whitespace_def split_ws_aux_visible)
qed

lemma split_once_append:
  "c \<notin> set a \<Longrightarrow> split_once c (a @ c # b) = Some (a, b)"
  by (induction a) auto

lemma split_once_eq_None [simp]: "split_once c s = None \<longleftrightarrow> c \<notin> set s"
  by (induction s) auto

lemma split_once_eq_Some: "split_once c s = Some (a, b) \<longleftrightarrow> s = a @ c # b \<and> c \<notin> set a"
proof (induction s arbitrary: a)
  case Nil
  then show ?case by simp
next
  case (Cons x s)
  then show ?case by (cases a) auto
qed

lemma strip_prefix_eq_Some: "strip_prefix p s = Some r \<longleftrightarrow> s = p @ r"
  by (induction p s rule: strip_prefix.induct) auto

end
