(* ===== verification/Core_Record.thy ===== *)
theory Core_Record
  imports Rust_Str
begin

text \<open>
  \<open>crates/objectrecords-core/src/lib.rs\<close>: the type-state record.

  \<open>Record<S>\<close> is \<open>'s orecord\<close>: the state marker \<open>S\<close> is a phantom type argument, carried by the
  field \<open>rec_state\<close> as \<open>PhantomData\<close> carries it in Rust. \<open>update\<close> and \<open>snapshot\<close> take a
  \<open>mutable orecord\<close>, and nothing but the reads takes a \<open>fixed orecord\<close>, so a mutation of a fixed
  record is a type error here too. The two calls of \<open>Uuid::now_v7()\<close> in \<open>new\<close> and the one in
  \<open>update\<close> are arguments, in the order of the calls. \<open>[u8; 32]\<close> is a byte list with
  \<open>hash_wf\<close> stating its length. The \<open>debug_assert!\<close>s of \<open>from_parts\<close> are absent, as they are
  from a release build.
\<close>

section \<open>States, kinds, bodies, versions\<close>

datatype mutable = Mutable
datatype snapshot = Snapshot
datatype fixed = Fixed

datatype 's phantom_data = PhantomData

datatype kind = Log | Fix | Dataset | Asset | Custom string

definition RESERVED_CUSTOM_PREFIX :: string where
  "RESERVED_CUSTOM_PREFIX = ''creo:''"

datatype sha256_hash = Sha256Hash (hash_bytes: "byte list")

definition hash_wf :: "sha256_hash \<Rightarrow> bool" where
  "hash_wf h \<longleftrightarrow> length (hash_bytes h) = 32"

text \<open>\<open>impl Display for Sha256Hash\<close>: the bytes in order, two lower-case digits each.\<close>

definition hash_to_string :: "sha256_hash \<Rightarrow> string" where
  "hash_to_string h = concat (map fmt_02x (hash_bytes h))"

datatype body =
    Inline (inline_bytes: "byte list")
  | BlobRef (blob_key: string) (blob_size: u64)

datatype version_id = VersionId (version_uuid: uuid)

record version =
  ver_id :: version_id
  ver_body :: body

record 's orecord =
  rec_id :: uuid
  rec_kind :: kind
  rec_content_hash :: "sha256_hash option"
  rec_versions :: "version list"
  rec_state :: "'s phantom_data"

section \<open>Reads common to every state\<close>

text \<open>\<open>body()\<close>: \<open>None\<close> is the panic of \<open>expect\<close> on an empty chain.\<close>

definition record_body :: "'s orecord \<Rightarrow> body option" where
  "record_body r = (case rec_versions r of [] \<Rightarrow> None | _ \<Rightarrow> Some (ver_body (last (rec_versions r))))"

definition previous_version :: "'s orecord \<Rightarrow> version_id option" where
  "previous_version r =
     (let len = length (rec_versions r) in
      if len < 2 then None else Some (ver_id (rec_versions r ! (len - 2))))"

section \<open>Fossilization\<close>

text \<open>The rewrite of the trailing body: only a \<open>BlobRef\<close> changes, and only its key.\<close>

definition fossilize_body :: "sha256_hash \<Rightarrow> body \<Rightarrow> body" where
  "fossilize_body h stale =
     (case stale of
        Inline b \<Rightarrow> Inline b
      | BlobRef _ sz \<Rightarrow> BlobRef (''/fixed/'' @ hash_to_string h) sz)"

definition fossilize :: "uuid \<Rightarrow> kind \<Rightarrow> version list \<Rightarrow> sha256_hash \<Rightarrow> fixed orecord" where
  "fossilize i k vs h =
     \<lparr>rec_id = i, rec_kind = k, rec_content_hash = Some h,
      rec_versions =
        (case vs of
           [] \<Rightarrow> []
         | _ \<Rightarrow> butlast vs @ [(last vs)\<lparr>ver_body := fossilize_body h (ver_body (last vs))\<rparr>]),
      rec_state = PhantomData\<rparr>"

section \<open>\<open>Record<Mutable>\<close>\<close>

definition record_new :: "uuid \<Rightarrow> uuid \<Rightarrow> kind \<Rightarrow> body \<Rightarrow> mutable orecord" where
  "record_new i vid k b =
     \<lparr>rec_id = i, rec_kind = k, rec_content_hash = None,
      rec_versions = [\<lparr>ver_id = VersionId vid, ver_body = b\<rparr>], rec_state = PhantomData\<rparr>"

definition mutable_from_parts :: "uuid \<Rightarrow> kind \<Rightarrow> version list \<Rightarrow> mutable orecord" where
  "mutable_from_parts i k vs =
     \<lparr>rec_id = i, rec_kind = k, rec_content_hash = None, rec_versions = vs, rec_state = PhantomData\<rparr>"

definition update :: "uuid \<Rightarrow> body \<Rightarrow> mutable orecord \<Rightarrow> mutable orecord" where
  "update vid b r =
     r\<lparr>rec_versions := rec_versions r @ [\<lparr>ver_id = VersionId vid, ver_body = b\<rparr>]\<rparr>"

definition snapshot_of :: "mutable orecord \<Rightarrow> snapshot orecord" where
  "snapshot_of r =
     \<lparr>rec_id = rec_id r, rec_kind = rec_kind r, rec_content_hash = None,
      rec_versions = rec_versions r, rec_state = PhantomData\<rparr>"

definition mutable_fix :: "mutable orecord \<Rightarrow> sha256_hash \<Rightarrow> fixed orecord" where
  "mutable_fix r h = fossilize (rec_id r) (rec_kind r) (rec_versions r) h"

section \<open>\<open>Record<Snapshot>\<close> and \<open>Record<Fixed>\<close>\<close>

definition snapshot_from_parts :: "uuid \<Rightarrow> kind \<Rightarrow> version list \<Rightarrow> snapshot orecord" where
  "snapshot_from_parts i k vs =
     \<lparr>rec_id = i, rec_kind = k, rec_content_hash = None, rec_versions = vs, rec_state = PhantomData\<rparr>"

definition snapshot_fix :: "snapshot orecord \<Rightarrow> sha256_hash \<Rightarrow> fixed orecord" where
  "snapshot_fix r h = fossilize (rec_id r) (rec_kind r) (rec_versions r) h"

definition fixed_from_parts :: "uuid \<Rightarrow> kind \<Rightarrow> sha256_hash \<Rightarrow> version list \<Rightarrow> fixed orecord" where
  "fixed_from_parts i k h vs =
     \<lparr>rec_id = i, rec_kind = k, rec_content_hash = Some h, rec_versions = vs, rec_state = PhantomData\<rparr>"

section \<open>Facts about the lifecycle\<close>

lemma hash_to_string_simps [simp]:
  "hash_to_string (Sha256Hash []) = []"
  "hash_to_string (Sha256Hash (b # bs)) = fmt_02x b @ hash_to_string (Sha256Hash bs)"
  by (simp_all add: hash_to_string_def)

lemma length_hash_to_string: "length (hash_to_string h) = 2 * length (hash_bytes h)"
proof (cases h)
  case (Sha256Hash bs)
  then show ?thesis by (induction bs arbitrary: h) (auto simp: hash_to_string_def)
qed

lemma hash_to_string_inj:
  "length (hash_bytes a) = length (hash_bytes b) \<Longrightarrow> hash_to_string a = hash_to_string b \<Longrightarrow> a = b"
proof (cases a, cases b)
  fix as bs
  assume "length (hash_bytes a) = length (hash_bytes b)" "hash_to_string a = hash_to_string b"
    "a = Sha256Hash as" "b = Sha256Hash bs"
  then show "a = b"
    by (induction as bs arbitrary: a b rule: list_induct2') (auto simp: fmt_02x_inj)
qed

text \<open>Every hexadecimal text a hash prints is lower-case ASCII.\<close>

lemma fmt_02x_ascii: "is_ascii (fmt_02x b)"
  by (simp add: is_ascii_def fmt_02x_def hex_digit_ascii nibble_bounds)

lemma fmt_02x_lower: "map ascii_lower (fmt_02x b) = fmt_02x b"
  by (simp add: fmt_02x_def hex_digit_lower nibble_bounds)

lemma hash_to_string_ascii: "is_ascii (hash_to_string h)"
  using fmt_02x_ascii by (auto simp: hash_to_string_def is_ascii_def list_all_iff)

lemma hash_to_string_lower [simp]: "to_lowercase uni (hash_to_string h) = hash_to_string h"
proof -
  have "map ascii_lower (hash_to_string h) = hash_to_string h"
    by (simp add: hash_to_string_def map_concat comp_def fmt_02x_lower)
  then show ?thesis by (simp add: to_lowercase_def hash_to_string_ascii)
qed

text \<open>
  The values of each state that the crate's own operations build, without the reconstructions
  from parts.
\<close>

inductive live_mutable :: "mutable orecord \<Rightarrow> bool" where
  new: "live_mutable (record_new i v k b)"
| updated: "live_mutable r \<Longrightarrow> live_mutable (update v b r)"

inductive live_snapshot :: "snapshot orecord \<Rightarrow> bool" where
  taken: "live_mutable r \<Longrightarrow> live_snapshot (snapshot_of r)"

inductive live_fixed :: "fixed orecord \<Rightarrow> bool" where
  from_mutable: "live_mutable r \<Longrightarrow> live_fixed (mutable_fix r h)"
| from_snapshot: "live_snapshot s \<Longrightarrow> live_fixed (snapshot_fix s h)"

inductive_cases live_snapshotE: "live_snapshot s"
inductive_cases live_fixedE: "live_fixed f"

lemma live_mutable_wf: "live_mutable r \<Longrightarrow> rec_versions r \<noteq> [] \<and> rec_content_hash r = None"
  by (induction rule: live_mutable.induct) (auto simp: record_new_def update_def)

lemma live_snapshot_wf: "live_snapshot s \<Longrightarrow> rec_versions s \<noteq> [] \<and> rec_content_hash s = None"
  by (auto elim!: live_snapshotE dest: live_mutable_wf simp: snapshot_of_def)

lemma fossilize_body_simps [simp]:
  "fossilize_body h (Inline b) = Inline b"
  "fossilize_body h (BlobRef k z) = BlobRef (''/fixed/'' @ hash_to_string h) z"
  by (simp_all add: fossilize_body_def)

lemma fossilize_fields [simp]:
  "rec_id (fossilize i k vs h) = i"
  "rec_kind (fossilize i k vs h) = k"
  "rec_content_hash (fossilize i k vs h) = Some h"
  by (simp_all add: fossilize_def)

lemma fossilize_versions:
  "vs \<noteq> [] \<Longrightarrow> rec_versions (fossilize i k vs h) =
     butlast vs @ [(last vs)\<lparr>ver_body := fossilize_body h (ver_body (last vs))\<rparr>]"
  by (cases vs) (auto simp: fossilize_def)

lemma fossilize_version_ids: "map ver_id (rec_versions (fossilize i k vs h)) = map ver_id vs"
proof (cases "vs = []")
  case False
  then have "map ver_id (butlast vs) @ [ver_id (last vs)] = map ver_id vs"
    by (metis append_butlast_last_id list.simps(8,9) map_append)
  with False show ?thesis by (simp add: fossilize_versions)
qed (simp add: fossilize_def)

lemma record_body_fossilize:
  assumes "vs \<noteq> []"
  shows "record_body (fossilize i k vs h) = Some (fossilize_body h (ver_body (last vs)))"
proof -
  let ?vs = "rec_versions (fossilize i k vs h)"
  have "?vs \<noteq> []" using assms by (simp add: fossilize_versions)
  then have "record_body (fossilize i k vs h) = Some (ver_body (last ?vs))"
    by (cases ?vs) (simp_all add: record_body_def)
  then show ?thesis using assms by (simp add: fossilize_versions)
qed

end
