(* ===== verification/Persisted.thy ===== *)
theory Persisted
  imports Core_Record
begin

text \<open>
  \<open>crates/objectrecords-db/src/persisted.rs\<close> and \<open>error.rs\<close>: the wire-form rows and the
  error type of the persistence layer. A \<open>surrealdb::Error\<close> is an opaque text.
\<close>

section \<open>Rows\<close>

datatype persisted_state = PMutable | PSnapshot | PFixed

definition as_literal :: "persisted_state \<Rightarrow> string" where
  "as_literal s =
     (case s of PMutable \<Rightarrow> ''mutable'' | PSnapshot \<Rightarrow> ''snapshot'' | PFixed \<Rightarrow> ''fixed'')"

definition from_literal :: "string \<Rightarrow> string + persisted_state" where
  "from_literal s =
     (if s = ''mutable'' then Inr PMutable
      else if s = ''snapshot'' then Inr PSnapshot
      else if s = ''fixed'' then Inr PFixed
      else Inl s)"

record persisted_record =
  pr_id :: uuid
  pr_state :: persisted_state
  pr_kind :: string
  pr_content_hash :: "string option"
  pr_created_at :: datetime
  pr_updated_at :: datetime

record persisted_attribution =
  pa_creator :: string
  pa_at :: datetime

datatype persisted_body =
    PInline (pinline_bytes: "byte list")
  | PBlobRef (pblob_key: string) (pblob_size: u64)

record persisted_version =
  pv_id :: uuid
  pv_record_id :: uuid
  pv_body :: persisted_body
  pv_created_at :: datetime

record persisted_row =
  row_record :: persisted_record
  row_versions :: "persisted_version list"
  row_attribution :: persisted_attribution

section \<open>Errors\<close>

type_synonym surreal_error = string

datatype db_error =
    UnknownState string
  | StateMismatch (mismatch_actual: string) (mismatch_requested: string)
  | UnknownKind string
  | EmptyVersionChain uuid
  | MissingContentHash uuid
  | UnexpectedContentHash string uuid
  | MalformedHash string
  | DbAlreadyExists uuid
  | SaveSnapshotRequiresExplicitMethod
  | Surreal surreal_error

section \<open>The closed set of states\<close>

instantiation persisted_state :: enum
begin

definition enum_persisted_state :: "persisted_state list" where
  "enum_persisted_state = [PMutable, PSnapshot, PFixed]"

definition enum_all_persisted_state :: "(persisted_state \<Rightarrow> bool) \<Rightarrow> bool" where
  "enum_all_persisted_state P \<longleftrightarrow> P PMutable \<and> P PSnapshot \<and> P PFixed"

definition enum_ex_persisted_state :: "(persisted_state \<Rightarrow> bool) \<Rightarrow> bool" where
  "enum_ex_persisted_state P \<longleftrightarrow> P PMutable \<or> P PSnapshot \<or> P PFixed"

instance
proof
  have univ: "(UNIV :: persisted_state set) = {PMutable, PSnapshot, PFixed}"
    using persisted_state.exhaust by blast
  then show "UNIV = set (enum_class.enum :: persisted_state list)"
    by (simp add: enum_persisted_state_def)
  show "distinct (enum_class.enum :: persisted_state list)"
    by (simp add: enum_persisted_state_def)
  show "enum_class.enum_all P \<longleftrightarrow> Ball UNIV P" for P :: "persisted_state \<Rightarrow> bool"
    by (simp add: enum_all_persisted_state_def univ)
  show "enum_class.enum_ex P \<longleftrightarrow> Bex UNIV P" for P :: "persisted_state \<Rightarrow> bool"
    by (simp add: enum_ex_persisted_state_def univ)
qed

end

lemma from_literal_as_literal [simp]: "from_literal (as_literal s) = Inr s"
  by (cases s) (simp_all add: as_literal_def from_literal_def)

lemma from_literal_Inr: "from_literal l = Inr s \<longleftrightarrow> l = as_literal s"
  by (cases s) (auto simp: as_literal_def from_literal_def)

lemma as_literal_inj [simp]: "as_literal a = as_literal b \<longleftrightarrow> a = b"
  by (metis from_literal_as_literal sum.inject(2))

end
