(* ===== verification/Convert.thy ===== *)
theory Convert
  imports Persisted
begin

text \<open>
  \<open>crates/objectrecords-db/src/convert.rs\<close>: the boundary between \<open>Record<S>\<close> and the rows.

  The trait constant \<open>S::LITERAL\<close> is a dictionary argument of type \<open>'s state_literal\<close>; the
  three impls are its three values. \<open>Utc::now()\<close> in \<open>record_to_persisted_row\<close> is the argument
  \<open>now\<close>. \<open>AnyRecord\<close> (from \<open>repository.rs\<close>) is defined here because \<open>persisted_row_to_any\<close>
  returns it.
\<close>

datatype 's state_literal = StateLiteral (LITERAL: persisted_state)

definition literal_mutable :: "mutable state_literal" where
  "literal_mutable = StateLiteral PMutable"

definition literal_snapshot :: "snapshot state_literal" where
  "literal_snapshot = StateLiteral PSnapshot"

definition literal_fixed :: "fixed state_literal" where
  "literal_fixed = StateLiteral PFixed"

datatype any_record =
    AnyMutable "mutable orecord"
  | AnySnapshot "snapshot orecord"
  | AnyFixed "fixed orecord"

section \<open>Helpers\<close>

definition hex_nibble :: "byte \<Rightarrow> db_error + byte" where
  "hex_nibble c =
     (if 48 \<le> c \<and> c \<le> 57 then Inr (c - 48)
      else if 97 \<le> c \<and> c \<le> 102 then Inr (c - 97 + 10)
      else Inl (MalformedHash (''non-hex byte 0x'' @ fmt_02x c @ '' in sha256'')))"

text \<open>The loop over the 32 output bytes: the first bad nibble, high before low, is the error.\<close>

definition parse_sha256_hex :: "string \<Rightarrow> db_error + byte list" where
  "parse_sha256_hex s =
     (if length s \<noteq> 64 then Inl (MalformedHash s)
      else let bytes = map byte_of s in
        collect_results (map (\<lambda>i.
          try_result (hex_nibble (bytes ! (i * 2))) (\<lambda>hi.
          try_result (hex_nibble (bytes ! (i * 2 + 1))) (\<lambda>lo.
          Inr (push_bit 4 hi OR lo)))) [0..<32]))"

definition kind_to_string :: "kind \<Rightarrow> string" where
  "kind_to_string k =
     (case k of
        Log \<Rightarrow> ''log'' | Fix \<Rightarrow> ''fix'' | Dataset \<Rightarrow> ''dataset'' | Asset \<Rightarrow> ''asset''
      | Custom s \<Rightarrow> s)"

definition kind_from_string :: "string \<Rightarrow> kind" where
  "kind_from_string s =
     (if s = ''log'' then Log
      else if s = ''fix'' then Fix
      else if s = ''dataset'' then Dataset
      else if s = ''asset'' then Asset
      else Custom s)"

definition body_to_persisted :: "body \<Rightarrow> persisted_body" where
  "body_to_persisted b =
     (case b of Inline bytes \<Rightarrow> PInline bytes | BlobRef key sz \<Rightarrow> PBlobRef key sz)"

definition body_from_persisted :: "persisted_body \<Rightarrow> body" where
  "body_from_persisted b =
     (case b of PInline bytes \<Rightarrow> Inline bytes | PBlobRef key sz \<Rightarrow> BlobRef key sz)"

definition version_to_persisted :: "version \<Rightarrow> uuid \<Rightarrow> datetime \<Rightarrow> persisted_version" where
  "version_to_persisted v rid t =
     \<lparr>pv_id = version_uuid (ver_id v), pv_record_id = rid,
      pv_body = body_to_persisted (ver_body v), pv_created_at = t\<rparr>"

definition version_from_persisted :: "persisted_version \<Rightarrow> version" where
  "version_from_persisted p =
     \<lparr>ver_id = VersionId (pv_id p), ver_body = body_from_persisted (pv_body p)\<rparr>"

definition validate_state :: "persisted_record \<Rightarrow> persisted_state \<Rightarrow> db_error + unit" where
  "validate_state r expected =
     (if pr_state r \<noteq> expected
      then Inl (StateMismatch (as_literal (pr_state r)) (as_literal expected)) else Inr ())"

definition ensure_versions_present :: "uuid \<Rightarrow> persisted_version list \<Rightarrow> db_error + unit" where
  "ensure_versions_present rid vs = (if vs = [] then Inl (EmptyVersionChain rid) else Inr ())"

section \<open>Forward and reverse conversion\<close>

definition record_to_persisted_row ::
  "'s state_literal \<Rightarrow> 's orecord \<Rightarrow> string \<Rightarrow> datetime \<Rightarrow> persisted_row" where
  "record_to_persisted_row lit r creator now =
     \<lparr>row_record =
        \<lparr>pr_id = rec_id r, pr_state = LITERAL lit, pr_kind = kind_to_string (rec_kind r),
         pr_content_hash = map_option hash_to_string (rec_content_hash r),
         pr_created_at = now, pr_updated_at = now\<rparr>,
      row_versions = map (\<lambda>v. version_to_persisted v (rec_id r) now) (rec_versions r),
      row_attribution = \<lparr>pa_creator = creator, pa_at = now\<rparr>\<rparr>"

definition mutable_try_from :: "persisted_row \<Rightarrow> db_error + mutable orecord" where
  "mutable_try_from row =
     (let r = row_record row; vs = row_versions row in
      try_result (validate_state r PMutable) (\<lambda>_.
      if pr_content_hash r \<noteq> None then Inl (UnexpectedContentHash ''Mutable'' (pr_id r)) else
      try_result (ensure_versions_present (pr_id r) vs) (\<lambda>_.
      Inr (mutable_from_parts (pr_id r) (kind_from_string (pr_kind r)) (map version_from_persisted vs)))))"

definition snapshot_try_from :: "persisted_row \<Rightarrow> db_error + snapshot orecord" where
  "snapshot_try_from row =
     (let r = row_record row; vs = row_versions row in
      try_result (validate_state r PSnapshot) (\<lambda>_.
      if pr_content_hash r \<noteq> None then Inl (UnexpectedContentHash ''Snapshot'' (pr_id r)) else
      try_result (ensure_versions_present (pr_id r) vs) (\<lambda>_.
      Inr (snapshot_from_parts (pr_id r) (kind_from_string (pr_kind r)) (map version_from_persisted vs)))))"

definition fixed_try_from :: "persisted_row \<Rightarrow> db_error + fixed orecord" where
  "fixed_try_from row =
     (let r = row_record row; vs = row_versions row in
      try_result (validate_state r PFixed) (\<lambda>_.
      try_result (ok_or (MissingContentHash (pr_id r)) (pr_content_hash r)) (\<lambda>hash_hex.
      try_result (map_ok Sha256Hash (parse_sha256_hex hash_hex)) (\<lambda>h.
      try_result (ensure_versions_present (pr_id r) vs) (\<lambda>_.
      Inr (fixed_from_parts (pr_id r) (kind_from_string (pr_kind r)) h (map version_from_persisted vs)))))))"

definition persisted_row_to_any :: "persisted_row \<Rightarrow> db_error + any_record" where
  "persisted_row_to_any row =
     (case pr_state (row_record row) of
        PMutable \<Rightarrow> map_ok AnyMutable (mutable_try_from row)
      | PSnapshot \<Rightarrow> map_ok AnySnapshot (snapshot_try_from row)
      | PFixed \<Rightarrow> map_ok AnyFixed (fixed_try_from row))"

section \<open>The hexadecimal digest\<close>

lemma unat_byte_of: "unat (byte_of c) = of_char c"
proof -
  have "byte_of c = of_nat (of_char c)" by (simp only: byte_of_def of_nat_of_char)
  then show ?thesis by (simp only: unat_of_nat) simp
qed

lemma byte_of_inj [simp]: "byte_of a = byte_of b \<longleftrightarrow> a = b"
  by (metis unat_byte_of of_char_eq_iff)

lemma hex_nibble_digit [simp]: "n < 16 \<Longrightarrow> hex_nibble (byte_of (hex_digit n)) = Inr (of_nat n)"
  by (erule hex_digit_cases) (simp_all add: hex_nibble_def hex_digit_def byte_of_def)

lemma byte_of_hex_digit:
  "n < 16 \<Longrightarrow> byte_of (hex_digit n) = of_nat (if n < 10 then n + 48 else n + 87)"
  by (erule hex_digit_cases) (simp_all add: hex_digit_def byte_of_def)

text \<open>A nibble is read off exactly one character: the lower-case digit of its value.\<close>

lemma hex_nibble_Inr:
  assumes "hex_nibble c = Inr d"
  shows "unat d < 16 \<and> c = byte_of (hex_digit (unat d))"
proof -
  from assms consider (dec) "48 \<le> c" "c \<le> 57" "d = c - 48"
    | (alpha) "97 \<le> c" "c \<le> 102" "d = c - 97 + 10"
    by (auto simp: hex_nibble_def split: if_splits)
  then show ?thesis
  proof cases
    case dec
    then have "unat d = unat c - 48" "48 \<le> unat c" "unat c \<le> 57"
      by (simp_all add: unat_sub word_le_nat_alt)
    then have "unat d < 10" "c = of_nat (unat d + 48)" by simp_all
    then show ?thesis by (simp add: byte_of_hex_digit)
  next
    case alpha
    then have c: "97 \<le> unat c" "unat c \<le> 102"
      by (simp_all add: word_le_nat_alt)
    have "d = c - 87" "87 \<le> c"
      using alpha(3) c by (simp_all add: word_le_nat_alt)
    then have "unat d = unat c - 87"
      by (simp only: unat_sub) simp
    with c have "10 \<le> unat d" "unat d < 16" "c = of_nat (unat d + 87)" by simp_all
    then show ?thesis by (simp add: byte_of_hex_digit)
  qed
qed

lemma nibbles_combine:
  assumes "m < 16" "n < 16"
  shows "push_bit 4 (of_nat m) OR of_nat n = (of_nat (16 * m + n) :: byte)"
proof -
  have "(of_nat n :: byte) = take_bit 4 (of_nat n)"
    using assms by (simp only: take_bit_of_nat) (simp add: take_bit_nat_eq_self)
  then have "push_bit 4 (of_nat m) OR of_nat n = push_bit 4 (of_nat m) + (of_nat n :: byte)"
    by (intro disjunctive_add [symmetric]) (metis bit_push_bit_iff bit_take_bit_iff not_le)
  then show ?thesis by (simp add: push_bit_eq_mult mult.commute)
qed

lemma pairs_of_list:
  "length s = 2 * n \<Longrightarrow> concat (map (\<lambda>i. [s ! (i * 2), s ! (i * 2 + 1)]) [0..<n]) = s"
proof (induction n arbitrary: s)
  case 0
  then show ?case by simp
next
  case (Suc n)
  then obtain a b t where s: "s = a # b # t" "length t = 2 * n"
    by (cases s; cases "tl s") auto
  have "[0..<Suc n] = 0 # map Suc [0..<n]"
    by (simp add: upt_conv_Cons map_Suc_upt)
  then show ?case using s Suc.IH [of t] by (simp add: comp_def)
qed

lemma byte_pair_Inr:
  "try_result (hex_nibble (byte_of a)) (\<lambda>hi. try_result (hex_nibble (byte_of b)) (\<lambda>lo.
     Inr (push_bit 4 hi OR lo))) = Inr x \<longleftrightarrow> [a, b] = fmt_02x x"
  (is "?lhs \<longleftrightarrow> ?rhs")
proof
  assume ?lhs
  then obtain hi lo where n: "hex_nibble (byte_of a) = Inr hi" "hex_nibble (byte_of b) = Inr lo"
    and x: "x = push_bit 4 hi OR lo"
    by (auto simp: try_result_eq_Inr)
  define m k where "m = unat hi" and "k = unat lo"
  from hex_nibble_Inr [OF n(1)] hex_nibble_Inr [OF n(2)]
  have ab: "m < 16" "k < 16" "a = hex_digit m" "b = hex_digit k" "hi = of_nat m" "lo = of_nat k"
    by (auto simp: m_def k_def)
  then have "x = of_nat (16 * m + k)" using x nibbles_combine by simp
  then have "unat x = (16 * m + k) mod 2 ^ 8" by (simp only: unat_of_nat) simp
  with ab(1,2) have "unat x = 16 * m + k" by simp
  then have "unat x div 16 = m" "unat x mod 16 = k" using ab(1,2) by simp_all
  with ab show ?rhs by (simp add: fmt_02x_def unat_high_nibble unat_low_nibble)
next
  assume ?rhs
  then have ab: "a = hex_digit (unat x div 16)" "b = hex_digit (unat x mod 16)"
    by (simp_all add: fmt_02x_def unat_high_nibble unat_low_nibble)
  have "unat x div 16 < 16" using unsigned_less [of x, where ?'a = nat] by simp
  moreover have "16 * (unat x div 16) + unat x mod 16 = unat x" by simp
  ultimately show ?lhs
    using ab nibbles_combine [of "unat x div 16" "unat x mod 16"] by simp
qed

lemma parse_sha256_hex_Inr:
  "parse_sha256_hex s = Inr bs \<longleftrightarrow> length bs = 32 \<and> s = hash_to_string (Sha256Hash bs)"
proof (cases "length s = 64")
  case True
  let ?f = "\<lambda>i. try_result (hex_nibble (byte_of (s ! (i * 2)))) (\<lambda>hi.
      try_result (hex_nibble (byte_of (s ! (i * 2 + 1)))) (\<lambda>lo. Inr (push_bit 4 hi OR lo)))"
  have "parse_sha256_hex s = collect_results (map ?f [0..<32])"
    using True by (auto simp: parse_sha256_hex_def Let_def intro!: arg_cong [of _ _ collect_results])
  then have "parse_sha256_hex s = Inr bs \<longleftrightarrow> map ?f [0..<32] = map Inr bs"
    by (simp only: collect_results_eq_Inr)
  also have "\<dots> \<longleftrightarrow> length bs = 32 \<and> (\<forall>i<32. ?f i = Inr (bs ! i))"
    by (auto simp: list_eq_iff_nth_eq)
  also have "\<dots> \<longleftrightarrow> length bs = 32 \<and> (\<forall>i<32. [s ! (i * 2), s ! (i * 2 + 1)] = fmt_02x (bs ! i))"
    by (simp only: byte_pair_Inr)
  also have "\<dots> \<longleftrightarrow> length bs = 32 \<and> s = hash_to_string (Sha256Hash bs)" (is "?a \<longleftrightarrow> ?b")
  proof
    assume a: ?a
    then have "map (\<lambda>i. [s ! (i * 2), s ! (i * 2 + 1)]) [0..<32] = map fmt_02x bs"
      by (auto simp: list_eq_iff_nth_eq)
    then have "s = concat (map fmt_02x bs)"
      using pairs_of_list [of s 32] True by simp
    with a show ?b by (simp add: hash_to_string_def)
  next
    assume b: ?b
    have "\<forall>i < length cs. [concat (map fmt_02x cs) ! (i * 2), concat (map fmt_02x cs) ! (i * 2 + 1)]
            = fmt_02x (cs ! i)" for cs
    proof (induction cs)
      case (Cons c cs)
      obtain p q where "fmt_02x c = [p, q]" by (simp add: fmt_02x_def)
      show ?case
      proof (intro allI impI)
        fix i assume "i < length (c # cs)"
        with Cons.IH show "[concat (map fmt_02x (c # cs)) ! (i * 2), concat (map fmt_02x (c # cs)) ! (i * 2 + 1)]
            = fmt_02x ((c # cs) ! i)"
          by (cases i) (simp_all add: \<open>fmt_02x c = [p, q]\<close>)
      qed
    qed simp
    from this [of bs] b show ?a by (simp add: hash_to_string_def)
  qed
  finally show ?thesis .
next
  case False
  then show ?thesis
    by (auto simp: parse_sha256_hex_def length_hash_to_string)
qed

lemma parse_sha256_hex_hash [simp]:
  "hash_wf h \<Longrightarrow> parse_sha256_hex (hash_to_string h) = Inr (hash_bytes h)"
  by (cases h) (simp add: parse_sha256_hex_Inr hash_wf_def)

text \<open>The texts that decode: 64 lower-case hexadecimal digits.\<close>

definition is_hex_char :: "char \<Rightarrow> bool" where
  "is_hex_char c \<longleftrightarrow> c \<in> set ''0123456789abcdef''"

definition hex64 :: "string \<Rightarrow> bool" where
  "hex64 s \<longleftrightarrow> length s = 64 \<and> list_all is_hex_char s"

lemma is_hex_char_iff: "is_hex_char c \<longleftrightarrow> (\<exists>n<16. c = hex_digit n)"
proof -
  have "set ''0123456789abcdef'' = hex_digit ` {..<16}"
    by (simp add: lessThan_Suc numeral_eq_Suc hex_digit_def insert_commute)
  then show ?thesis unfolding is_hex_char_def by auto
qed

lemma is_hex_char_digit [simp]: "n < 16 \<Longrightarrow> is_hex_char (hex_digit n)"
  by (auto simp: is_hex_char_iff)

lemma fmt_02x_hex_chars [simp]: "list_all is_hex_char (fmt_02x b)"
  using nibble_bounds [of b] by (simp add: fmt_02x_def)

lemma hash_to_string_hex64: "hash_wf h \<Longrightarrow> hex64 (hash_to_string h)"
proof (cases h)
  case (Sha256Hash bs)
  have "list_all is_hex_char (concat (map fmt_02x bs))"
    by (induction bs) simp_all
  with Sha256Hash show "hash_wf h \<Longrightarrow> hex64 (hash_to_string h)"
    by (simp add: hex64_def length_hash_to_string hash_wf_def) (simp add: hash_to_string_def)
qed

lemma hex64_hash_to_string:
  assumes "hex64 s"
  obtains h where "hash_wf h" "s = hash_to_string h"
proof -
  have "\<exists>b. [s ! (i * 2), s ! (i * 2 + 1)] = fmt_02x b" if "i < 32" for i
  proof -
    have "s ! (i * 2) \<in> set s" "s ! (i * 2 + 1) \<in> set s"
      using assms that by (auto simp: hex64_def)
    then have "is_hex_char (s ! (i * 2))" "is_hex_char (s ! (i * 2 + 1))"
      using assms by (auto simp: hex64_def list_all_iff)
    then obtain m n where mn: "m < 16" "n < 16" "s ! (i * 2) = hex_digit m" "s ! (i * 2 + 1) = hex_digit n"
      unfolding is_hex_char_iff by blast
    then have "[s ! (i * 2), s ! (i * 2 + 1)] = fmt_02x (push_bit 4 (of_nat m) OR of_nat n)"
      using byte_pair_Inr [of "hex_digit m" "hex_digit n" "push_bit 4 (of_nat m) OR of_nat n"] by simp
    then show ?thesis by blast
  qed
  then obtain f where f: "\<And>i. i < 32 \<Longrightarrow> [s ! (i * 2), s ! (i * 2 + 1)] = fmt_02x (f i)"
    by metis
  have "s = concat (map (\<lambda>i. [s ! (i * 2), s ! (i * 2 + 1)]) [0..<32])"
    using pairs_of_list [of s 32] assms by (simp add: hex64_def)
  also have "\<dots> = hash_to_string (Sha256Hash (map f [0..<32]))"
    using f by (auto simp: hash_to_string_def intro!: arg_cong [of _ _ concat])
  finally show ?thesis
    by (intro that [of "Sha256Hash (map f [0..<32])"]) (simp_all add: hash_wf_def)
qed

lemma parse_sha256_hex_ok_iff: "(\<exists>bs. parse_sha256_hex s = Inr bs) \<longleftrightarrow> hex64 s"
proof
  assume "\<exists>bs. parse_sha256_hex s = Inr bs"
  then show "hex64 s"
    using hash_to_string_hex64 by (fastforce simp: parse_sha256_hex_Inr hash_wf_def)
next
  assume "hex64 s"
  then show "\<exists>bs. parse_sha256_hex s = Inr bs"
    using hex64_hash_to_string parse_sha256_hex_hash by metis
qed

section \<open>Kinds, bodies and versions\<close>

definition builtin_names :: "string list" where
  "builtin_names = [''log'', ''fix'', ''dataset'', ''asset'']"

text \<open>A kind whose text is not taken by a built-in one.\<close>

definition plain_kind :: "kind \<Rightarrow> bool" where
  "plain_kind k = (case k of Custom s \<Rightarrow> s \<notin> set builtin_names | _ \<Rightarrow> True)"

lemma kind_to_from_string [simp]: "kind_to_string (kind_from_string s) = s"
  by (simp add: kind_to_string_def kind_from_string_def)

lemma kind_from_to_string: "kind_from_string (kind_to_string k) = k \<longleftrightarrow> plain_kind k"
  by (cases k) (auto simp: kind_to_string_def kind_from_string_def plain_kind_def builtin_names_def)

lemma plain_kind_from_string [simp]: "plain_kind (kind_from_string s)"
  using kind_from_to_string by (metis kind_to_from_string)

lemma body_round_trip [simp]:
  "body_from_persisted (body_to_persisted b) = b"
  "body_to_persisted (body_from_persisted p) = p"
  by (cases b, simp_all add: body_from_persisted_def body_to_persisted_def) (cases p, simp_all)

lemma version_round_trip [simp]: "version_from_persisted (version_to_persisted v i t) = v"
  by (cases v; cases "ver_id v") (simp add: version_from_persisted_def version_to_persisted_def)

lemma phantom_unit [simp]: "(x :: 's phantom_data) = y"
  by (cases x; cases y) simp

lemma validate_state_simps:
  "validate_state r s = Inr u \<longleftrightarrow> pr_state r = s"
  by (simp add: validate_state_def)

lemma ensure_versions_simps:
  "ensure_versions_present i vs = Inr u \<longleftrightarrow> vs \<noteq> []"
  by (simp add: ensure_versions_present_def)

lemmas try_from_defs = mutable_try_from_def snapshot_try_from_def fixed_try_from_def
  mutable_from_parts_def snapshot_from_parts_def fixed_from_parts_def
  validate_state_def ensure_versions_present_def

section \<open>Round trips\<close>

text \<open>What the type-state of a record promises about its other fields.\<close>

definition storable :: "'s state_literal \<Rightarrow> 's orecord \<Rightarrow> bool" where
  "storable lit r \<longleftrightarrow> rec_versions r \<noteq> [] \<and> plain_kind (rec_kind r) \<and>
     (case rec_content_hash r of
        None \<Rightarrow> LITERAL lit \<noteq> PFixed
      | Some h \<Rightarrow> LITERAL lit = PFixed \<and> hash_wf h)"

lemma mutable_round_trip:
  "storable literal_mutable r \<Longrightarrow> mutable_try_from (record_to_persisted_row literal_mutable r c t) = Inr r"
  by (cases r) (auto simp: storable_def literal_mutable_def record_to_persisted_row_def try_from_defs
      Let_def kind_from_to_string comp_def split: option.splits)

lemma snapshot_round_trip:
  "storable literal_snapshot r \<Longrightarrow> snapshot_try_from (record_to_persisted_row literal_snapshot r c t) = Inr r"
  by (cases r) (auto simp: storable_def literal_snapshot_def record_to_persisted_row_def try_from_defs
      Let_def kind_from_to_string comp_def split: option.splits)

lemma fixed_round_trip:
  "storable literal_fixed r \<Longrightarrow> fixed_try_from (record_to_persisted_row literal_fixed r c t) = Inr r"
  by (cases r) (auto simp: storable_def literal_fixed_def record_to_persisted_row_def try_from_defs
      Let_def kind_from_to_string comp_def hash_wf_def split: option.splits)

section \<open>Which rows convert\<close>

definition row_valid :: "persisted_row \<Rightarrow> bool" where
  "row_valid row \<longleftrightarrow> row_versions row \<noteq> [] \<and>
     (case pr_content_hash (row_record row) of
        None \<Rightarrow> pr_state (row_record row) \<noteq> PFixed
      | Some s \<Rightarrow> pr_state (row_record row) = PFixed \<and> hex64 s)"

text \<open>Reads of an \<open>AnyRecord\<close> whatever its state.\<close>

fun any_state :: "any_record \<Rightarrow> persisted_state" where
  "any_state (AnyMutable r) = PMutable"
| "any_state (AnySnapshot r) = PSnapshot"
| "any_state (AnyFixed r) = PFixed"

fun any_id :: "any_record \<Rightarrow> uuid" where
  "any_id (AnyMutable r) = rec_id r"
| "any_id (AnySnapshot r) = rec_id r"
| "any_id (AnyFixed r) = rec_id r"

fun any_kind :: "any_record \<Rightarrow> kind" where
  "any_kind (AnyMutable r) = rec_kind r"
| "any_kind (AnySnapshot r) = rec_kind r"
| "any_kind (AnyFixed r) = rec_kind r"

fun any_hash :: "any_record \<Rightarrow> sha256_hash option" where
  "any_hash (AnyMutable r) = rec_content_hash r"
| "any_hash (AnySnapshot r) = rec_content_hash r"
| "any_hash (AnyFixed r) = rec_content_hash r"

fun any_versions :: "any_record \<Rightarrow> version list" where
  "any_versions (AnyMutable r) = rec_versions r"
| "any_versions (AnySnapshot r) = rec_versions r"
| "any_versions (AnyFixed r) = rec_versions r"

definition row_to_any :: "persisted_row \<Rightarrow> any_record" where
  "row_to_any row =
     (let r = row_record row; k = kind_from_string (pr_kind r);
          vs = map version_from_persisted (row_versions row) in
      case pr_state r of
        PMutable \<Rightarrow> AnyMutable (mutable_from_parts (pr_id r) k vs)
      | PSnapshot \<Rightarrow> AnySnapshot (snapshot_from_parts (pr_id r) k vs)
      | PFixed \<Rightarrow> AnyFixed (fixed_from_parts (pr_id r) k
          (Sha256Hash (projr (parse_sha256_hex (the (pr_content_hash r))))) vs))"

lemma persisted_row_to_any_valid:
  assumes "row_valid row"
  shows "persisted_row_to_any row = Inr (row_to_any row)"
proof (cases "pr_state (row_record row) = PFixed")
  case True
  with assms obtain s where s: "pr_content_hash (row_record row) = Some s" "hex64 s"
    by (auto simp: row_valid_def split: option.splits)
  then obtain bs where "parse_sha256_hex s = Inr bs"
    using parse_sha256_hex_ok_iff by blast
  with True s assms show ?thesis
    by (simp add: persisted_row_to_any_def row_to_any_def row_valid_def Let_def fixed_try_from_def
        validate_state_def ensure_versions_present_def)
next
  case False
  with assms show ?thesis
    by (cases "pr_state (row_record row)")
      (auto simp: persisted_row_to_any_def row_to_any_def row_valid_def Let_def
        mutable_try_from_def snapshot_try_from_def validate_state_def
        ensure_versions_present_def split: option.splits)
qed

lemma persisted_row_to_any_Inr:
  "persisted_row_to_any row = Inr a \<longleftrightarrow> row_valid row \<and> a = row_to_any row"
proof -
  have "row_valid row" if "persisted_row_to_any row = Inr a"
    using that parse_sha256_hex_ok_iff
    by (cases "pr_state (row_record row)"; cases "pr_content_hash (row_record row)")
      (auto simp: persisted_row_to_any_def row_valid_def Let_def try_from_defs map_ok_def
        split: option.splits if_splits sum.splits)
  then show ?thesis by (metis persisted_row_to_any_valid sum.inject(2))
qed

lemma row_to_any_reads:
  assumes "row_valid row"
  shows "any_state (row_to_any row) = pr_state (row_record row)"
    and "any_id (row_to_any row) = pr_id (row_record row)"
    and "any_kind (row_to_any row) = kind_from_string (pr_kind (row_record row))"
    and "map_option hash_to_string (any_hash (row_to_any row)) = pr_content_hash (row_record row)"
    and "any_versions (row_to_any row) = map version_from_persisted (row_versions row)"
proof -
  have hex: "hash_to_string (Sha256Hash (projr (parse_sha256_hex s))) = s" if "hex64 s" for s
    using that parse_sha256_hex_ok_iff parse_sha256_hex_Inr by (metis sum.sel(2))
  show "map_option hash_to_string (any_hash (row_to_any row)) = pr_content_hash (row_record row)"
    using assms hex
    by (cases "pr_state (row_record row)"; cases "pr_content_hash (row_record row)")
      (auto simp: row_to_any_def row_valid_def Let_def mutable_from_parts_def
        snapshot_from_parts_def fixed_from_parts_def)
qed (cases "pr_state (row_record row)"; simp add: row_to_any_def Let_def mutable_from_parts_def
    snapshot_from_parts_def fixed_from_parts_def)+

text \<open>The first check that fails is the error.\<close>

lemma persisted_row_to_any_error:
  "persisted_row_to_any row = Inl e \<longleftrightarrow>
     (let r = row_record row in
      case (pr_state r, pr_content_hash r) of
        (PFixed, None) \<Rightarrow> e = MissingContentHash (pr_id r)
      | (PFixed, Some s) \<Rightarrow>
          (if hex64 s then row_versions row = [] \<and> e = EmptyVersionChain (pr_id r)
           else parse_sha256_hex s = Inl e)
      | (st, Some s) \<Rightarrow> e = UnexpectedContentHash (if st = PMutable then ''Mutable'' else ''Snapshot'') (pr_id r)
      | (st, None) \<Rightarrow> row_versions row = [] \<and> e = EmptyVersionChain (pr_id r))"
proof (cases "pr_content_hash (row_record row)")
  case None
  then show ?thesis
    by (cases "pr_state (row_record row)")
      (auto simp: persisted_row_to_any_def Let_def try_from_defs)
next
  case (Some s)
  then show ?thesis
    using parse_sha256_hex_ok_iff [of s]
    by (cases "pr_state (row_record row)"; cases "parse_sha256_hex s")
      (auto simp: persisted_row_to_any_def Let_def try_from_defs)
qed

end
