(* ===== verification/Effects.thy ===== *)
theory Effects
  imports Convert
begin

text \<open>
  The calls the crates make to the outside, and programs over them.

  An async function of the source is a value of \<open>'a prog\<close>: each constructor is one call of code
  that is not in the repository (the SurrealDB SDK, \<open>object_store\<close>, the clock, the UUID source,
  \<open>reqwest\<close>, the environment), with the rest of the function as the continuation of its reply.
  These are the points where an async function may be suspended, so the same definition serves
  the sequential runs (\<open>run\<close>) and the interleaved ones (theory \<open>Interleaving\<close>).
  \<open>prog_try\<close> is the operator \<open>?\<close> after \<open>.await\<close>.

  What the calls do is a parameter: \<open>'w world_ops\<close> gives each call as a function on an unknown
  world \<open>'w\<close>. The pure functions of third-party crates are the fields of \<open>crates\<close>.
  The row types of \<open>repository.rs\<close> stand here because replies carry them.
\<close>

section \<open>Rows and statements\<close>

record record_row_db =
  rr_state :: string
  rr_kind :: string
  rr_content_hash :: "string option"
  rr_created_at :: datetime
  rr_updated_at :: datetime

record version_row_write =
  vw_record_id :: uuid
  vw_body :: persisted_body
  vw_created_at :: datetime

text \<open>The key of a \<open>RecordId\<close>: the repository only takes strings; any other key is kept as its
  \<open>Debug\<close> text.\<close>

datatype record_id_key = KeyString string | KeyOther string

record version_row_read =
  vr_id :: record_id_key
  vr_record_id :: uuid
  vr_body :: persisted_body
  vr_created_at :: datetime

record created_by_edge_row =
  ce_creator :: string
  ce_at :: datetime

record list_row =
  lr_record_thing :: string
  lr_at :: datetime

record or_user_row_db =
  ou_id :: record_id_key
  ou_auth0_sub :: string
  ou_created_at :: datetime

text \<open>The SurrealQL statements the crate writes, with their bound parameters.\<close>

datatype table_kind = Schemafull | Relation

datatype ddl =
    DefineTable string table_kind
  | DefineField string string string bool \<comment> \<open>field, table, type, FLEXIBLE\<close>
  | DefineIndex string string string bool \<comment> \<open>index, table, field, UNIQUE\<close>

datatype stmt =
    Define ddl
  | CreateRecord string record_row_db
  | CreateVersion string version_row_write
  | CreateOrUser string string datetime
  | RelateCreatedBy string string string datetime
  | RelateSnapshotOf string string datetime
  | UpdateRecordUpdatedAt string datetime
  | UpdateRecordFixed string string datetime
  | UpdateVersionBody string persisted_body
  | DeleteCreatedByOut string
  | DeleteSnapshotOfIn string
  | DeleteSnapshotOfOut string
  | DeleteVersionsOf uuid
  | DeleteRecord string

text \<open>One \<open>query\<close> call: a \<open>BEGIN TRANSACTION \<dots> COMMIT TRANSACTION\<close> or bare statements.\<close>

datatype surql = Transaction "stmt list" | Statements "stmt list"

datatype object_error = ObjNotFound string | ObjAlreadyExists string | ObjOther string

record object_meta =
  om_size :: u64
  om_e_tag :: "string option"

datatype http_verb = GET | PUT | POST | OtherVerb string

record s3_compat_config =
  s3_endpoint :: string
  s3_region :: string
  s3_bucket :: string
  s3_access_key :: string
  s3_secret_key :: string
  s3_allow_http :: bool

section \<open>Programs\<close>

datatype 'a prog =
    Ret 'a
  | Panic string
  | NowV7 "uuid \<Rightarrow> 'a prog"
  | UtcNow "datetime \<Rightarrow> 'a prog"
  | SurrealConnect string "surreal_error + unit \<Rightarrow> 'a prog"
  | SurrealSignin string string "surreal_error + unit \<Rightarrow> 'a prog"
  | SurrealUse string string "surreal_error + unit \<Rightarrow> 'a prog"
  | Query surql "surreal_error + (surreal_error + unit) \<Rightarrow> 'a prog"
  | SelectRecord string "surreal_error + record_row_db option \<Rightarrow> 'a prog"
  | SelectVersions uuid "surreal_error + version_row_read list \<Rightarrow> 'a prog"
  | SelectCreatedBy string "surreal_error + created_by_edge_row option \<Rightarrow> 'a prog"
  | SelectCreatedIn string string "surreal_error + list_row list \<Rightarrow> 'a prog"
  | SelectOrUser string "surreal_error + or_user_row_db option \<Rightarrow> 'a prog"
  | ObjPut string "byte list" "object_error + unit \<Rightarrow> 'a prog"
  | ObjGet string "object_error + byte list \<Rightarrow> 'a prog"
  | ObjHead string "object_error + object_meta \<Rightarrow> 'a prog"
  | ObjDelete string "object_error + unit \<Rightarrow> 'a prog"
  | ObjPutCreate string "byte list" "object_error + unit \<Rightarrow> 'a prog"
  | ObjSign http_verb string nat "object_error + string \<Rightarrow> 'a prog"
  | ObjMultipart string "object_error + nat \<Rightarrow> 'a prog"
  | ObjPutPart nat "byte list" "object_error + unit \<Rightarrow> 'a prog"
  | ObjComplete nat "object_error + unit \<Rightarrow> 'a prog"
  | S3Build s3_compat_config "object_error + unit \<Rightarrow> 'a prog"
  | HttpGetText string "string + string \<Rightarrow> 'a prog"

primrec prog_bind :: "'a prog \<Rightarrow> ('a \<Rightarrow> 'b prog) \<Rightarrow> 'b prog" where
  "prog_bind (Ret x) f = f x"
| "prog_bind (Panic m) f = Panic m"
| "prog_bind (NowV7 k) f = NowV7 (\<lambda>x. prog_bind (k x) f)"
| "prog_bind (UtcNow k) f = UtcNow (\<lambda>x. prog_bind (k x) f)"
| "prog_bind (SurrealConnect a k) f = SurrealConnect a (\<lambda>x. prog_bind (k x) f)"
| "prog_bind (SurrealSignin a b k) f = SurrealSignin a b (\<lambda>x. prog_bind (k x) f)"
| "prog_bind (SurrealUse a b k) f = SurrealUse a b (\<lambda>x. prog_bind (k x) f)"
| "prog_bind (Query q k) f = Query q (\<lambda>x. prog_bind (k x) f)"
| "prog_bind (SelectRecord a k) f = SelectRecord a (\<lambda>x. prog_bind (k x) f)"
| "prog_bind (SelectVersions a k) f = SelectVersions a (\<lambda>x. prog_bind (k x) f)"
| "prog_bind (SelectCreatedBy a k) f = SelectCreatedBy a (\<lambda>x. prog_bind (k x) f)"
| "prog_bind (SelectCreatedIn a b k) f = SelectCreatedIn a b (\<lambda>x. prog_bind (k x) f)"
| "prog_bind (SelectOrUser a k) f = SelectOrUser a (\<lambda>x. prog_bind (k x) f)"
| "prog_bind (ObjPut a b k) f = ObjPut a b (\<lambda>x. prog_bind (k x) f)"
| "prog_bind (ObjGet a k) f = ObjGet a (\<lambda>x. prog_bind (k x) f)"
| "prog_bind (ObjHead a k) f = ObjHead a (\<lambda>x. prog_bind (k x) f)"
| "prog_bind (ObjDelete a k) f = ObjDelete a (\<lambda>x. prog_bind (k x) f)"
| "prog_bind (ObjPutCreate a b k) f = ObjPutCreate a b (\<lambda>x. prog_bind (k x) f)"
| "prog_bind (ObjSign v a t k) f = ObjSign v a t (\<lambda>x. prog_bind (k x) f)"
| "prog_bind (ObjMultipart a k) f = ObjMultipart a (\<lambda>x. prog_bind (k x) f)"
| "prog_bind (ObjPutPart n b k) f = ObjPutPart n b (\<lambda>x. prog_bind (k x) f)"
| "prog_bind (ObjComplete n k) f = ObjComplete n (\<lambda>x. prog_bind (k x) f)"
| "prog_bind (S3Build c k) f = S3Build c (\<lambda>x. prog_bind (k x) f)"
| "prog_bind (HttpGetText a k) f = HttpGetText a (\<lambda>x. prog_bind (k x) f)"

text \<open>\<open>p.await?\<close> followed by the rest, and the same on a \<open>Result\<close> that is already there.\<close>

definition prog_try :: "('e + 'a) prog \<Rightarrow> ('a \<Rightarrow> ('e + 'b) prog) \<Rightarrow> ('e + 'b) prog" where
  "prog_try p k = prog_bind p (\<lambda>r. case r of Inl e \<Rightarrow> Ret (Inl e) | Inr x \<Rightarrow> k x)"

definition ret_try :: "'e + 'a \<Rightarrow> ('a \<Rightarrow> ('e + 'b) prog) \<Rightarrow> ('e + 'b) prog" where
  "ret_try r k = (case r of Inl e \<Rightarrow> Ret (Inl e) | Inr x \<Rightarrow> k x)"

definition prog_map_err :: "('e \<Rightarrow> 'f) \<Rightarrow> ('e + 'a) prog \<Rightarrow> ('f + 'a) prog" where
  "prog_map_err f p = prog_bind p (\<lambda>r. Ret (map_err f r))"

section \<open>Runs\<close>

record 'w world_ops =
  do_now_v7 :: "'w \<Rightarrow> uuid \<times> 'w"
  do_utc_now :: "'w \<Rightarrow> datetime \<times> 'w"
  do_connect :: "string \<Rightarrow> 'w \<Rightarrow> (surreal_error + unit) \<times> 'w"
  do_signin :: "string \<Rightarrow> string \<Rightarrow> 'w \<Rightarrow> (surreal_error + unit) \<times> 'w"
  do_use :: "string \<Rightarrow> string \<Rightarrow> 'w \<Rightarrow> (surreal_error + unit) \<times> 'w"
  do_query :: "surql \<Rightarrow> 'w \<Rightarrow> (surreal_error + (surreal_error + unit)) \<times> 'w"
  do_select_record :: "string \<Rightarrow> 'w \<Rightarrow> (surreal_error + record_row_db option) \<times> 'w"
  do_select_versions :: "uuid \<Rightarrow> 'w \<Rightarrow> (surreal_error + version_row_read list) \<times> 'w"
  do_select_created_by :: "string \<Rightarrow> 'w \<Rightarrow> (surreal_error + created_by_edge_row option) \<times> 'w"
  do_select_created_in :: "string \<Rightarrow> string \<Rightarrow> 'w \<Rightarrow> (surreal_error + list_row list) \<times> 'w"
  do_select_or_user :: "string \<Rightarrow> 'w \<Rightarrow> (surreal_error + or_user_row_db option) \<times> 'w"
  do_obj_put :: "string \<Rightarrow> byte list \<Rightarrow> 'w \<Rightarrow> (object_error + unit) \<times> 'w"
  do_obj_get :: "string \<Rightarrow> 'w \<Rightarrow> (object_error + byte list) \<times> 'w"
  do_obj_head :: "string \<Rightarrow> 'w \<Rightarrow> (object_error + object_meta) \<times> 'w"
  do_obj_delete :: "string \<Rightarrow> 'w \<Rightarrow> (object_error + unit) \<times> 'w"
  do_obj_put_create :: "string \<Rightarrow> byte list \<Rightarrow> 'w \<Rightarrow> (object_error + unit) \<times> 'w"
  do_obj_sign :: "http_verb \<Rightarrow> string \<Rightarrow> nat \<Rightarrow> 'w \<Rightarrow> (object_error + string) \<times> 'w"
  do_obj_multipart :: "string \<Rightarrow> 'w \<Rightarrow> (object_error + nat) \<times> 'w"
  do_obj_put_part :: "nat \<Rightarrow> byte list \<Rightarrow> 'w \<Rightarrow> (object_error + unit) \<times> 'w"
  do_obj_complete :: "nat \<Rightarrow> 'w \<Rightarrow> (object_error + unit) \<times> 'w"
  do_s3_build :: "s3_compat_config \<Rightarrow> 'w \<Rightarrow> (object_error + unit) \<times> 'w"
  do_http_get :: "string \<Rightarrow> 'w \<Rightarrow> (string + string) \<times> 'w"

datatype 'a outcome = Done 'a | Panicked string

primrec run :: "'w world_ops \<Rightarrow> 'a prog \<Rightarrow> 'w \<Rightarrow> 'a outcome \<times> 'w" where
  "run ops (Ret x) = (\<lambda>w. (Done x, w))"
| "run ops (Panic m) = (\<lambda>w. (Panicked m, w))"
| "run ops (NowV7 k) = (\<lambda>w. case do_now_v7 ops w of (r, w') \<Rightarrow> run ops (k r) w')"
| "run ops (UtcNow k) = (\<lambda>w. case do_utc_now ops w of (r, w') \<Rightarrow> run ops (k r) w')"
| "run ops (SurrealConnect a k) = (\<lambda>w. case do_connect ops a w of (r, w') \<Rightarrow> run ops (k r) w')"
| "run ops (SurrealSignin a b k) = (\<lambda>w. case do_signin ops a b w of (r, w') \<Rightarrow> run ops (k r) w')"
| "run ops (SurrealUse a b k) = (\<lambda>w. case do_use ops a b w of (r, w') \<Rightarrow> run ops (k r) w')"
| "run ops (Query q k) = (\<lambda>w. case do_query ops q w of (r, w') \<Rightarrow> run ops (k r) w')"
| "run ops (SelectRecord a k) = (\<lambda>w. case do_select_record ops a w of (r, w') \<Rightarrow> run ops (k r) w')"
| "run ops (SelectVersions a k) = (\<lambda>w. case do_select_versions ops a w of (r, w') \<Rightarrow> run ops (k r) w')"
| "run ops (SelectCreatedBy a k) = (\<lambda>w. case do_select_created_by ops a w of (r, w') \<Rightarrow> run ops (k r) w')"
| "run ops (SelectCreatedIn a b k) = (\<lambda>w. case do_select_created_in ops a b w of (r, w') \<Rightarrow> run ops (k r) w')"
| "run ops (SelectOrUser a k) = (\<lambda>w. case do_select_or_user ops a w of (r, w') \<Rightarrow> run ops (k r) w')"
| "run ops (ObjPut a b k) = (\<lambda>w. case do_obj_put ops a b w of (r, w') \<Rightarrow> run ops (k r) w')"
| "run ops (ObjGet a k) = (\<lambda>w. case do_obj_get ops a w of (r, w') \<Rightarrow> run ops (k r) w')"
| "run ops (ObjHead a k) = (\<lambda>w. case do_obj_head ops a w of (r, w') \<Rightarrow> run ops (k r) w')"
| "run ops (ObjDelete a k) = (\<lambda>w. case do_obj_delete ops a w of (r, w') \<Rightarrow> run ops (k r) w')"
| "run ops (ObjPutCreate a b k) = (\<lambda>w. case do_obj_put_create ops a b w of (r, w') \<Rightarrow> run ops (k r) w')"
| "run ops (ObjSign v a t k) = (\<lambda>w. case do_obj_sign ops v a t w of (r, w') \<Rightarrow> run ops (k r) w')"
| "run ops (ObjMultipart a k) = (\<lambda>w. case do_obj_multipart ops a w of (r, w') \<Rightarrow> run ops (k r) w')"
| "run ops (ObjPutPart n b k) = (\<lambda>w. case do_obj_put_part ops n b w of (r, w') \<Rightarrow> run ops (k r) w')"
| "run ops (ObjComplete n k) = (\<lambda>w. case do_obj_complete ops n w of (r, w') \<Rightarrow> run ops (k r) w')"
| "run ops (S3Build c k) = (\<lambda>w. case do_s3_build ops c w of (r, w') \<Rightarrow> run ops (k r) w')"
| "run ops (HttpGetText a k) = (\<lambda>w. case do_http_get ops a w of (r, w') \<Rightarrow> run ops (k r) w')"

text \<open>
  \<open>wp ops p Q w\<close>: the run of \<open>p\<close> from \<open>w\<close> returns (it does not panic) with a result and a
  world that satisfy \<open>Q\<close>.
\<close>

definition wp :: "'w world_ops \<Rightarrow> 'a prog \<Rightarrow> ('a \<Rightarrow> 'w \<Rightarrow> bool) \<Rightarrow> 'w \<Rightarrow> bool" where
  "wp ops p Q w = (case run ops p w of (Done x, w') \<Rightarrow> Q x w' | (Panicked m, w') \<Rightarrow> False)"

section \<open>Pure functions of third-party crates\<close>

record crates =
  uuid_to_string :: "uuid \<Rightarrow> string"
  uuid_parse_str :: "string \<Rightarrow> uuid option"
  thing_to_string :: "string \<times> string \<Rightarrow> string"
    \<comment> \<open>SurrealQL \<open>type::string\<close> of a record id (table, key)\<close>
  fmt_debug :: "string \<Rightarrow> string"
    \<comment> \<open>\<open>{:?}\<close> of a string\<close>
  object_path :: "string \<Rightarrow> string"
    \<comment> \<open>\<open>object_store::path::Path::from\<close>\<close>

section \<open>Laws of programs\<close>

lemma prog_bind_Ret [simp]: "prog_bind p Ret = p"
  by (induction p) simp_all

lemma prog_bind_assoc: "prog_bind (prog_bind p f) g = prog_bind p (\<lambda>x. prog_bind (f x) g)"
  by (induction p) simp_all

lemma prog_try_simps [simp]:
  "prog_try (Ret (Inl e)) k = Ret (Inl e)"
  "prog_try (Ret (Inr x)) k = k x"
  by (simp_all add: prog_try_def)

lemma ret_try_simps [simp]:
  "ret_try (Inl e) k = Ret (Inl e)"
  "ret_try (Inr x) k = k x"
  by (simp_all add: ret_try_def)

lemma run_bind:
  "run ops (prog_bind p f) w =
     (case run ops p w of (Done x, w') \<Rightarrow> run ops (f x) w' | (Panicked m, w') \<Rightarrow> (Panicked m, w'))"
  by (induction p arbitrary: w) (auto split: prod.splits)

lemma wp_Ret [simp]: "wp ops (Ret x) Q w = Q x w"
  by (simp add: wp_def)

lemma wp_Ret_fun [simp]: "wp ops (Ret x) Q = Q x"
  by (simp add: fun_eq_iff)

lemma wp_Panic [simp]: "\<not> wp ops (Panic m) Q w"
  by (simp add: wp_def)

lemma wp_bind [simp]: "wp ops (prog_bind p f) Q w = wp ops p (\<lambda>x. wp ops (f x) Q) w"
  by (simp add: wp_def run_bind split: prod.splits outcome.splits)

lemma wp_mono: "wp ops p Q w \<Longrightarrow> (\<And>x w'. Q x w' \<Longrightarrow> R x w') \<Longrightarrow> wp ops p R w"
  by (auto simp: wp_def split: prod.splits outcome.splits)

lemma wp_conj: "wp ops p Q w \<Longrightarrow> wp ops p R w \<Longrightarrow> wp ops p (\<lambda>x w'. Q x w' \<and> R x w') w"
  by (auto simp: wp_def split: prod.splits outcome.splits)

lemma wp_exact: "wp ops p Q w \<Longrightarrow> wp ops p (\<lambda>x w'. Q x w' \<and> run ops p w = (Done x, w')) w"
  by (auto simp: wp_def split: outcome.splits)

lemma wp_run: "wp ops p Q w \<Longrightarrow> run ops p w = (Done x, w') \<Longrightarrow> Q x w'"
  by (simp add: wp_def)

lemma wp_runE:
  assumes "wp ops p Q w"
  obtains x w' where "run ops p w = (Done x, w')" "Q x w'"
  using assms by (auto simp: wp_def split: prod.splits outcome.splits)

lemma wp_prog_try [simp]:
  "wp ops (prog_try p k) Q w =
     wp ops p (\<lambda>r w'. case r of Inl e \<Rightarrow> Q (Inl e) w' | Inr x \<Rightarrow> wp ops (k x) Q w') w"
proof -
  have "(\<lambda>x. wp ops (case x of Inl e \<Rightarrow> Ret (Inl e) | Inr x \<Rightarrow> k x) Q) =
      (\<lambda>r w'. case r of Inl e \<Rightarrow> Q (Inl e) w' | Inr x \<Rightarrow> wp ops (k x) Q w')"
    by (auto simp: fun_eq_iff split: sum.splits)
  then show ?thesis by (simp add: prog_try_def)
qed

lemma wp_ret_try [simp]:
  "wp ops (ret_try r k) Q w = (case r of Inl e \<Rightarrow> Q (Inl e) w | Inr x \<Rightarrow> wp ops (k x) Q w)"
  by (simp add: ret_try_def split: sum.splits)

lemma wp_prog_map_err [simp]:
  "wp ops (prog_map_err f p) Q w = wp ops p (\<lambda>r. Q (map_err f r)) w"
  by (simp add: prog_map_err_def)

text \<open>Each call: its reply and the world it leaves.\<close>

lemma wp_calls:
  "wp ops (NowV7 k1) Q w = (case do_now_v7 ops w of (r, w') \<Rightarrow> wp ops (k1 r) Q w')"
  "wp ops (UtcNow k2) Q w = (case do_utc_now ops w of (r, w') \<Rightarrow> wp ops (k2 r) Q w')"
  "wp ops (Query q k3) Q w = (case do_query ops q w of (r, w') \<Rightarrow> wp ops (k3 r) Q w')"
  "wp ops (SelectRecord a k4) Q w = (case do_select_record ops a w of (r, w') \<Rightarrow> wp ops (k4 r) Q w')"
  "wp ops (SelectVersions u k5) Q w = (case do_select_versions ops u w of (r, w') \<Rightarrow> wp ops (k5 r) Q w')"
  "wp ops (SelectCreatedBy a k6) Q w = (case do_select_created_by ops a w of (r, w') \<Rightarrow> wp ops (k6 r) Q w')"
  "wp ops (SelectCreatedIn a b k7) Q w = (case do_select_created_in ops a b w of (r, w') \<Rightarrow> wp ops (k7 r) Q w')"
  "wp ops (SelectOrUser a k8) Q w = (case do_select_or_user ops a w of (r, w') \<Rightarrow> wp ops (k8 r) Q w')"
  "wp ops (ObjPut a bs k9) Q w = (case do_obj_put ops a bs w of (r, w') \<Rightarrow> wp ops (k9 r) Q w')"
  "wp ops (ObjGet a k10) Q w = (case do_obj_get ops a w of (r, w') \<Rightarrow> wp ops (k10 r) Q w')"
  "wp ops (ObjHead a k11) Q w = (case do_obj_head ops a w of (r, w') \<Rightarrow> wp ops (k11 r) Q w')"
  "wp ops (ObjDelete a k12) Q w = (case do_obj_delete ops a w of (r, w') \<Rightarrow> wp ops (k12 r) Q w')"
  "wp ops (ObjPutCreate a bs k13) Q w = (case do_obj_put_create ops a bs w of (r, w') \<Rightarrow> wp ops (k13 r) Q w')"
  "wp ops (SurrealConnect a k14) Q w = (case do_connect ops a w of (r, w') \<Rightarrow> wp ops (k14 r) Q w')"
  "wp ops (SurrealSignin a b k15) Q w = (case do_signin ops a b w of (r, w') \<Rightarrow> wp ops (k15 r) Q w')"
  "wp ops (SurrealUse a b k16) Q w = (case do_use ops a b w of (r, w') \<Rightarrow> wp ops (k16 r) Q w')"
  "wp ops (ObjMultipart a k17) Q w = (case do_obj_multipart ops a w of (r, w') \<Rightarrow> wp ops (k17 r) Q w')"
  "wp ops (ObjPutPart n bs k18) Q w = (case do_obj_put_part ops n bs w of (r, w') \<Rightarrow> wp ops (k18 r) Q w')"
  "wp ops (ObjComplete n k19) Q w = (case do_obj_complete ops n w of (r, w') \<Rightarrow> wp ops (k19 r) Q w')"
  "wp ops (S3Build c k20) Q w = (case do_s3_build ops c w of (r, w') \<Rightarrow> wp ops (k20 r) Q w')"
  "wp ops (HttpGetText a k21) Q w = (case do_http_get ops a w of (r, w') \<Rightarrow> wp ops (k21 r) Q w')"
  "wp ops (ObjSign v a t k22) Q w = (case do_obj_sign ops v a t w of (r, w') \<Rightarrow> wp ops (k22 r) Q w')"
  by (simp_all add: wp_def split: prod.splits)

end
