(* ===== verification/Backend.thy ===== *)
theory Backend
  imports Effects
begin

text \<open>
  The interfaces of the services the crates call, as locales: what the SurrealDB SDK, the
  object store, the clock and the UUID source promise. \<open>tables\<close> and \<open>blobs\<close> observe the
  unknown world. \<open>run_stmts\<close> states the documented effect of the statements the repository
  writes on those tables; it appears in the laws only, never in a definition of the program.

  \<^item> \<open>surreal_sdk\<close>: a query commits all its statements or none; an error reply of the server
    means none, a lost connection means either; a \<open>SELECT\<close> changes nothing and answers from the
    tables; \<open>ORDER BY\<close> sorts by the key and leaves rows with equal keys in any order.
  \<^item> \<open>object_store_sdk\<close>: S3 reads and writes, with \<open>PutMode::Create\<close> atomic.
  \<^item> \<open>backend\<close>: both, each leaving the other's data alone.
  \<^item> \<open>healthy_backend\<close>: in addition no call fails for a reason of its own.

  Each is interpreted on the in-memory world at the end of this theory, which runs the whole
  statement language and can also be told which calls to fail.
\<close>

section \<open>Tables and statements\<close>

record created_by_edge =
  cb_in :: "string \<times> string"
  cb_out :: string
  cb_at :: datetime

record snapshot_of_edge =
  so_in :: string
  so_out :: string
  so_at :: datetime

record tables =
  t_schema :: "ddl list"
  t_record :: "(string \<times> record_row_db) list"
  t_version :: "(string \<times> version_row_write) list"
  t_created_by :: "created_by_edge list"
  t_snapshot_of :: "snapshot_of_edge list"
  t_or_user :: "(string \<times> string \<times> datetime) list"

definition empty_tables :: tables where
  "empty_tables = \<lparr>t_schema = [], t_record = [], t_version = [], t_created_by = [],
     t_snapshot_of = [], t_or_user = []\<rparr>"

text \<open>\<open>OVERWRITE\<close>: a definition replaces the one of the same name.\<close>

fun same_target :: "ddl \<Rightarrow> ddl \<Rightarrow> bool" where
  "same_target (DefineTable a _) (DefineTable b _) = (a = b)"
| "same_target (DefineField f t _ _) (DefineField g u _ _) = (f = g \<and> t = u)"
| "same_target (DefineIndex i t _ _) (DefineIndex j u _ _) = (i = j \<and> t = u)"
| "same_target _ _ = False"

definition unique_sub_index :: ddl where
  "unique_sub_index = DefineIndex ''idx_or_user_auth0_sub'' ''or_user'' ''auth0_sub'' True"

fun run_stmt :: "stmt \<Rightarrow> tables \<Rightarrow> tables option" where
  "run_stmt (Define d) t =
     Some (t\<lparr>t_schema := d # filter (\<lambda>x. \<not> same_target x d) (t_schema t)\<rparr>)"
| "run_stmt (CreateRecord k row) t =
     (if k \<in> fst ` set (t_record t) then None
      else Some (t\<lparr>t_record := t_record t @ [(k, row)]\<rparr>))"
| "run_stmt (CreateVersion k row) t =
     (if k \<in> fst ` set (t_version t) then None
      else Some (t\<lparr>t_version := t_version t @ [(k, row)]\<rparr>))"
| "run_stmt (CreateOrUser k sub a) t =
     (if k \<in> fst ` set (t_or_user t) then None
      else if unique_sub_index \<in> set (t_schema t) \<and> sub \<in> (fst \<circ> snd) ` set (t_or_user t) then None
      else Some (t\<lparr>t_or_user := t_or_user t @ [(k, sub, a)]\<rparr>))"
| "run_stmt (RelateCreatedBy ct cid rid a) t =
     Some (t\<lparr>t_created_by := t_created_by t @ [\<lparr>cb_in = (ct, cid), cb_out = rid, cb_at = a\<rparr>]\<rparr>)"
| "run_stmt (RelateSnapshotOf new src a) t =
     Some (t\<lparr>t_snapshot_of := t_snapshot_of t @ [\<lparr>so_in = new, so_out = src, so_at = a\<rparr>]\<rparr>)"
| "run_stmt (UpdateRecordUpdatedAt k now) t =
     Some (t\<lparr>t_record := map_entry k (\<lambda>r. r\<lparr>rr_updated_at := now\<rparr>) (t_record t)\<rparr>)"
| "run_stmt (UpdateRecordFixed k hash now) t =
     Some (t\<lparr>t_record := map_entry k (\<lambda>r. r\<lparr>rr_state := ''fixed'', rr_content_hash := Some hash,
        rr_updated_at := now\<rparr>) (t_record t)\<rparr>)"
| "run_stmt (UpdateVersionBody k b) t =
     Some (t\<lparr>t_version := map_entry k (\<lambda>r. r\<lparr>vw_body := b\<rparr>) (t_version t)\<rparr>)"
| "run_stmt (DeleteCreatedByOut k) t =
     Some (t\<lparr>t_created_by := filter (\<lambda>e. cb_out e \<noteq> k) (t_created_by t)\<rparr>)"
| "run_stmt (DeleteSnapshotOfIn k) t =
     Some (t\<lparr>t_snapshot_of := filter (\<lambda>e. so_in e \<noteq> k) (t_snapshot_of t)\<rparr>)"
| "run_stmt (DeleteSnapshotOfOut k) t =
     Some (t\<lparr>t_snapshot_of := filter (\<lambda>e. so_out e \<noteq> k) (t_snapshot_of t)\<rparr>)"
| "run_stmt (DeleteVersionsOf u) t =
     Some (t\<lparr>t_version := filter (\<lambda>(k, v). vw_record_id v \<noteq> u) (t_version t)\<rparr>)"
| "run_stmt (DeleteRecord k) t =
     Some (t\<lparr>t_record := filter (\<lambda>(k', v). k' \<noteq> k) (t_record t)\<rparr>)"

fun run_stmts :: "stmt list \<Rightarrow> tables \<Rightarrow> tables option" where
  "run_stmts [] t = Some t"
| "run_stmts (s # ss) t = (case run_stmt s t of None \<Rightarrow> None | Some t' \<Rightarrow> run_stmts ss t')"

text \<open>The queries that are one unit of work: a transaction, or a single statement.\<close>

fun atomic_stmts :: "surql \<Rightarrow> stmt list option" where
  "atomic_stmts (Transaction ss) = Some ss"
| "atomic_stmts (Statements [s]) = Some [s]"
| "atomic_stmts (Statements ss) = None"

definition read_version :: "string \<times> version_row_write \<Rightarrow> version_row_read" where
  "read_version kv = \<lparr>vr_id = KeyString (fst kv), vr_record_id = vw_record_id (snd kv),
     vr_body = vw_body (snd kv), vr_created_at = vw_created_at (snd kv)\<rparr>"

definition versions_of :: "uuid \<Rightarrow> tables \<Rightarrow> (string \<times> version_row_write) list" where
  "versions_of u t = filter (\<lambda>(k, v). vw_record_id v = u) (t_version t)"

definition edges_to :: "string \<Rightarrow> tables \<Rightarrow> created_by_edge list" where
  "edges_to k t = filter (\<lambda>e. cb_out e = k) (t_created_by t)"

definition edges_from :: "string \<times> string \<Rightarrow> tables \<Rightarrow> created_by_edge list" where
  "edges_from u t = filter (\<lambda>e. cb_in e = u) (t_created_by t)"

definition read_or_user :: "string \<times> string \<times> datetime \<Rightarrow> or_user_row_db" where
  "read_or_user r = \<lparr>ou_id = KeyString (fst r), ou_auth0_sub = fst (snd r), ou_created_at = snd (snd r)\<rparr>"

definition or_users_of :: "string \<Rightarrow> tables \<Rightarrow> (string \<times> string \<times> datetime) list" where
  "or_users_of sub t = filter (\<lambda>r. fst (snd r) = sub) (t_or_user t)"

section \<open>The interfaces\<close>

text \<open>\<open>type::string\<close> of a record id: \<open>table:key\<close>, the key in backticks when it needs quoting.\<close>

locale thing_text =
  fixes ext :: "'x crates_scheme"
  assumes uuid_parse_to_string: "uuid_parse_str ext (uuid_to_string ext u) = Some u"
    and thing_to_string_cases:
      "CHR ''`'' \<notin> set tb \<Longrightarrow> CHR ''`'' \<notin> set i \<Longrightarrow>
       thing_to_string ext (tb, i) = tb @ '':'' @ i \<or> thing_to_string ext (tb, i) = tb @ '':`'' @ i @ ''`''"
    and uuid_text_plain: "CHR ''`'' \<notin> set (uuid_to_string ext u)"
begin

lemma uuid_to_string_inj: "uuid_to_string ext u = uuid_to_string ext v \<longleftrightarrow> u = v"
  by (metis uuid_parse_to_string option.inject)

end

locale surreal_sdk = thing_text ext
  for ext :: "'x crates_scheme" +
  fixes ops :: "'w world_ops"
    and tables :: "'w \<Rightarrow> tables"
  assumes now_v7_tables: "do_now_v7 ops w = (u, w') \<Longrightarrow> tables w' = tables w"
    and utc_now_tables: "do_utc_now ops w = (n, w') \<Longrightarrow> tables w' = tables w"
    and query_committed:
      "do_query ops q w = (Inr (Inr ()), w') \<Longrightarrow> atomic_stmts q = Some ss \<Longrightarrow>
       run_stmts ss (tables w) = Some (tables w')"
    and query_refused:
      "do_query ops q w = (Inr (Inl e), w') \<Longrightarrow> atomic_stmts q = Some ss \<Longrightarrow> tables w' = tables w"
    and query_lost:
      "do_query ops q w = (Inl e, w') \<Longrightarrow> atomic_stmts q = Some ss \<Longrightarrow>
       tables w' = tables w \<or> run_stmts ss (tables w) = Some (tables w')"
    and select_record_tables: "do_select_record ops k w = (r, w') \<Longrightarrow> tables w' = tables w"
    and select_record_reply:
      "do_select_record ops k w = (Inr x, w') \<Longrightarrow> x = map_of (t_record (tables w)) k"
    and select_versions_tables: "do_select_versions ops u w = (rv, w') \<Longrightarrow> tables w' = tables w"
    and select_versions_reply:
      "do_select_versions ops u w = (Inr rows, w') \<Longrightarrow>
       mset rows = mset (map read_version (versions_of u (tables w))) \<and> sorted (map vr_created_at rows)"
    and select_created_by_tables: "do_select_created_by ops k w = (rc, w') \<Longrightarrow> tables w' = tables w"
    and select_created_by_reply:
      "do_select_created_by ops k w = (Inr c, w') \<Longrightarrow>
       (case c of
          None \<Rightarrow> edges_to k (tables w) = []
        | Some row \<Rightarrow> (\<exists>e \<in> set (edges_to k (tables w)).
            row = \<lparr>ce_creator = thing_to_string ext (cb_in e), ce_at = cb_at e\<rparr>))"
    and select_created_in_tables: "do_select_created_in ops ct ci w = (rl, w') \<Longrightarrow> tables w' = tables w"
    and select_created_in_reply:
      "do_select_created_in ops ct ci w = (Inr ls, w') \<Longrightarrow>
       mset ls = mset (map (\<lambda>e. \<lparr>lr_record_thing = thing_to_string ext (''record'', cb_out e),
                                 lr_at = cb_at e\<rparr>) (edges_from (ct, ci) (tables w))) \<and>
       sorted (map lr_at ls)"
    and select_or_user_tables: "do_select_or_user ops s w = (ru, w') \<Longrightarrow> tables w' = tables w"
    and select_or_user_reply:
      "do_select_or_user ops s w = (Inr x', w') \<Longrightarrow>
       (case x' of
          None \<Rightarrow> or_users_of s (tables w) = []
        | Some row \<Rightarrow> row \<in> read_or_user ` set (or_users_of s (tables w)))"

locale object_store_sdk =
  fixes ops :: "'w world_ops"
    and blobs :: "'w \<Rightarrow> string \<Rightarrow> byte list option"
  assumes obj_put_ok: "do_obj_put ops p b w = (Inr (), w') \<Longrightarrow> blobs w' = (blobs w)(p \<mapsto> b)"
    and obj_put_err: "do_obj_put ops p b w = (Inl e, w') \<Longrightarrow> blobs w' = blobs w \<or> blobs w' = (blobs w)(p \<mapsto> b)"
    and obj_get_blobs: "do_obj_get ops p w = (rg, w') \<Longrightarrow> blobs w' = blobs w"
    and obj_get_ok: "do_obj_get ops p w = (Inr b, w') \<Longrightarrow> blobs w p = Some b"
    and obj_get_missing: "do_obj_get ops p w = (Inl (ObjNotFound q), w') \<Longrightarrow> q = p \<and> blobs w p = None"
    and obj_head_blobs: "do_obj_head ops p w = (rh, w') \<Longrightarrow> blobs w' = blobs w"
    and obj_head_ok: "do_obj_head ops p w = (Inr m, w') \<Longrightarrow> map_option (\<lambda>b. of_nat (length b)) (blobs w p) = Some (om_size m)"
    and obj_head_missing: "do_obj_head ops p w = (Inl (ObjNotFound q), w') \<Longrightarrow> q = p \<and> blobs w p = None"
    and obj_delete_ok: "do_obj_delete ops p w = (Inr (), w') \<Longrightarrow> blobs w' = (blobs w)(p := None)"
    and obj_delete_missing: "do_obj_delete ops p w = (Inl (ObjNotFound q), w') \<Longrightarrow> q = p \<and> blobs w p = None \<and> blobs w' = blobs w"
    and obj_delete_err: "do_obj_delete ops p w = (Inl e, w') \<Longrightarrow> blobs w' = blobs w \<or> blobs w' = (blobs w)(p := None)"
    and obj_put_create_ok:
      "do_obj_put_create ops p b w = (Inr (), w') \<Longrightarrow> blobs w p = None \<and> blobs w' = (blobs w)(p \<mapsto> b)"
    and obj_put_create_exists:
      "do_obj_put_create ops p b w = (Inl (ObjAlreadyExists q), w') \<Longrightarrow> blobs w p \<noteq> None \<and> blobs w' = blobs w"
    and obj_put_create_err:
      "do_obj_put_create ops p b w = (Inl e, w') \<Longrightarrow>
       blobs w' = blobs w \<or> (blobs w p = None \<and> blobs w' = (blobs w)(p \<mapsto> b))"

locale backend = surreal_sdk ext ops tables + object_store_sdk ops blobs
  for ext :: "'x crates_scheme" and ops :: "'w world_ops"
    and tables :: "'w \<Rightarrow> tables" and blobs :: "'w \<Rightarrow> string \<Rightarrow> byte list option" +
  assumes db_keeps_blobs:
      "do_now_v7 ops w = (u, w') \<Longrightarrow> blobs w' = blobs w"
      "do_utc_now ops w = (n, w') \<Longrightarrow> blobs w' = blobs w"
      "do_query ops q w = (rq, w') \<Longrightarrow> blobs w' = blobs w"
      "do_select_record ops k w = (r, w') \<Longrightarrow> blobs w' = blobs w"
      "do_select_versions ops u w = (rv, w') \<Longrightarrow> blobs w' = blobs w"
      "do_select_created_by ops k w = (rc, w') \<Longrightarrow> blobs w' = blobs w"
      "do_select_created_in ops ct ci w = (rl, w') \<Longrightarrow> blobs w' = blobs w"
      "do_select_or_user ops s w = (ru, w') \<Longrightarrow> blobs w' = blobs w"
    and obj_keeps_tables:
      "do_obj_put ops p b w = (ro, w') \<Longrightarrow> tables w' = tables w"
      "do_obj_get ops p w = (rg, w') \<Longrightarrow> tables w' = tables w"
      "do_obj_head ops p w = (rh, w') \<Longrightarrow> tables w' = tables w"
      "do_obj_delete ops p w = (ro, w') \<Longrightarrow> tables w' = tables w"
      "do_obj_put_create ops p b w = (ro, w') \<Longrightarrow> tables w' = tables w"

text \<open>No call fails for a reason of its own.\<close>

locale healthy_backend = backend ext ops tables blobs
  for ext :: "'x crates_scheme" and ops :: "'w world_ops"
    and tables :: "'w \<Rightarrow> tables" and blobs :: "'w \<Rightarrow> string \<Rightarrow> byte list option" +
  assumes query_answers: "atomic_stmts q = Some ss \<Longrightarrow> do_query ops q w \<noteq> (Inl e, w')"
    and query_succeeds:
      "atomic_stmts q = Some ss \<Longrightarrow> run_stmts ss (tables w) \<noteq> None \<Longrightarrow> do_query ops q w \<noteq> (Inr (Inl e), w')"
    and select_record_answers: "do_select_record ops k w \<noteq> (Inl e, w')"
    and select_versions_answers: "do_select_versions ops u w \<noteq> (Inl e, w')"
    and select_created_by_answers: "do_select_created_by ops k w \<noteq> (Inl e, w')"
    and select_created_in_answers: "do_select_created_in ops ct ci w \<noteq> (Inl e, w')"
    and select_or_user_answers: "do_select_or_user ops k w \<noteq> (Inl e, w')"
    and obj_get_answers: "blobs w p = Some b \<Longrightarrow> do_obj_get ops p w \<noteq> (Inl oe, w')"
    and obj_put_create_answers:
      "do_obj_put_create ops p b w = (Inl oe, w') \<Longrightarrow> \<exists>q. oe = ObjAlreadyExists q"

section \<open>The in-memory world\<close>

record mem_world =
  mw_tables :: tables
  mw_blobs :: "(string \<times> byte list) list"
  mw_uploads :: "(nat \<times> string \<times> byte list) list"
  mw_clock :: int
  mw_next :: nat
  mw_faults :: "bool list"
    \<comment> \<open>which of the coming service calls fail\<close>

definition empty_world :: mem_world where
  "empty_world = \<lparr>mw_tables = empty_tables, mw_blobs = [], mw_uploads = [], mw_clock = 0,
     mw_next = 1, mw_faults = []\<rparr>"

definition mem_blobs :: "mem_world \<Rightarrow> string \<Rightarrow> byte list option" where
  "mem_blobs w = map_of (mw_blobs w)"

text \<open>\<open>mem_call f e good w\<close>: the call fails with \<open>e\<close> when faults are allowed (\<open>f\<close>) and one is due.\<close>

definition mem_call :: "bool \<Rightarrow> 'e \<Rightarrow> (mem_world \<Rightarrow> ('e + 'a) \<times> mem_world) \<Rightarrow> mem_world \<Rightarrow> ('e + 'a) \<times> mem_world" where
  "mem_call f e good w =
     (case mw_faults w of
        [] \<Rightarrow> good w
      | b # bs \<Rightarrow> if f \<and> b then (Inl e, w\<lparr>mw_faults := bs\<rparr>) else good (w\<lparr>mw_faults := bs\<rparr>))"

definition mem_query :: "surql \<Rightarrow> mem_world \<Rightarrow> (surreal_error + (surreal_error + unit)) \<times> mem_world" where
  "mem_query q w =
     (case run_stmts (case q of Transaction ss \<Rightarrow> ss | Statements ss \<Rightarrow> ss) (mw_tables w) of
        None \<Rightarrow> (Inr (Inl ''statement failed''), w)
      | Some t \<Rightarrow> (Inr (Inr ()), w\<lparr>mw_tables := t\<rparr>))"

definition mem_put :: "string \<Rightarrow> byte list \<Rightarrow> mem_world \<Rightarrow> mem_world" where
  "mem_put p b w = w\<lparr>mw_blobs := (p, b) # mw_blobs w\<rparr>"

fun hex_text :: "nat \<Rightarrow> nat \<Rightarrow> string" where
  "hex_text 0 n = []"
| "hex_text (Suc k) n = hex_text k (n div 16) @ [hex_digit (n mod 16)]"

definition hex_value :: "string \<Rightarrow> nat" where
  "hex_value s = foldl (\<lambda>a c. a * 16 + (case to_digit16 c of None \<Rightarrow> 0 | Some d \<Rightarrow> d)) 0 s"

definition mem_crates :: crates where
  "mem_crates =
     \<lparr>uuid_to_string = (\<lambda>u. hex_text 32 (unat u)),
      uuid_parse_str = (\<lambda>s. if length s = 32 \<and> list_all (\<lambda>c. to_digit16 c \<noteq> None) s
                            then Some (of_nat (hex_value s)) else None),
      thing_to_string = (\<lambda>(tb, i).
        if list_all (\<lambda>c. is_hex_char c \<or> c = CHR ''_'') i then tb @ '':'' @ i else tb @ '':`'' @ i @ ''`''),
      fmt_debug = (\<lambda>s. [CHR 0x22] @ s @ [CHR 0x22]),
      object_path = dropWhile (\<lambda>c. c = CHR ''/'')\<rparr>"

definition mem_ops :: "bool \<Rightarrow> mem_world world_ops" where
  "mem_ops f =
     \<lparr>do_now_v7 = (\<lambda>w. (of_nat (mw_next w), w\<lparr>mw_next := mw_next w + 1\<rparr>)),
      do_utc_now = (\<lambda>w. (mw_clock w, w\<lparr>mw_clock := mw_clock w + 1\<rparr>)),
      do_connect = (\<lambda>_. mem_call f ''connect'' (\<lambda>w. (Inr (), w))),
      do_signin = (\<lambda>_ _. mem_call f ''signin'' (\<lambda>w. (Inr (), w))),
      do_use = (\<lambda>_ _. mem_call f ''use'' (\<lambda>w. (Inr (), w))),
      do_query = (\<lambda>q. mem_call f ''query'' (mem_query q)),
      do_select_record = (\<lambda>k. mem_call f ''select'' (\<lambda>w. (Inr (map_of (t_record (mw_tables w)) k), w))),
      do_select_versions = (\<lambda>u. mem_call f ''select'' (\<lambda>w.
        (Inr (sort_key vr_created_at (map read_version (versions_of u (mw_tables w)))), w))),
      do_select_created_by = (\<lambda>k. mem_call f ''select'' (\<lambda>w.
        (Inr (case edges_to k (mw_tables w) of
                [] \<Rightarrow> None
              | e # _ \<Rightarrow> Some \<lparr>ce_creator = thing_to_string mem_crates (cb_in e), ce_at = cb_at e\<rparr>), w))),
      do_select_created_in = (\<lambda>ct ci. mem_call f ''select'' (\<lambda>w.
        (Inr (sort_key lr_at (map (\<lambda>e. \<lparr>lr_record_thing = thing_to_string mem_crates (''record'', cb_out e),
                                       lr_at = cb_at e\<rparr>) (edges_from (ct, ci) (mw_tables w)))), w))),
      do_select_or_user = (\<lambda>s. mem_call f ''select'' (\<lambda>w.
        (Inr (case or_users_of s (mw_tables w) of [] \<Rightarrow> None | r # _ \<Rightarrow> Some (read_or_user r)), w))),
      do_obj_put = (\<lambda>p b. mem_call f (ObjOther ''put'') (\<lambda>w. (Inr (), mem_put p b w))),
      do_obj_get = (\<lambda>p. mem_call f (ObjOther ''get'') (\<lambda>w.
        (case mem_blobs w p of None \<Rightarrow> Inl (ObjNotFound p) | Some b \<Rightarrow> Inr b, w))),
      do_obj_head = (\<lambda>p. mem_call f (ObjOther ''head'') (\<lambda>w.
        (case mem_blobs w p of None \<Rightarrow> Inl (ObjNotFound p)
         | Some b \<Rightarrow> Inr \<lparr>om_size = of_nat (length b), om_e_tag = Some ''etag''\<rparr>, w))),
      do_obj_delete = (\<lambda>p. mem_call f (ObjOther ''delete'') (\<lambda>w.
        (Inr (), w\<lparr>mw_blobs := filter (\<lambda>(q, b). q \<noteq> p) (mw_blobs w)\<rparr>))),
      do_obj_put_create = (\<lambda>p b. mem_call f (ObjOther ''create'') (\<lambda>w.
        (case mem_blobs w p of
           None \<Rightarrow> (Inr (), mem_put p b w)
         | Some _ \<Rightarrow> (Inl (ObjAlreadyExists p), w)))),
      do_obj_sign = (\<lambda>_ p _. mem_call f (ObjOther ''sign'') (\<lambda>w. (Inr (''http://store/'' @ p), w))),
      do_obj_multipart = (\<lambda>p. mem_call f (ObjOther ''multipart'') (\<lambda>w.
        (Inr (mw_next w), w\<lparr>mw_next := mw_next w + 1, mw_uploads := (mw_next w, p, []) # mw_uploads w\<rparr>))),
      do_obj_put_part = (\<lambda>n b. mem_call f (ObjOther ''part'') (\<lambda>w.
        (Inr (), w\<lparr>mw_uploads := map_entry n (\<lambda>(p, bs). (p, bs @ b)) (mw_uploads w)\<rparr>))),
      do_obj_complete = (\<lambda>n. mem_call f (ObjOther ''complete'') (\<lambda>w.
        (case map_of (mw_uploads w) n of
           None \<Rightarrow> (Inl (ObjOther ''no such upload''), w)
         | Some (p, b) \<Rightarrow> (Inr (), mem_put p b w)))),
      do_s3_build = (\<lambda>_. mem_call f (ObjOther ''build'') (\<lambda>w. (Inr (), w))),
      do_http_get = (\<lambda>_. mem_call f ''http'' (\<lambda>w. (Inr [], w)))\<rparr>"

lemma hex_value_snoc: "hex_value (s @ [c]) = hex_value s * 16 + (case to_digit16 c of None \<Rightarrow> 0 | Some d \<Rightarrow> d)"
  by (simp add: hex_value_def)

lemma hex_value_text: "hex_value (hex_text k n) = n mod 16 ^ k"
proof (induction k arbitrary: n)
  case 0
  then show ?case by (simp add: hex_value_def)
next
  case (Suc k)
  have "hex_value (hex_text (Suc k) n) = (n div 16 mod 16 ^ k) * 16 + n mod 16"
    by (simp add: hex_value_snoc Suc.IH)
  also have "\<dots> = n mod (16 * 16 ^ k)"
    by (simp add: mod_mult2_eq mult.commute)
  finally show ?case by simp
qed

lemma hex_text_chars: "list_all is_hex_char (hex_text k n)"
  by (induction k arbitrary: n) simp_all

lemma hex_text_digits: "c \<in> set (hex_text k n) \<Longrightarrow> \<exists>y. to_digit16 c = Some y"
  by (induction k arbitrary: n) auto

lemma length_hex_text [simp]: "length (hex_text k n) = k"
  by (induction k arbitrary: n) simp_all

lemma mem_uuid_round_trip [simp]:
  "uuid_parse_str mem_crates (uuid_to_string mem_crates u) = Some u"
proof -
  have "unat u < 16 ^ 32"
    using unsigned_less [of u, where ?'a = nat] by simp
  moreover have "list_all (\<lambda>c. to_digit16 c \<noteq> None) (hex_text 32 (unat u))"
    using hex_text_digits by (auto simp: list_all_iff)
  ultimately show ?thesis
    by (simp add: mem_crates_def hex_value_text)
qed

lemma mem_uuid_plain: "CHR ''`'' \<notin> set (uuid_to_string mem_crates u)"
proof
  assume "CHR ''`'' \<in> set (uuid_to_string mem_crates u)"
  then have "is_hex_char (CHR ''`'')"
    using hex_text_chars by (auto simp: mem_crates_def list_all_iff)
  then show False by (simp add: is_hex_char_def)
qed

lemma mem_thing_cases:
  "thing_to_string mem_crates (tb, i) = tb @ '':'' @ i \<or>
   thing_to_string mem_crates (tb, i) = tb @ '':`'' @ i @ ''`''"
  by (simp add: mem_crates_def)

interpretation mem_text: thing_text mem_crates
  by unfold_locales (rule mem_uuid_round_trip mem_thing_cases mem_uuid_plain)+

lemma mem_callE:
  assumes "mem_call f e good w = (r, w')"
  obtains (fault) "f" "r = Inl e" "mw_tables w' = mw_tables w" "mw_blobs w' = mw_blobs w"
    | (good) v where "good v = (r, w')" "mw_tables v = mw_tables w" "mw_blobs v = mw_blobs w"
proof (cases "mw_faults w")
  case Nil
  then have "good w = (r, w')" using assms by (simp add: mem_call_def)
  then show ?thesis by (rule good) simp_all
next
  case (Cons b bs)
  show ?thesis
  proof (cases "f \<and> b")
    case True
    with Cons assms have "r = Inl e" "w' = w\<lparr>mw_faults := bs\<rparr>" by (simp_all add: mem_call_def)
    with True show ?thesis by (intro fault) simp_all
  next
    case False
    then have "good (w\<lparr>mw_faults := bs\<rparr>) = (r, w')"
      using Cons assms by (auto simp: mem_call_def)
    then show ?thesis by (rule good) simp_all
  qed
qed

lemma mem_ops_simps:
  "do_now_v7 (mem_ops f) w = (of_nat (mw_next w), w\<lparr>mw_next := mw_next w + 1\<rparr>)"
  "do_utc_now (mem_ops f) w = (mw_clock w, w\<lparr>mw_clock := mw_clock w + 1\<rparr>)"
  "do_query (mem_ops f) q = mem_call f ''query'' (mem_query q)"
  "do_select_record (mem_ops f) k = mem_call f ''select'' (\<lambda>w. (Inr (map_of (t_record (mw_tables w)) k), w))"
  "do_select_versions (mem_ops f) u = mem_call f ''select'' (\<lambda>w.
        (Inr (sort_key vr_created_at (map read_version (versions_of u (mw_tables w)))), w))"
  "do_select_created_by (mem_ops f) k = mem_call f ''select'' (\<lambda>w.
        (Inr (case edges_to k (mw_tables w) of
                [] \<Rightarrow> None
              | e # _ \<Rightarrow> Some \<lparr>ce_creator = thing_to_string mem_crates (cb_in e), ce_at = cb_at e\<rparr>), w))"
  "do_select_created_in (mem_ops f) ct ci = mem_call f ''select'' (\<lambda>w.
        (Inr (sort_key lr_at (map (\<lambda>e. \<lparr>lr_record_thing = thing_to_string mem_crates (''record'', cb_out e),
                                       lr_at = cb_at e\<rparr>) (edges_from (ct, ci) (mw_tables w)))), w))"
  "do_select_or_user (mem_ops f) s = mem_call f ''select'' (\<lambda>w.
        (Inr (case or_users_of s (mw_tables w) of [] \<Rightarrow> None | r # _ \<Rightarrow> Some (read_or_user r)), w))"
  by (simp_all add: mem_ops_def)

lemma mem_obj_simps:
  "do_obj_put (mem_ops f) p b = mem_call f (ObjOther ''put'') (\<lambda>w. (Inr (), mem_put p b w))"
  "do_obj_get (mem_ops f) p = mem_call f (ObjOther ''get'') (\<lambda>w.
        (case mem_blobs w p of None \<Rightarrow> Inl (ObjNotFound p) | Some b \<Rightarrow> Inr b, w))"
  "do_obj_head (mem_ops f) p = mem_call f (ObjOther ''head'') (\<lambda>w.
        (case mem_blobs w p of None \<Rightarrow> Inl (ObjNotFound p)
         | Some b \<Rightarrow> Inr \<lparr>om_size = of_nat (length b), om_e_tag = Some ''etag''\<rparr>, w))"
  "do_obj_delete (mem_ops f) p = mem_call f (ObjOther ''delete'') (\<lambda>w.
        (Inr (), w\<lparr>mw_blobs := filter (\<lambda>(q, b). q \<noteq> p) (mw_blobs w)\<rparr>))"
  "do_obj_put_create (mem_ops f) p b = mem_call f (ObjOther ''create'') (\<lambda>w.
        (case mem_blobs w p of
           None \<Rightarrow> (Inr (), mem_put p b w)
         | Some _ \<Rightarrow> (Inl (ObjAlreadyExists p), w)))"
  by (simp_all add: mem_ops_def)

lemma run_stmt_atomic: "atomic_stmts q = Some ss \<Longrightarrow> (case q of Transaction ss \<Rightarrow> ss | Statements ss \<Rightarrow> ss) = ss"
  by (cases q rule: atomic_stmts.cases) simp_all

lemma mem_queryD:
  assumes "mem_query q w = (r, w')" "atomic_stmts q = Some ss"
  shows "mw_blobs w' = mw_blobs w"
    and "r = Inr (Inr ()) \<and> run_stmts ss (mw_tables w) = Some (mw_tables w') \<or>
         r = Inr (Inl ''statement failed'') \<and> run_stmts ss (mw_tables w) = None \<and> w' = w"
  using assms by (auto simp: mem_query_def run_stmt_atomic split: option.splits)

lemma mem_blobs_put [simp]: "mem_blobs (mem_put p b w) = (mem_blobs w)(p \<mapsto> b)"
  by (simp add: mem_put_def mem_blobs_def fun_eq_iff)

lemma mem_put_tables [simp]: "mw_tables (mem_put p b w) = mw_tables w"
  by (simp add: mem_put_def)

lemma mem_blobs_cong: "mw_blobs v = mw_blobs w \<Longrightarrow> mem_blobs v = mem_blobs w"
  by (simp add: mem_blobs_def)

lemma mem_query_blobs: "mem_query q w = (r, w') \<Longrightarrow> mw_blobs w' = mw_blobs w"
  by (auto simp: mem_query_def split: option.splits)

interpretation mem_sdk: surreal_sdk mem_crates "mem_ops f" mw_tables
proof unfold_locales
  fix q w w' ss e
  show "do_query (mem_ops f) q w = (Inr (Inr ()), w') \<Longrightarrow> atomic_stmts q = Some ss \<Longrightarrow>
       run_stmts ss (mw_tables w) = Some (mw_tables w')"
    by (auto simp: mem_ops_simps elim!: mem_callE dest!: mem_queryD(2))
  show "do_query (mem_ops f) q w = (Inr (Inl e), w') \<Longrightarrow> atomic_stmts q = Some ss \<Longrightarrow> mw_tables w' = mw_tables w"
    by (auto simp: mem_ops_simps elim!: mem_callE dest!: mem_queryD(2))
  show "do_query (mem_ops f) q w = (Inl e, w') \<Longrightarrow> atomic_stmts q = Some ss \<Longrightarrow>
       mw_tables w' = mw_tables w \<or> run_stmts ss (mw_tables w) = Some (mw_tables w')"
    by (auto simp: mem_ops_simps elim!: mem_callE dest!: mem_queryD(2))
qed (auto simp: mem_ops_simps elim!: mem_callE split: list.splits)

interpretation mem_store: object_store_sdk "mem_ops f" mem_blobs
  by unfold_locales (auto simp: mem_obj_simps mem_blobs_def mem_put_def map_of_filter_key fun_eq_iff
      split: option.splits elim!: mem_callE)

interpretation mem: backend mem_crates "mem_ops f" mw_tables mem_blobs
  by unfold_locales (auto simp: mem_ops_simps mem_obj_simps mem_blobs_def split: option.splits
      elim!: mem_callE dest: mem_query_blobs)

lemma mem_call_healthy: "mem_call False e good w = good (w\<lparr>mw_faults := tl (mw_faults w)\<rparr>)"
  by (cases w; cases "mw_faults w") (simp_all add: mem_call_def)

interpretation mem_healthy: healthy_backend mem_crates "mem_ops False" mw_tables mem_blobs
  by unfold_locales (auto simp: mem_ops_simps mem_obj_simps mem_call_healthy mem_query_def
      run_stmt_atomic mem_blobs_def split: option.splits)

section \<open>Rules for the calls\<close>

text \<open>Some database call can fail for a reason of its own; then every error below is possible.\<close>

inductive can_fail :: "'w world_ops \<Rightarrow> ('w \<Rightarrow> tables) \<Rightarrow> bool" for ops :: "'w world_ops" and tables :: "'w \<Rightarrow> tables" where
  query_lost: "do_query ops q w = (Inl e, w') \<Longrightarrow> atomic_stmts q = Some ss \<Longrightarrow> can_fail ops tables"
| query_refused: "do_query ops q w = (Inr (Inl e), w') \<Longrightarrow> atomic_stmts q = Some ss \<Longrightarrow>
    run_stmts ss (tables w) = Some t \<Longrightarrow> can_fail ops tables"
| record_lost: "do_select_record ops k w = (Inl e, w') \<Longrightarrow> can_fail ops tables"
| versions_lost: "do_select_versions ops u w = (Inl e, w') \<Longrightarrow> can_fail ops tables"
| created_by_lost: "do_select_created_by ops k w = (Inl e, w') \<Longrightarrow> can_fail ops tables"
| created_in_lost: "do_select_created_in ops ct ci w = (Inl e, w') \<Longrightarrow> can_fail ops tables"
| or_user_lost: "do_select_or_user ops k w = (Inl e, w') \<Longrightarrow> can_fail ops tables"

inductive_cases can_failE: "can_fail ops tables"

text \<open>The same for the object store: some call fails, and not because the key is missing or taken.\<close>

inductive store_can_fail :: "'w world_ops \<Rightarrow> bool" for ops :: "'w world_ops" where
  put_lost: "do_obj_put ops p b w = (Inl e, w') \<Longrightarrow> store_can_fail ops"
| get_lost: "do_obj_get ops p w = (Inl e, w') \<Longrightarrow> \<nexists>q. e = ObjNotFound q \<Longrightarrow> store_can_fail ops"
| head_lost: "do_obj_head ops p w = (Inl e, w') \<Longrightarrow> \<nexists>q. e = ObjNotFound q \<Longrightarrow> store_can_fail ops"
| delete_lost: "do_obj_delete ops p w = (Inl e, w') \<Longrightarrow> \<nexists>q. e = ObjNotFound q \<Longrightarrow> store_can_fail ops"
| create_lost: "do_obj_put_create ops p b w = (Inl e, w') \<Longrightarrow> \<nexists>q. e = ObjAlreadyExists q \<Longrightarrow> store_can_fail ops"

inductive_cases store_can_failE: "store_can_fail ops"

context backend
begin

lemma wp_now_v7:
  assumes "\<And>u w'. tables w' = tables w \<Longrightarrow> blobs w' = blobs w \<Longrightarrow> do_now_v7 ops w = (u, w') \<Longrightarrow> wp ops (c u) Q w'"
  shows "wp ops (NowV7 c) Q w"
  using assms now_v7_tables db_keeps_blobs(1) by (cases "do_now_v7 ops w") (auto simp: wp_calls)

lemma wp_utc_now:
  assumes "\<And>n w'. tables w' = tables w \<Longrightarrow> blobs w' = blobs w \<Longrightarrow> do_utc_now ops w = (n, w') \<Longrightarrow> wp ops (c n) Q w'"
  shows "wp ops (UtcNow c) Q w"
  using assms utc_now_tables db_keeps_blobs(2) by (cases "do_utc_now ops w") (auto simp: wp_calls)

lemma wp_query:
  assumes "atomic_stmts q = Some ss"
    and "\<And>w'. run_stmts ss (tables w) = Some (tables w') \<Longrightarrow> blobs w' = blobs w \<Longrightarrow> wp ops (c (Inr (Inr ()))) Q w'"
    and "\<And>e w'. tables w' = tables w \<Longrightarrow> blobs w' = blobs w \<Longrightarrow>
      can_fail ops tables \<or> run_stmts ss (tables w) = None \<Longrightarrow> wp ops (c (Inr (Inl e))) Q w'"
    and "\<And>e w'. tables w' = tables w \<or> run_stmts ss (tables w) = Some (tables w') \<Longrightarrow> blobs w' = blobs w \<Longrightarrow>
      can_fail ops tables \<Longrightarrow> wp ops (c (Inl e)) Q w'"
  shows "wp ops (Query q c) Q w"
proof (cases "do_query ops q w")
  case (Pair r w')
  note keeps = db_keeps_blobs(3) [OF Pair]
  show ?thesis
  proof (cases r)
    case (Inl e)
    then have "can_fail ops tables" using Pair assms(1) by (auto intro: can_fail.query_lost)
    then show ?thesis using Inl Pair keeps assms(1,4) query_lost by (simp add: wp_calls)
  next
    case (Inr x)
    then show ?thesis
      using Pair keeps assms(1-3) query_committed query_refused
        can_fail.query_refused [of ops q w _ w' ss tables]
      by (cases x; cases "run_stmts ss (tables w)") (auto simp: wp_calls)
  qed
qed

lemma wp_select_record:
  assumes "\<And>w'. tables w' = tables w \<Longrightarrow> blobs w' = blobs w \<Longrightarrow> wp ops (c (Inr (map_of (t_record (tables w)) k))) Q w'"
    and "\<And>e w'. tables w' = tables w \<Longrightarrow> blobs w' = blobs w \<Longrightarrow> can_fail ops tables \<Longrightarrow> wp ops (c (Inl e)) Q w'"
  shows "wp ops (SelectRecord k c) Q w"
proof (cases "do_select_record ops k w")
  case (Pair r w')
  then show ?thesis
    using assms select_record_tables [OF Pair] db_keeps_blobs(4) [OF Pair] select_record_reply
    by (cases r) (auto simp: wp_calls intro: can_fail.record_lost)
qed

lemma wp_select_versions:
  assumes "\<And>rows w'. tables w' = tables w \<Longrightarrow> blobs w' = blobs w \<Longrightarrow>
      mset rows = mset (map read_version (versions_of u (tables w))) \<Longrightarrow> sorted (map vr_created_at rows) \<Longrightarrow>
      wp ops (c (Inr rows)) Q w'"
    and "\<And>e w'. tables w' = tables w \<Longrightarrow> blobs w' = blobs w \<Longrightarrow> can_fail ops tables \<Longrightarrow> wp ops (c (Inl e)) Q w'"
  shows "wp ops (SelectVersions u c) Q w"
proof (cases "do_select_versions ops u w")
  case (Pair r w')
  then show ?thesis
    using assms select_versions_tables [OF Pair] db_keeps_blobs(5) [OF Pair] select_versions_reply
      can_fail.versions_lost [of ops u w _ w' tables]
    by (cases r) (auto simp: wp_calls)
qed

lemma wp_select_created_by:
  assumes "\<And>w'. tables w' = tables w \<Longrightarrow> blobs w' = blobs w \<Longrightarrow> edges_to k (tables w) = [] \<Longrightarrow> wp ops (c (Inr None)) Q w'"
    and "\<And>e w'. tables w' = tables w \<Longrightarrow> blobs w' = blobs w \<Longrightarrow> e \<in> set (edges_to k (tables w)) \<Longrightarrow>
      wp ops (c (Inr (Some \<lparr>ce_creator = thing_to_string ext (cb_in e), ce_at = cb_at e\<rparr>))) Q w'"
    and "\<And>e w'. tables w' = tables w \<Longrightarrow> blobs w' = blobs w \<Longrightarrow> can_fail ops tables \<Longrightarrow> wp ops (c (Inl e)) Q w'"
  shows "wp ops (SelectCreatedBy k c) Q w"
proof (cases "do_select_created_by ops k w")
  case (Pair r w')
  note keeps = select_created_by_tables [OF Pair] db_keeps_blobs(6) [OF Pair]
  show ?thesis
  proof (cases r)
    case (Inl e)
    then show ?thesis using Pair keeps assms(3) by (simp add: wp_calls can_fail.created_by_lost)
  next
    case (Inr x)
    with Pair have "case x of None \<Rightarrow> edges_to k (tables w) = []
        | Some row \<Rightarrow> (\<exists>e \<in> set (edges_to k (tables w)).
            row = \<lparr>ce_creator = thing_to_string ext (cb_in e), ce_at = cb_at e\<rparr>)"
      using select_created_by_reply by blast
    then show ?thesis
      using Pair Inr keeps assms(1,2) by (cases x) (auto simp: wp_calls)
  qed
qed

lemma wp_select_created_in:
  assumes "\<And>rows w'. tables w' = tables w \<Longrightarrow> blobs w' = blobs w \<Longrightarrow>
      mset rows = mset (map (\<lambda>e. \<lparr>lr_record_thing = thing_to_string ext (''record'', cb_out e), lr_at = cb_at e\<rparr>)
        (edges_from (ct, ci) (tables w))) \<Longrightarrow> sorted (map lr_at rows) \<Longrightarrow>
      wp ops (c (Inr rows)) Q w'"
    and "\<And>e w'. tables w' = tables w \<Longrightarrow> blobs w' = blobs w \<Longrightarrow> can_fail ops tables \<Longrightarrow> wp ops (c (Inl e)) Q w'"
  shows "wp ops (SelectCreatedIn ct ci c) Q w"
proof (cases "do_select_created_in ops ct ci w")
  case (Pair r w')
  then show ?thesis
    using assms select_created_in_tables [OF Pair] db_keeps_blobs(7) [OF Pair] select_created_in_reply
      can_fail.created_in_lost [of ops ct ci w _ w' tables]
    by (cases r) (auto simp: wp_calls)
qed

lemma wp_select_or_user:
  assumes "\<And>w'. tables w' = tables w \<Longrightarrow> blobs w' = blobs w \<Longrightarrow> or_users_of s (tables w) = [] \<Longrightarrow> wp ops (c (Inr None)) Q w'"
    and "\<And>r w'. tables w' = tables w \<Longrightarrow> blobs w' = blobs w \<Longrightarrow> r \<in> set (or_users_of s (tables w)) \<Longrightarrow>
      wp ops (c (Inr (Some (read_or_user r)))) Q w'"
    and "\<And>e w'. tables w' = tables w \<Longrightarrow> blobs w' = blobs w \<Longrightarrow> can_fail ops tables \<Longrightarrow> wp ops (c (Inl e)) Q w'"
  shows "wp ops (SelectOrUser s c) Q w"
proof (cases "do_select_or_user ops s w")
  case (Pair r w')
  note keeps = select_or_user_tables [OF Pair] db_keeps_blobs(8) [OF Pair]
  show ?thesis
  proof (cases r)
    case (Inl e)
    then show ?thesis using Pair keeps assms(3) by (simp add: wp_calls can_fail.or_user_lost)
  next
    case (Inr x)
    with Pair have "case x of None \<Rightarrow> or_users_of s (tables w) = []
        | Some row \<Rightarrow> row \<in> read_or_user ` set (or_users_of s (tables w))"
      using select_or_user_reply by blast
    then show ?thesis
      using Pair Inr keeps assms(1,2) by (cases x) (auto simp: wp_calls)
  qed
qed

lemmas wp_db = wp_now_v7 wp_utc_now wp_select_record wp_select_versions wp_select_created_by
  wp_select_created_in wp_select_or_user

end

context healthy_backend
begin

lemma no_failure: "\<not> can_fail ops tables"
  using query_answers query_succeeds select_record_answers select_versions_answers select_created_by_answers
    select_created_in_answers select_or_user_answers
  by (auto elim!: can_failE)

end

lemma mem_store_healthy: "\<not> store_can_fail (mem_ops False)"
  by (auto simp: mem_obj_simps mem_call_healthy elim!: store_can_failE split: option.splits)

end
