(* ===== verification/Repository.thy ===== *)
theory Repository
  imports Backend
begin

text \<open>
  \<open>crates/objectrecords-db/src/repository.rs\<close>: \<open>SurrealRecordRepository\<close>.

  Each async function is a program over the calls of theory \<open>Effects\<close>, in the order of the
  source. \<open>ext\<close> holds the pure third-party functions (UUID text). \<open>self.db\<close> is implicit: it is
  the one database the calls go to. The rows of the wire types stand in \<open>Effects\<close>.
\<close>

record record_with_attribution =
  rwa_record :: any_record
  rwa_attribution :: persisted_attribution

record or_user =
  or_id :: uuid
  or_auth0_sub :: string
  or_created_at :: datetime

section \<open>Row conversions\<close>

definition record_row_from_persisted :: "persisted_record \<Rightarrow> record_row_db" where
  "record_row_from_persisted p =
     \<lparr>rr_state = as_literal (pr_state p), rr_kind = pr_kind p, rr_content_hash = pr_content_hash p,
      rr_created_at = pr_created_at p, rr_updated_at = pr_updated_at p\<rparr>"

definition record_row_into_persisted :: "record_row_db \<Rightarrow> uuid \<Rightarrow> db_error + persisted_record" where
  "record_row_into_persisted row i =
     try_result (map_err UnknownState (from_literal (rr_state row))) (\<lambda>st.
     Inr \<lparr>pr_id = i, pr_state = st, pr_kind = rr_kind row, pr_content_hash = rr_content_hash row,
          pr_created_at = rr_created_at row, pr_updated_at = rr_updated_at row\<rparr>)"

definition version_row_from_persisted :: "persisted_version \<Rightarrow> version_row_write" where
  "version_row_from_persisted v =
     \<lparr>vw_record_id = pv_record_id v, vw_body = pv_body v, vw_created_at = pv_created_at v\<rparr>"

definition version_row_into_persisted ::
  "'x crates_scheme \<Rightarrow> version_row_read \<Rightarrow> db_error + persisted_version" where
  "version_row_into_persisted ext row =
     (case vr_id row of
        KeyOther other \<Rightarrow> Inl (MalformedHash (''version id is not a string key: '' @ other))
      | KeyString raw \<Rightarrow>
          try_result (ok_or (MalformedHash (''version id is not a UUID: '' @ raw)) (uuid_parse_str ext raw)) (\<lambda>i.
          Inr \<lparr>pv_id = i, pv_record_id = vr_record_id row, pv_body = vr_body row,
               pv_created_at = vr_created_at row\<rparr>))"

definition into_or_user :: "'x crates_scheme \<Rightarrow> or_user_row_db \<Rightarrow> db_error + or_user" where
  "into_or_user ext row =
     (case ou_id row of
        KeyOther other \<Rightarrow> Inl (MalformedHash (''or_user id is not a string key: '' @ other))
      | KeyString raw \<Rightarrow>
          try_result (ok_or (MalformedHash (''or_user id is not a UUID: '' @ raw)) (uuid_parse_str ext raw)) (\<lambda>i.
          Inr \<lparr>or_id = i, or_auth0_sub = ou_auth0_sub row, or_created_at = ou_created_at row\<rparr>))"

section \<open>Helpers\<close>

text \<open>The em dash of two messages, as UTF-8.\<close>

definition em_dash :: string where
  "em_dash = [CHR 0xE2, CHR 0x80, CHR 0x94]"

definition capital_two :: string where
  "capital_two = [CHR 0xE2, CHR 0x85, CHR 0xA1]"

definition parse_thing_literal :: "'x crates_scheme \<Rightarrow> string \<Rightarrow> db_error + string \<times> string" where
  "parse_thing_literal ext s =
     ok_or (MalformedHash (''expected Thing literal `<table>:<id>`, got '' @ fmt_debug ext s))
       (split_once CHR '':'' s)"

definition strip_thing_backticks :: "string \<Rightarrow> string" where
  "strip_thing_backticks s = remove_char CHR ''`'' s"

text \<open>\<open>query(\<dots>).await?.check()?\<close>, with \<open>From<surrealdb::Error>\<close>; and \<open>.await?\<close> on a read.\<close>

definition query_checked :: "surql \<Rightarrow> (db_error + unit) prog" where
  "query_checked q = Query q (\<lambda>r. Ret (case r of
      Inl e \<Rightarrow> Inl (Surreal e)
    | Inr (Inl e) \<Rightarrow> Inl (Surreal e)
    | Inr (Inr u) \<Rightarrow> Inr u))"

definition surreal_read :: "(surreal_error + 'a) prog \<Rightarrow> (db_error + 'a) prog" where
  "surreal_read p = prog_map_err Surreal p"

definition write_record_atomic :: "'x crates_scheme \<Rightarrow> persisted_row \<Rightarrow> (db_error + unit) prog" where
  "write_record_atomic ext row =
     ret_try (parse_thing_literal ext (pa_creator (row_attribution row))) (\<lambda>(creator_table, creator_id).
     (let id_str = uuid_to_string ext (pr_id (row_record row)) in
      query_checked (Transaction
        ([CreateRecord id_str (record_row_from_persisted (row_record row))]
         @ map (\<lambda>v. CreateVersion (uuid_to_string ext (pv_id v)) (version_row_from_persisted v)) (row_versions row)
         @ [RelateCreatedBy creator_table creator_id id_str (pa_at (row_attribution row))]))))"

section \<open>Reads\<close>

definition no_edge_message :: "'x crates_scheme \<Rightarrow> uuid \<Rightarrow> string" where
  "no_edge_message ext i =
     ''record '' @ uuid_to_string ext i @ '' has no created_by edge '' @ em_dash @ '' Paradigm '' @
     capital_two @ '' invariant violation''"

definition fetch_attribution ::
  "'x crates_scheme \<Rightarrow> uuid \<Rightarrow> (db_error + persisted_attribution option) prog" where
  "fetch_attribution ext record_id =
     prog_try (surreal_read (SelectCreatedBy (uuid_to_string ext record_id) Ret)) (\<lambda>edge.
     Ret (Inr (map_option (\<lambda>e. \<lparr>pa_creator = strip_thing_backticks (ce_creator e), pa_at = ce_at e\<rparr>) edge)))"

definition fetch_versions :: "'x crates_scheme \<Rightarrow> uuid \<Rightarrow> (db_error + persisted_version list) prog" where
  "fetch_versions ext record_id =
     prog_try (surreal_read (SelectVersions record_id Ret)) (\<lambda>rows.
     Ret (collect_results (map (version_row_into_persisted ext) rows)))"

definition assemble :: "'x crates_scheme \<Rightarrow> uuid \<Rightarrow> (db_error + record_with_attribution option) prog" where
  "assemble ext i =
     prog_try (surreal_read (SelectRecord (uuid_to_string ext i) Ret)) (\<lambda>record_row.
     case record_row of
       None \<Rightarrow> Ret (Inr None)
     | Some row \<Rightarrow>
         ret_try (record_row_into_persisted row i) (\<lambda>persisted_record.
         prog_try (fetch_versions ext i) (\<lambda>versions.
         prog_try (fetch_attribution ext i) (\<lambda>attribution.
         ret_try (ok_or (MalformedHash (no_edge_message ext i)) attribution) (\<lambda>a.
         ret_try (persisted_row_to_any
             \<lparr>row_record = persisted_record, row_versions = versions, row_attribution = a\<rparr>) (\<lambda>any.
         Ret (Inr (Some \<lparr>rwa_record = any, rwa_attribution = a\<rparr>))))))))"

definition find_record :: "'x crates_scheme \<Rightarrow> uuid \<Rightarrow> (db_error + record_with_attribution option) prog" where
  "find_record ext i = assemble ext i"

definition thing_uuid :: "'x crates_scheme \<Rightarrow> string \<Rightarrow> uuid option" where
  "thing_uuid ext thing =
     Option.bind (split_once CHR '':'' (strip_thing_backticks thing)) (\<lambda>(_, i). uuid_parse_str ext i)"

fun assemble_each ::
  "'x crates_scheme \<Rightarrow> uuid list \<Rightarrow> record_with_attribution list \<Rightarrow> (db_error + record_with_attribution list) prog" where
  "assemble_each ext [] out = Ret (Inr out)"
| "assemble_each ext (i # ids) out =
     prog_try (assemble ext i) (\<lambda>found.
     assemble_each ext ids (case found of None \<Rightarrow> out | Some rwa \<Rightarrow> out @ [rwa]))"

definition list_by_creator ::
  "'x crates_scheme \<Rightarrow> string \<Rightarrow> (db_error + record_with_attribution list) prog" where
  "list_by_creator ext creator =
     ret_try (parse_thing_literal ext creator) (\<lambda>(creator_table, creator_id).
     prog_try (surreal_read (SelectCreatedIn creator_table creator_id Ret)) (\<lambda>rows.
     assemble_each ext (List.map_filter (\<lambda>r. thing_uuid ext (lr_record_thing r)) rows) []))"

section \<open>Writes\<close>

definition save :: "'x crates_scheme \<Rightarrow> 's state_literal \<Rightarrow> 's orecord \<Rightarrow> string \<Rightarrow> (db_error + unit) prog" where
  "save ext lit r creator =
     (if LITERAL lit = PSnapshot then Ret (Inl SaveSnapshotRequiresExplicitMethod)
      else UtcNow (\<lambda>now.
        let row = record_to_persisted_row lit r creator now;
            i = pr_id (row_record row) in
        prog_try (surreal_read (SelectRecord (uuid_to_string ext i) Ret)) (\<lambda>existing.
        if existing \<noteq> None then Ret (Inl (DbAlreadyExists i)) else write_record_atomic ext row)))"

text \<open>The loop over \<open>&mut row.versions\<close>: a new id for each, in order.\<close>

fun remint_versions :: "uuid \<Rightarrow> persisted_version list \<Rightarrow> persisted_version list prog" where
  "remint_versions new_db_id [] = Ret []"
| "remint_versions new_db_id (v # vs) =
     NowV7 (\<lambda>vid. prog_bind (remint_versions new_db_id vs) (\<lambda>vs'.
       Ret (v\<lparr>pv_id := vid, pv_record_id := new_db_id\<rparr> # vs')))"

definition save_snapshot :: "'x crates_scheme \<Rightarrow> snapshot orecord \<Rightarrow> string \<Rightarrow> (db_error + uuid) prog" where
  "save_snapshot ext r creator =
     NowV7 (\<lambda>new_db_id. UtcNow (\<lambda>now.
       let row = record_to_persisted_row literal_snapshot r creator now in
       prog_bind (remint_versions new_db_id (row_versions row)) (\<lambda>vs.
       let row' = row\<lparr>row_record := (row_record row)\<lparr>pr_id := new_db_id\<rparr>, row_versions := vs\<rparr> in
       prog_try (write_record_atomic ext row') (\<lambda>_.
       prog_try (query_checked (Statements
           [RelateSnapshotOf (uuid_to_string ext new_db_id) (uuid_to_string ext (rec_id r))
              (pa_at (row_attribution row'))])) (\<lambda>_.
       Ret (Inr new_db_id))))))"

definition add_version :: "'x crates_scheme \<Rightarrow> uuid \<Rightarrow> body \<Rightarrow> (db_error + version) prog" where
  "add_version ext record_id b =
     NowV7 (\<lambda>version_id. UtcNow (\<lambda>now.
       prog_try (query_checked (Transaction
         [CreateVersion (uuid_to_string ext version_id)
            \<lparr>vw_record_id = record_id, vw_body = body_to_persisted b, vw_created_at = now\<rparr>,
          UpdateRecordUpdatedAt (uuid_to_string ext record_id) now])) (\<lambda>_.
       Ret (Inr \<lparr>ver_id = VersionId version_id, ver_body = b\<rparr>))))"

definition rewrite_trailing :: "sha256_hash \<Rightarrow> version list \<Rightarrow> version list" where
  "rewrite_trailing hash versions =
     (case versions of
        [] \<Rightarrow> []
      | _ \<Rightarrow> (case ver_body (last versions) of
          Inline _ \<Rightarrow> versions
        | BlobRef _ sz \<Rightarrow>
            butlast versions @ [(last versions)\<lparr>ver_body := BlobRef (''/fixed/'' @ hash_to_string hash) sz\<rparr>]))"

definition transition_versions ::
  "'x crates_scheme \<Rightarrow> uuid \<Rightarrow> sha256_hash \<Rightarrow> kind \<Rightarrow> version list \<Rightarrow> (db_error + fixed orecord) prog" where
  "transition_versions ext i hash k versions =
     (let new_versions = rewrite_trailing hash versions in
      if new_versions = [] then Ret (Inl (EmptyVersionChain i))
      else
        let last_version_id = version_uuid (ver_id (last new_versions));
            last_body = body_to_persisted (ver_body (last new_versions)) in
        UtcNow (\<lambda>now.
          prog_try (query_checked (Transaction
            [UpdateRecordFixed (uuid_to_string ext i) (hash_to_string hash) now,
             UpdateVersionBody (uuid_to_string ext last_version_id) last_body])) (\<lambda>_.
          Ret (Inr (fixed_from_parts i k hash new_versions)))))"

definition transition_to_fixed ::
  "'x crates_scheme \<Rightarrow> uuid \<Rightarrow> sha256_hash \<Rightarrow> (db_error + fixed orecord) prog" where
  "transition_to_fixed ext i hash =
     prog_try (assemble ext i) (\<lambda>found.
     case found of
       None \<Rightarrow> Ret (Inl (EmptyVersionChain i))
     | Some current \<Rightarrow>
         (case rwa_record current of
            AnyFixed _ \<Rightarrow> Ret (Inl (StateMismatch ''fixed'' ''mutable | snapshot''))
          | AnyMutable r \<Rightarrow> transition_versions ext i hash (rec_kind r) (rec_versions r)
          | AnySnapshot r \<Rightarrow> transition_versions ext i hash (rec_kind r) (rec_versions r)))"

definition delete :: "'x crates_scheme \<Rightarrow> uuid \<Rightarrow> (db_error + bool) prog" where
  "delete ext i =
     prog_try (surreal_read (SelectRecord (uuid_to_string ext i) Ret)) (\<lambda>existing.
     if existing = None then Ret (Inr False)
     else
       let rid = uuid_to_string ext i in
       prog_try (query_checked (Transaction
         [DeleteCreatedByOut rid, DeleteSnapshotOfIn rid, DeleteSnapshotOfOut rid,
          DeleteVersionsOf i, DeleteRecord rid])) (\<lambda>_.
       Ret (Inr True)))"

section \<open>Users\<close>

definition find_or_user_by_sub :: "'x crates_scheme \<Rightarrow> string \<Rightarrow> (db_error + or_user option) prog" where
  "find_or_user_by_sub ext sub =
     prog_try (surreal_read (SelectOrUser sub Ret)) (\<lambda>row.
     Ret (transpose_result (map_option (into_or_user ext) row)))"

definition reselect_missed_message :: "'x crates_scheme \<Rightarrow> string \<Rightarrow> string" where
  "reselect_missed_message ext sub =
     ''or_user CREATE failed and re-SELECT for sub '' @ fmt_debug ext sub @ '' missed '' @ em_dash @
     '' either a non-race error or the row vanished''"

definition upsert_or_user :: "'x crates_scheme \<Rightarrow> string \<Rightarrow> (db_error + or_user) prog" where
  "upsert_or_user ext sub =
     prog_try (find_or_user_by_sub ext sub) (\<lambda>found.
     case found of
       Some existing \<Rightarrow> Ret (Inr existing)
     | None \<Rightarrow>
         NowV7 (\<lambda>new_id. UtcNow (\<lambda>now.
         prog_try (surreal_read (Query (Statements [CreateOrUser (uuid_to_string ext new_id) sub now]) Ret)) (\<lambda>result.
         case result of
           Inr _ \<Rightarrow> Ret (Inr \<lparr>or_id = new_id, or_auth0_sub = sub, or_created_at = now\<rparr>)
         | Inl _ \<Rightarrow>
             prog_try (find_or_user_by_sub ext sub) (\<lambda>again.
             Ret (ok_or (MalformedHash (reselect_missed_message ext sub)) again))))))"

end
