(* ===== verification/Store_Invariant.thy ===== *)
theory Store_Invariant
  imports Repository
begin

text \<open>
  What the repository's transactions do to the tables, and the structural invariant they keep:
  keys are unique and are UUID texts, every record has at least one version and exactly one
  \<open>created_by\<close> edge, its state literal is one of the three and it has a 64-digit hash exactly
  when it is fixed, and no edge points to a missing record. Under it \<open>assemble\<close> cannot meet
  a structural error (theory \<open>Repository_Reads\<close>).
\<close>

section \<open>The transactions on the tables\<close>

lemma run_stmts_append:
  "run_stmts (ss @ ss') t = (case run_stmts ss t of None \<Rightarrow> None | Some t' \<Rightarrow> run_stmts ss' t')"
  by (induction ss arbitrary: t) (auto split: option.splits)

lemma run_create_versions:
  "run_stmts (map (\<lambda>v. CreateVersion (f v) (g v)) vs) t =
     (if distinct (map f vs) \<and> f ` set vs \<inter> fst ` set (t_version t) = {}
      then Some (t\<lparr>t_version := t_version t @ map (\<lambda>v. (f v, g v)) vs\<rparr>) else None)"
proof (induction vs arbitrary: t)
  case Nil
  then show ?case by simp
next
  case (Cons v vs)
  show ?case by (auto simp: Cons.IH)
qed

text \<open>The tables after \<open>write_record_atomic\<close>.\<close>

definition written :: "'x crates_scheme \<Rightarrow> persisted_row \<Rightarrow> string \<times> string \<Rightarrow> tables \<Rightarrow> tables" where
  "written ext row creator t =
     (let k = uuid_to_string ext (pr_id (row_record row)) in
      t\<lparr>t_record := t_record t @ [(k, record_row_from_persisted (row_record row))],
        t_version := t_version t @ map (\<lambda>v. (uuid_to_string ext (pv_id v), version_row_from_persisted v)) (row_versions row),
        t_created_by := t_created_by t @ [\<lparr>cb_in = creator, cb_out = k, cb_at = pa_at (row_attribution row)\<rparr>]\<rparr>)"

definition write_free :: "'x crates_scheme \<Rightarrow> persisted_row \<Rightarrow> tables \<Rightarrow> bool" where
  "write_free ext row t \<longleftrightarrow>
     uuid_to_string ext (pr_id (row_record row)) \<notin> fst ` set (t_record t) \<and>
     distinct (map (\<lambda>v. uuid_to_string ext (pv_id v)) (row_versions row)) \<and>
     (\<lambda>v. uuid_to_string ext (pv_id v)) ` set (row_versions row) \<inter> fst ` set (t_version t) = {}"

lemma run_write_record:
  "run_stmts ([CreateRecord (uuid_to_string ext (pr_id (row_record row))) (record_row_from_persisted (row_record row))]
      @ map (\<lambda>v. CreateVersion (uuid_to_string ext (pv_id v)) (version_row_from_persisted v)) (row_versions row)
      @ [RelateCreatedBy ct ci (uuid_to_string ext (pr_id (row_record row))) (pa_at (row_attribution row))]) t =
   (if write_free ext row t then Some (written ext row (ct, ci) t) else None)"
  by (auto simp: run_stmts_append run_create_versions written_def write_free_def Let_def)

definition fixed_tables :: "string \<Rightarrow> string \<Rightarrow> datetime \<Rightarrow> string \<Rightarrow> persisted_body \<Rightarrow> tables \<Rightarrow> tables" where
  "fixed_tables rid hash now vid b t =
     t\<lparr>t_record := map_entry rid (\<lambda>r. r\<lparr>rr_state := ''fixed'', rr_content_hash := Some hash, rr_updated_at := now\<rparr>) (t_record t),
       t_version := map_entry vid (\<lambda>r. r\<lparr>vw_body := b\<rparr>) (t_version t)\<rparr>"

lemma run_transition:
  "run_stmts [UpdateRecordFixed rid hash now, UpdateVersionBody vid b] t = Some (fixed_tables rid hash now vid b t)"
  by (simp add: fixed_tables_def)

definition deleted_tables :: "string \<Rightarrow> uuid \<Rightarrow> tables \<Rightarrow> tables" where
  "deleted_tables rid i t =
     t\<lparr>t_record := filter (\<lambda>(k', v). k' \<noteq> rid) (t_record t),
       t_version := filter (\<lambda>(k, v). vw_record_id v \<noteq> i) (t_version t),
       t_created_by := filter (\<lambda>e. cb_out e \<noteq> rid) (t_created_by t),
       t_snapshot_of := filter (\<lambda>e. so_in e \<noteq> rid \<and> so_out e \<noteq> rid) (t_snapshot_of t)\<rparr>"

lemma run_delete:
  "run_stmts [DeleteCreatedByOut rid, DeleteSnapshotOfIn rid, DeleteSnapshotOfOut rid, DeleteVersionsOf i,
     DeleteRecord rid] t = Some (deleted_tables rid i t)"
  by (simp add: deleted_tables_def conj_commute)

definition appended_tables :: "string \<Rightarrow> version_row_write \<Rightarrow> string \<Rightarrow> datetime \<Rightarrow> tables \<Rightarrow> tables" where
  "appended_tables vid vrow rid now t =
     t\<lparr>t_version := t_version t @ [(vid, vrow)],
       t_record := map_entry rid (\<lambda>r. r\<lparr>rr_updated_at := now\<rparr>) (t_record t)\<rparr>"

lemma run_append:
  "run_stmts [CreateVersion vid vrow, UpdateRecordUpdatedAt rid now] t =
     (if vid \<in> fst ` set (t_version t) then None else Some (appended_tables vid vrow rid now t))"
  by (simp add: appended_tables_def)

section \<open>The structural invariant of the store\<close>

definition state_hash_ok :: "record_row_db \<Rightarrow> bool" where
  "state_hash_ok row =
     (case from_literal (rr_state row) of
        Inl _ \<Rightarrow> False
      | Inr st \<Rightarrow> (case rr_content_hash row of None \<Rightarrow> st \<noteq> PFixed | Some s \<Rightarrow> st = PFixed \<and> hex64 s))"

definition record_wf :: "'x crates_scheme \<Rightarrow> tables \<Rightarrow> string \<times> record_row_db \<Rightarrow> bool" where
  "record_wf ext t kr \<longleftrightarrow>
     (\<exists>u. fst kr = uuid_to_string ext u \<and> versions_of u t \<noteq> []) \<and>
     length (edges_to (fst kr) t) = 1 \<and> state_hash_ok (snd kr)"

definition repo_inv :: "'x crates_scheme \<Rightarrow> tables \<Rightarrow> bool" where
  "repo_inv ext t \<longleftrightarrow>
     distinct (map fst (t_record t)) \<and> distinct (map fst (t_version t)) \<and>
     (\<forall>kr \<in> set (t_record t). record_wf ext t kr) \<and>
     (\<forall>kv \<in> set (t_version t). \<exists>u. fst kv = uuid_to_string ext u) \<and>
     (\<forall>e \<in> set (t_created_by t). cb_out e \<in> fst ` set (t_record t))"

lemma repo_inv_empty: "t_record t = [] \<Longrightarrow> t_version t = [] \<Longrightarrow> t_created_by t = [] \<Longrightarrow> repo_inv ext t"
  by (simp add: repo_inv_def)

lemma edges_to_absent:
  "repo_inv ext t \<Longrightarrow> k \<notin> fst ` set (t_record t) \<Longrightarrow> edges_to k t = []"
  by (auto simp: repo_inv_def edges_to_def filter_empty_conv)

lemma versions_of_written [simp]:
  "versions_of u (written ext row c t) = versions_of u t @
     map (\<lambda>v. (uuid_to_string ext (pv_id v), version_row_from_persisted v))
       (filter (\<lambda>v. pv_record_id v = u) (row_versions row))"
  by (simp add: versions_of_def written_def Let_def filter_map comp_def version_row_from_persisted_def)

lemma edges_to_written [simp]:
  "edges_to k (written ext row c t) = edges_to k t @
     (if k = uuid_to_string ext (pr_id (row_record row))
      then [\<lparr>cb_in = c, cb_out = k, cb_at = pa_at (row_attribution row)\<rparr>] else [])"
  by (simp add: edges_to_def written_def Let_def)

lemma state_hash_from_persisted:
  "state_hash_ok (record_row_from_persisted p) =
     (case pr_content_hash p of None \<Rightarrow> pr_state p \<noteq> PFixed | Some s \<Rightarrow> pr_state p = PFixed \<and> hex64 s)"
  by (simp add: state_hash_ok_def record_row_from_persisted_def)

lemma repo_inv_written:
  assumes inv: "repo_inv ext t" and free: "write_free ext row t" and valid: "row_valid row"
    and own: "\<forall>v \<in> set (row_versions row). pv_record_id v = pr_id (row_record row)"
  shows "repo_inv ext (written ext row c t)"
proof -
  let ?k = "uuid_to_string ext (pr_id (row_record row))"
  let ?t = "written ext row c t"
  have new: "record_wf ext ?t (?k, record_row_from_persisted (row_record row))"
    using valid own free edges_to_absent [OF inv, of ?k]
    by (auto simp: record_wf_def state_hash_from_persisted row_valid_def write_free_def
        intro!: exI [of _ "pr_id (row_record row)"])
  have old: "record_wf ext ?t kr" if "kr \<in> set (t_record t)" for kr
  proof -
    have "fst kr \<noteq> ?k" using that free by (metis image_eqI write_free_def)
    then show ?thesis using that inv by (auto simp: repo_inv_def record_wf_def)
  qed
  show ?thesis
    unfolding repo_inv_def
  proof (intro conjI)
    show "distinct (map fst (t_record ?t))"
      using inv free by (auto simp: repo_inv_def written_def Let_def write_free_def)
    show "distinct (map fst (t_version ?t))"
      using inv free by (auto simp: repo_inv_def written_def Let_def write_free_def comp_def)
    show "\<forall>kr \<in> set (t_record ?t). record_wf ext ?t kr"
      using new old by (auto simp: written_def [of ext row c t] Let_def)
    show "\<forall>kv \<in> set (t_version ?t). \<exists>u. fst kv = uuid_to_string ext u"
      using inv by (auto simp: repo_inv_def written_def Let_def)
    show "\<forall>e \<in> set (t_created_by ?t). cb_out e \<in> fst ` set (t_record ?t)"
      using inv by (auto simp: repo_inv_def written_def Let_def)
  qed
qed

lemma fst_set_map_entry [simp]: "fst ` set (map_entry k f xs) = fst ` set xs"
  by (metis fst_map_entry list.set_map)

lemma versions_of_appended [simp]:
  "versions_of u (appended_tables vid vrow rid now t) =
     versions_of u t @ (if vw_record_id vrow = u then [(vid, vrow)] else [])"
  by (simp add: versions_of_def appended_tables_def)

lemma edges_to_same_created_by: "t_created_by t' = t_created_by t \<Longrightarrow> edges_to k t' = edges_to k t"
  by (simp add: edges_to_def)

lemma set_map_entryD:
  "(k', v) \<in> set (map_entry k f xs) \<Longrightarrow> \<exists>v0. (k', v0) \<in> set xs \<and> v = (if k' = k then f v0 else v0)"
  by (auto simp: map_entry_def)

lemma state_hash_ok_updates [simp]:
  "state_hash_ok (row\<lparr>rr_updated_at := now\<rparr>) = state_hash_ok row"
  "state_hash_ok (row\<lparr>rr_state := ''fixed'', rr_content_hash := Some hash\<rparr>) = hex64 hash"
  by (simp_all add: state_hash_ok_def from_literal_def split: sum.splits)

lemma repo_inv_appended:
  assumes inv: "repo_inv ext t" and free: "uuid_to_string ext vid \<notin> fst ` set (t_version t)"
  shows "repo_inv ext (appended_tables (uuid_to_string ext vid) vrow rid now t)" (is "repo_inv ext ?t")
proof -
  have edges: "edges_to k ?t = edges_to k t" for k
    by (rule edges_to_same_created_by) (simp add: appended_tables_def)
  have "record_wf ext ?t (k, row)" if kr: "(k, row) \<in> set (t_record ?t)" for k row
  proof -
    obtain row0 where "(k, row0) \<in> set (t_record t)"
      "row = (if k = rid then row0\<lparr>rr_updated_at := now\<rparr> else row0)"
      using set_map_entryD kr unfolding appended_tables_def by fastforce
    moreover from this(1) inv have "record_wf ext t (k, row0)" by (auto simp: repo_inv_def)
    ultimately show ?thesis by (auto simp: record_wf_def edges)
  qed
  then show ?thesis
    using inv free by (auto simp: repo_inv_def appended_tables_def)
qed

lemma map_entry_Cons:
  "map_entry k f [] = []"
  "map_entry k f (kv # xs) = (fst kv, if fst kv = k then f (snd kv) else snd kv) # map_entry k f xs"
  by (simp_all add: map_entry_def split: prod.splits)

lemma versions_of_fixed:
  "map fst (versions_of u (fixed_tables rid hash now vid b t)) = map fst (versions_of u t)"
proof -
  have "map fst (filter (\<lambda>(k, v). vw_record_id v = u) (map_entry vid (\<lambda>r. r\<lparr>vw_body := b\<rparr>) xs)) =
      map fst (filter (\<lambda>(k, v). vw_record_id v = u) xs)" for xs :: "(string \<times> version_row_write) list"
    by (induction xs) (simp_all add: map_entry_Cons split: prod.splits)
  then show ?thesis by (simp add: versions_of_def fixed_tables_def)
qed

lemma repo_inv_fixed:
  assumes inv: "repo_inv ext t" and hash: "hex64 hash"
  shows "repo_inv ext (fixed_tables rid hash now vid b t)" (is "repo_inv ext ?t")
proof -
  have edges: "edges_to k ?t = edges_to k t" for k
    by (rule edges_to_same_created_by) (simp add: fixed_tables_def)
  have vs: "versions_of u ?t = [] \<longleftrightarrow> versions_of u t = []" for u
    using versions_of_fixed [of u rid hash now vid b t] by (metis list.map_disc_iff)
  have "record_wf ext ?t (k, row)" if kr: "(k, row) \<in> set (t_record ?t)" for k row
  proof -
    obtain row0 where "(k, row0) \<in> set (t_record t)"
      "row = (if k = rid then row0\<lparr>rr_state := ''fixed'', rr_content_hash := Some hash, rr_updated_at := now\<rparr> else row0)"
      using set_map_entryD kr unfolding fixed_tables_def by fastforce
    moreover from this(1) inv have "record_wf ext t (k, row0)" by (auto simp: repo_inv_def)
    ultimately show ?thesis using hash by (auto simp: record_wf_def edges vs)
  qed
  moreover have "\<exists>u. k = uuid_to_string ext u" if "(k, v) \<in> set (t_version ?t)" for k v
    using that inv set_map_entryD unfolding fixed_tables_def repo_inv_def by fastforce
  ultimately show ?thesis
    using inv by (auto simp: repo_inv_def fixed_tables_def)
qed

lemma repo_inv_deleted:
  assumes inv: "repo_inv ext t" and inj: "\<And>u v. uuid_to_string ext u = uuid_to_string ext v \<longleftrightarrow> u = v"
  shows "repo_inv ext (deleted_tables (uuid_to_string ext i) i t)" (is "repo_inv ext ?t")
proof -
  let ?k = "uuid_to_string ext i"
  have edges: "edges_to k ?t = edges_to k t" if "k \<noteq> ?k" for k
    using that by (auto simp: edges_to_def deleted_tables_def intro!: filter_cong)
  have vs: "versions_of u ?t = versions_of u t" if "u \<noteq> i" for u
    using that by (auto simp: versions_of_def deleted_tables_def intro!: filter_cong)
  have "record_wf ext ?t (k, row)" if "(k, row) \<in> set (t_record ?t)" for k row
  proof -
    have "k \<noteq> ?k" "record_wf ext t (k, row)"
      using that inv by (auto simp: deleted_tables_def repo_inv_def)
    then show ?thesis using inj vs edges by (auto simp: record_wf_def)
  qed
  moreover have "cb_out e \<in> fst ` set (t_record ?t)" if "e \<in> set (t_created_by ?t)" for e
  proof -
    from that inv have "cb_out e \<in> fst ` set (t_record t)" "cb_out e \<noteq> ?k"
      by (auto simp: deleted_tables_def repo_inv_def)
    then show ?thesis by (force simp: deleted_tables_def)
  qed
  ultimately show ?thesis
    using inv by (auto simp: repo_inv_def deleted_tables_def distinct_map_filter)
qed

end
