(* ===== verification/Repository_Reads.thy ===== *)
theory Repository_Reads
  imports Store_Invariant
begin

text \<open>
  What the repository's reads return under the structural invariant, in any backend that keeps
  the laws of \<open>Backend\<close>: the lemmas are proved once in the locales, as rules of the weakest
  precondition, and the operations that start with a read build on them.
\<close>

section \<open>What an assembled record holds\<close>

definition row_key :: "version_row_read \<Rightarrow> string" where
  "row_key r = (case vr_id r of KeyString s \<Rightarrow> s | KeyOther s \<Rightarrow> s)"

definition chain_of :: "'x crates_scheme \<Rightarrow> version_row_read list \<Rightarrow> persisted_version list" where
  "chain_of ext rows = map (\<lambda>r. \<lparr>pv_id = the (uuid_parse_str ext (row_key r)), pv_record_id = vr_record_id r,
     pv_body = vr_body r, pv_created_at = vr_created_at r\<rparr>) rows"

definition attribution_of :: "'x crates_scheme \<Rightarrow> created_by_edge \<Rightarrow> persisted_attribution" where
  "attribution_of ext e =
     \<lparr>pa_creator = strip_thing_backticks (thing_to_string ext (cb_in e)), pa_at = cb_at e\<rparr>"

definition persisted_of :: "uuid \<Rightarrow> record_row_db \<Rightarrow> persisted_record" where
  "persisted_of i row =
     \<lparr>pr_id = i, pr_state = projr (from_literal (rr_state row)), pr_kind = rr_kind row,
      pr_content_hash = rr_content_hash row, pr_created_at = rr_created_at row, pr_updated_at = rr_updated_at row\<rparr>"

definition assembled_row ::
  "'x crates_scheme \<Rightarrow> uuid \<Rightarrow> record_row_db \<Rightarrow> version_row_read list \<Rightarrow> created_by_edge \<Rightarrow> persisted_row" where
  "assembled_row ext i row rows e =
     \<lparr>row_record = persisted_of i row,
      row_versions = chain_of ext rows, row_attribution = attribution_of ext e\<rparr>"

definition assembled ::
  "'x crates_scheme \<Rightarrow> uuid \<Rightarrow> record_row_db \<Rightarrow> version_row_read list \<Rightarrow> created_by_edge \<Rightarrow> record_with_attribution" where
  "assembled ext i row rows e =
     \<lparr>rwa_record = row_to_any (assembled_row ext i row rows e), rwa_attribution = attribution_of ext e\<rparr>"

text \<open>\<open>answer ext t i row rows e\<close>: what the three reads of \<open>assemble\<close> may return from the tables.\<close>

definition answer ::
  "'x crates_scheme \<Rightarrow> tables \<Rightarrow> uuid \<Rightarrow> record_row_db \<Rightarrow> version_row_read list \<Rightarrow> created_by_edge \<Rightarrow> bool" where
  "answer ext t i row rows e \<longleftrightarrow>
     map_of (t_record t) (uuid_to_string ext i) = Some row \<and>
     mset rows = mset (map read_version (versions_of i t)) \<and> sorted (map vr_created_at rows) \<and>
     e \<in> set (edges_to (uuid_to_string ext i) t)"

lemma repo_invD:
  assumes "repo_inv ext t" "map_of (t_record t) k = Some row"
  shows "record_wf ext t (k, row)" "state_hash_ok row"
proof -
  show "record_wf ext t (k, row)"
    using assms(1) map_of_SomeD [OF assms(2)] unfolding repo_inv_def by blast
  then show "state_hash_ok row" by (simp add: record_wf_def)
qed

lemma state_hash_ok_literal:
  assumes "state_hash_ok row"
  obtains st where "from_literal (rr_state row) = Inr st"
  using assms by (auto simp: state_hash_ok_def split: sum.splits)

context thing_text
begin

lemma strip_thing: 
  assumes "CHR ''`'' \<notin> set tb" "CHR ''`'' \<notin> set i"
  shows "strip_thing_backticks (thing_to_string ext (tb, i)) = tb @ '':'' @ i"
proof -
  have "filter (\<lambda>c. c \<noteq> CHR ''`'') tb = tb" "filter (\<lambda>c. c \<noteq> CHR ''`'') i = i"
    using assms by (auto simp: filter_id_conv)
  with thing_to_string_cases [OF assms] show ?thesis
    by (auto simp: strip_thing_backticks_def remove_char_def)
qed

lemma collect_chain:
  assumes "repo_inv ext t" "set rows \<subseteq> read_version ` set (t_version t)"
  shows "collect_results (map (version_row_into_persisted ext) rows) = Inr (chain_of ext rows)"
proof -
  have "version_row_into_persisted ext r =
      Inr \<lparr>pv_id = the (uuid_parse_str ext (row_key r)), pv_record_id = vr_record_id r,
        pv_body = vr_body r, pv_created_at = vr_created_at r\<rparr>" if "r \<in> set rows" for r
  proof -
    from assms(2) that obtain kv where "kv \<in> set (t_version t)" "r = read_version kv" by auto
    moreover from this(1) assms(1) obtain u where "fst kv = uuid_to_string ext u"
      by (auto simp: repo_inv_def)
    ultimately show ?thesis
      by (simp add: version_row_into_persisted_def read_version_def row_key_def uuid_parse_to_string)
  qed
  then show ?thesis by (auto simp: collect_results_eq_Inr chain_of_def)
qed

lemma assembled_row_valid:
  assumes "repo_inv ext t" "answer ext t i row rows e"
  shows "row_valid (assembled_row ext i row rows e)"
proof -
  note row = repo_invD [OF assms(1), of "uuid_to_string ext i" row]
  have "map_of (t_record t) (uuid_to_string ext i) = Some row"
    and rows: "mset rows = mset (map read_version (versions_of i t))"
    using assms(2) by (auto simp: answer_def)
  with row have "versions_of i t \<noteq> []" "state_hash_ok row"
    using uuid_to_string_inj by (auto simp: record_wf_def)
  moreover from rows this(1) have "rows \<noteq> []" by auto
  ultimately show ?thesis
    by (auto simp: row_valid_def assembled_row_def persisted_of_def chain_of_def state_hash_ok_def split: option.splits sum.splits)
qed

end

context backend
begin

lemma wp_fetch_versions:
  assumes "repo_inv ext (tables w)"
    and "\<And>rows w'. tables w' = tables w \<Longrightarrow> blobs w' = blobs w \<Longrightarrow>
      mset rows = mset (map read_version (versions_of i (tables w))) \<Longrightarrow> sorted (map vr_created_at rows) \<Longrightarrow>
      Q (Inr (chain_of ext rows)) w'"
    and "\<And>e w'. tables w' = tables w \<Longrightarrow> blobs w' = blobs w \<Longrightarrow> can_fail ops tables \<Longrightarrow> Q (Inl (Surreal e)) w'"
  shows "wp ops (fetch_versions ext i) Q w"
proof -
  have "collect_results (map (version_row_into_persisted ext) rows) = Inr (chain_of ext rows)"
    if "mset rows = mset (map read_version (versions_of i (tables w)))" for rows
  proof (rule collect_chain [OF assms(1)])
    from that have "set rows = set (map read_version (versions_of i (tables w)))"
      by (rule mset_eq_setD)
    then show "set rows \<subseteq> read_version ` set (t_version (tables w))"
      by (auto simp: versions_of_def)
  qed
  then show ?thesis
    using assms(2,3) by (auto simp: fetch_versions_def surreal_read_def intro!: wp_select_versions)
qed

lemma wp_fetch_attribution:
  assumes "\<And>e w'. tables w' = tables w \<Longrightarrow> blobs w' = blobs w \<Longrightarrow> e \<in> set (edges_to (uuid_to_string ext i) (tables w)) \<Longrightarrow>
      Q (Inr (Some (attribution_of ext e))) w'"
    and "\<And>w'. tables w' = tables w \<Longrightarrow> blobs w' = blobs w \<Longrightarrow> edges_to (uuid_to_string ext i) (tables w) = [] \<Longrightarrow> Q (Inr None) w'"
    and "\<And>e w'. tables w' = tables w \<Longrightarrow> blobs w' = blobs w \<Longrightarrow> can_fail ops tables \<Longrightarrow> Q (Inl (Surreal e)) w'"
  shows "wp ops (fetch_attribution ext i) Q w"
  using assms by (auto simp: fetch_attribution_def surreal_read_def attribution_of_def intro!: wp_select_created_by)

lemma wp_assemble:
  assumes inv: "repo_inv ext (tables w)"
    and none: "\<And>w'. tables w' = tables w \<Longrightarrow> blobs w' = blobs w \<Longrightarrow>
      map_of (t_record (tables w)) (uuid_to_string ext i) = None \<Longrightarrow> Q (Inr None) w'"
    and some: "\<And>row rows e w'. tables w' = tables w \<Longrightarrow> blobs w' = blobs w \<Longrightarrow>
      answer ext (tables w) i row rows e \<Longrightarrow> Q (Inr (Some (assembled ext i row rows e))) w'"
    and err: "\<And>e w'. tables w' = tables w \<Longrightarrow> blobs w' = blobs w \<Longrightarrow> can_fail ops tables \<Longrightarrow> Q (Inl (Surreal e)) w'"
  shows "wp ops (assemble ext i) Q w"
proof (cases "map_of (t_record (tables w)) (uuid_to_string ext i)")
  case None
  then show ?thesis
    using none err by (auto simp: assemble_def surreal_read_def intro!: wp_select_record)
next
  case (Some row)
  have edges: "edges_to (uuid_to_string ext i) (tables w) \<noteq> []"
    using repo_invD(1) [OF inv Some] by (auto simp: record_wf_def)
  obtain st where lit: "from_literal (rr_state row) = Inr st"
    using repo_invD(2) [OF inv Some] by (rule state_hash_ok_literal)
  have into: "record_row_into_persisted row i = Inr (persisted_of i row)"
    using lit by (simp add: record_row_into_persisted_def persisted_of_def)
  have any: "persisted_row_to_any (assembled_row ext i row rows e) = Inr (row_to_any (assembled_row ext i row rows e))"
    if "mset rows = mset (map read_version (versions_of i (tables w)))" "sorted (map vr_created_at rows)"
      "e \<in> set (edges_to (uuid_to_string ext i) (tables w))" for rows e
    using that Some by (intro persisted_row_to_any_valid assembled_row_valid [OF inv]) (simp add: answer_def)
  note some' = some [unfolded answer_def assembled_def assembled_row_def]
  show ?thesis
    unfolding assemble_def surreal_read_def
    by (auto simp: Some into inv err edges any [unfolded assembled_row_def]
        intro!: some' wp_select_record wp_fetch_versions wp_fetch_attribution)
qed

end

section \<open>Reads of an assembled record\<close>

definition stored_version :: "'x crates_scheme \<Rightarrow> string \<times> version_row_write \<Rightarrow> version" where
  "stored_version ext kv =
     \<lparr>ver_id = VersionId (the (uuid_parse_str ext (fst kv))), ver_body = body_from_persisted (vw_body (snd kv))\<rparr>"

lemma any_versions_chain:
  "map version_from_persisted (chain_of ext rows) =
     map (\<lambda>r. \<lparr>ver_id = VersionId (the (uuid_parse_str ext (row_key r))), ver_body = body_from_persisted (vr_body r)\<rparr>) rows"
  by (simp add: chain_of_def version_from_persisted_def)

lemma mset_chain:
  assumes "mset rows = mset (map read_version kvs)"
  shows "mset (map version_from_persisted (chain_of ext rows)) = mset (map (stored_version ext) kvs)"
proof -
  let ?f = "\<lambda>r. \<lparr>ver_id = VersionId (the (uuid_parse_str ext (row_key r))), ver_body = body_from_persisted (vr_body r)\<rparr>"
  have "image_mset ?f (mset rows) = image_mset ?f (mset (map read_version kvs))"
    using assms by simp
  then show ?thesis
    by (simp add: any_versions_chain image_mset.compositionality comp_def stored_version_def [abs_def] read_version_def row_key_def)
qed

context thing_text
begin

lemma assembled_reads:
  assumes "repo_inv ext t" "answer ext t i row rows e"
  shows "any_id (rwa_record (assembled ext i row rows e)) = i"
    and "as_literal (any_state (rwa_record (assembled ext i row rows e))) = rr_state row"
    and "any_kind (rwa_record (assembled ext i row rows e)) = kind_from_string (rr_kind row)"
    and "map_option hash_to_string (any_hash (rwa_record (assembled ext i row rows e))) = rr_content_hash row"
    and "any_versions (rwa_record (assembled ext i row rows e)) = map version_from_persisted (chain_of ext rows)"
    and "mset (any_versions (rwa_record (assembled ext i row rows e))) = mset (map (stored_version ext) (versions_of i t))"
    and "rwa_attribution (assembled ext i row rows e) = attribution_of ext e"
proof -
  note valid = row_to_any_reads [OF assembled_row_valid [OF assms]]
  have "map_of (t_record t) (uuid_to_string ext i) = Some row"
    using assms(2) by (simp add: answer_def)
  then have "state_hash_ok row" using assms(1) repo_invD by blast
  then obtain st where "from_literal (rr_state row) = Inr st" by (rule state_hash_ok_literal)
  then show "as_literal (any_state (rwa_record (assembled ext i row rows e))) = rr_state row"
    using valid(1) by (simp add: assembled_def assembled_row_def persisted_of_def from_literal_Inr)
  show "any_id (rwa_record (assembled ext i row rows e)) = i"
    using valid(2) by (simp add: assembled_def assembled_row_def persisted_of_def)
  show "any_kind (rwa_record (assembled ext i row rows e)) = kind_from_string (rr_kind row)"
    using valid(3) by (simp add: assembled_def assembled_row_def persisted_of_def)
  show "map_option hash_to_string (any_hash (rwa_record (assembled ext i row rows e))) = rr_content_hash row"
    using valid(4) by (simp add: assembled_def assembled_row_def persisted_of_def)
  show vs: "any_versions (rwa_record (assembled ext i row rows e)) = map version_from_persisted (chain_of ext rows)"
    using valid(5) by (simp add: assembled_def assembled_row_def)
  have "mset rows = mset (map read_version (versions_of i t))"
    using assms(2) by (simp add: answer_def)
  from mset_chain [OF this]
  show "mset (any_versions (rwa_record (assembled ext i row rows e))) = mset (map (stored_version ext) (versions_of i t))"
    by (simp only: vs)
  show "rwa_attribution (assembled ext i row rows e) = attribution_of ext e"
    by (simp add: assembled_def)
qed

end

end
