(* ===== verification/Repository_Writes.thy ===== *)
theory Repository_Writes
  imports Repository_Reads
begin

text \<open>
  The writes of the repository: for each operation a rule that gives every reply it can make and
  the tables it then leaves, with failed calls included, and the preservation of the structural
  invariant.
\<close>

section \<open>Rules for the writes\<close>

context backend
begin

lemma wp_query_checked:
  assumes "atomic_stmts q = Some ss"
    and "\<And>w'. run_stmts ss (tables w) = Some (tables w') \<Longrightarrow> blobs w' = blobs w \<Longrightarrow> Q (Inr ()) w'"
    and "\<And>e w'. can_fail ops tables \<Longrightarrow> run_stmts ss (tables w) = Some (tables w') \<Longrightarrow> blobs w' = blobs w \<Longrightarrow> Q (Inl (Surreal e)) w'"
    and "\<And>e w'. tables w' = tables w \<Longrightarrow> blobs w' = blobs w \<Longrightarrow> can_fail ops tables \<or> run_stmts ss (tables w) = None \<Longrightarrow> Q (Inl (Surreal e)) w'"
  shows "wp ops (query_checked q) Q w"
  using assms by (auto simp: query_checked_def intro!: wp_query)

lemma wp_write_record_atomic:
  assumes thing: "split_once CHR '':'' (pa_creator (row_attribution row)) = Some c"
    and "\<And>w'. write_free ext row (tables w) \<Longrightarrow> tables w' = written ext row c (tables w) \<Longrightarrow> blobs w' = blobs w \<Longrightarrow> Q (Inr ()) w'"
    and "\<And>e w'. can_fail ops tables \<Longrightarrow> write_free ext row (tables w) \<Longrightarrow> tables w' = written ext row c (tables w) \<Longrightarrow> blobs w' = blobs w \<Longrightarrow>
      Q (Inl (Surreal e)) w'"
    and "\<And>e w'. tables w' = tables w \<Longrightarrow> blobs w' = blobs w \<Longrightarrow> can_fail ops tables \<or> \<not> write_free ext row (tables w) \<Longrightarrow> Q (Inl (Surreal e)) w'"
  shows "wp ops (write_record_atomic ext row) Q w"
proof (cases c)
  case (Pair ct ci)
  show ?thesis
    unfolding write_record_atomic_def parse_thing_literal_def
    using thing Pair assms(2-)
    by (auto simp: Let_def run_write_record simp del: append.simps intro!: wp_query_checked split: if_splits)
qed

end

lemma row_of_record [simp]:
  "pr_id (row_record (record_to_persisted_row lit r c now)) = rec_id r"
  "pa_creator (row_attribution (record_to_persisted_row lit r c now)) = c"
  "row_versions (record_to_persisted_row lit r c now) = map (\<lambda>v. version_to_persisted v (rec_id r) now) (rec_versions r)"
  by (simp_all add: record_to_persisted_row_def)

lemma rewrite_trailing_facts:
  assumes "versions \<noteq> []"
  shows "fixed_from_parts i k hash (rewrite_trailing hash versions) = fossilize i k versions hash"
    and "rewrite_trailing hash versions \<noteq> []"
    and "ver_id (last (rewrite_trailing hash versions)) = ver_id (last versions)"
    and "ver_body (last (rewrite_trailing hash versions)) = fossilize_body hash (ver_body (last versions))"
proof -
  obtain v vs where vs: "versions = vs @ [v]"
    using assms by (cases versions rule: rev_cases) auto
  have same: "v\<lparr>ver_body := fossilize_body hash (ver_body v)\<rparr> = v" if "ver_body v = Inline b" for b
    using that by (cases v) simp
  show "fixed_from_parts i k hash (rewrite_trailing hash versions) = fossilize i k versions hash"
    "rewrite_trailing hash versions \<noteq> []"
    "ver_id (last (rewrite_trailing hash versions)) = ver_id (last versions)"
    "ver_body (last (rewrite_trailing hash versions)) = fossilize_body hash (ver_body (last versions))"
    using same unfolding vs
    by (cases vs; cases "ver_body v"; simp add: rewrite_trailing_def fossilize_def fixed_from_parts_def)+
qed

lemma run_transition_iff:
  "run_stmts [UpdateRecordFixed rid hash now, UpdateVersionBody vid b] t = Some t' \<longleftrightarrow>
     t' = fixed_tables rid hash now vid b t"
  "run_stmts [UpdateRecordFixed rid hash now, UpdateVersionBody vid b] t \<noteq> None"
  by (auto simp: run_transition simp del: run_stmts.simps)

lemma run_append_iff:
  "run_stmts [CreateVersion vid vrow, UpdateRecordUpdatedAt rid now] t = Some t' \<longleftrightarrow>
     vid \<notin> fst ` set (t_version t) \<and> t' = appended_tables vid vrow rid now t"
  "run_stmts [CreateVersion vid vrow, UpdateRecordUpdatedAt rid now] t = None \<longleftrightarrow> vid \<in> fst ` set (t_version t)"
  by (auto simp: run_append simp del: run_stmts.simps)

lemma run_delete_iff:
  "run_stmts [DeleteCreatedByOut rid, DeleteSnapshotOfIn rid, DeleteSnapshotOfOut rid, DeleteVersionsOf i,
     DeleteRecord rid] t = Some t' \<longleftrightarrow> t' = deleted_tables rid i t"
  "run_stmts [DeleteCreatedByOut rid, DeleteSnapshotOfIn rid, DeleteSnapshotOfOut rid, DeleteVersionsOf i,
     DeleteRecord rid] t \<noteq> None"
  by (auto simp: run_delete simp del: run_stmts.simps)

context backend
begin

lemma wp_transaction:
  assumes "\<And>w'. run_stmts ss (tables w) = Some (tables w') \<Longrightarrow> blobs w' = blobs w \<Longrightarrow> Q (Inr ()) w'"
    and "\<And>e w'. can_fail ops tables \<Longrightarrow> run_stmts ss (tables w) = Some (tables w') \<Longrightarrow> blobs w' = blobs w \<Longrightarrow> Q (Inl (Surreal e)) w'"
    and "\<And>e w'. tables w' = tables w \<Longrightarrow> blobs w' = blobs w \<Longrightarrow> can_fail ops tables \<or> run_stmts ss (tables w) = None \<Longrightarrow> Q (Inl (Surreal e)) w'"
  shows "wp ops (query_checked (Transaction ss)) Q w"
  by (rule wp_query_checked) (use assms in auto)

lemma wp_statement:
  assumes "\<And>w'. run_stmt s (tables w) = Some (tables w') \<Longrightarrow> blobs w' = blobs w \<Longrightarrow> Q (Inr ()) w'"
    and "\<And>e w'. can_fail ops tables \<Longrightarrow> run_stmt s (tables w) = Some (tables w') \<Longrightarrow> blobs w' = blobs w \<Longrightarrow> Q (Inl (Surreal e)) w'"
    and "\<And>e w'. tables w' = tables w \<Longrightarrow> blobs w' = blobs w \<Longrightarrow> can_fail ops tables \<or> run_stmt s (tables w) = None \<Longrightarrow> Q (Inl (Surreal e)) w'"
  shows "wp ops (query_checked (Statements [s])) Q w"
  by (rule wp_query_checked) (use assms in \<open>auto split: option.splits\<close>)

lemma wp_save:
  assumes lit: "LITERAL lit \<noteq> PSnapshot" and thing: "split_once CHR '':'' creator = Some c"
    and "\<And>w'. tables w' = tables w \<Longrightarrow> blobs w' = blobs w \<Longrightarrow>
      map_of (t_record (tables w)) (uuid_to_string ext (rec_id r)) \<noteq> None \<Longrightarrow> Q (Inl (DbAlreadyExists (rec_id r))) w'"
    and "\<And>now w'. map_of (t_record (tables w)) (uuid_to_string ext (rec_id r)) = None \<Longrightarrow>
      write_free ext (record_to_persisted_row lit r creator now) (tables w) \<Longrightarrow>
      tables w' = written ext (record_to_persisted_row lit r creator now) c (tables w) \<Longrightarrow> blobs w' = blobs w \<Longrightarrow>
      Q (Inr ()) w'"
    and "\<And>e now w'. can_fail ops tables \<Longrightarrow> map_of (t_record (tables w)) (uuid_to_string ext (rec_id r)) = None \<Longrightarrow>
      write_free ext (record_to_persisted_row lit r creator now) (tables w) \<Longrightarrow>
      tables w' = written ext (record_to_persisted_row lit r creator now) c (tables w) \<Longrightarrow> blobs w' = blobs w \<Longrightarrow>
      Q (Inl (Surreal e)) w'"
    and "\<And>e w'. tables w' = tables w \<Longrightarrow> blobs w' = blobs w \<Longrightarrow> can_fail ops tables \<Longrightarrow> Q (Inl (Surreal e)) w'"
    and "\<And>e now w'. map_of (t_record (tables w)) (uuid_to_string ext (rec_id r)) = None \<Longrightarrow>
      tables w' = tables w \<Longrightarrow> blobs w' = blobs w \<Longrightarrow> \<not> write_free ext (record_to_persisted_row lit r creator now) (tables w) \<Longrightarrow> Q (Inl (Surreal e)) w'"
  shows "wp ops (save ext lit r creator) Q w"
  using assms
  by (auto simp: save_def surreal_read_def Let_def intro!: wp_utc_now wp_select_record wp_write_record_atomic [where c = c])

lemma wp_add_version:
  assumes "\<And>vid now w1 w2 w'. do_now_v7 ops w = (vid, w1) \<Longrightarrow> do_utc_now ops w1 = (now, w2) \<Longrightarrow>
      uuid_to_string ext vid \<notin> fst ` set (t_version (tables w)) \<Longrightarrow>
      tables w' = appended_tables (uuid_to_string ext vid)
        \<lparr>vw_record_id = i, vw_body = body_to_persisted b, vw_created_at = now\<rparr> (uuid_to_string ext i) now (tables w) \<Longrightarrow>
      blobs w' = blobs w \<Longrightarrow> Q (Inr \<lparr>ver_id = VersionId vid, ver_body = b\<rparr>) w'"
    and "\<And>e vid now w'. can_fail ops tables \<Longrightarrow> uuid_to_string ext vid \<notin> fst ` set (t_version (tables w)) \<Longrightarrow>
        tables w' = appended_tables (uuid_to_string ext vid)
          \<lparr>vw_record_id = i, vw_body = body_to_persisted b, vw_created_at = now\<rparr> (uuid_to_string ext i) now (tables w) \<Longrightarrow>
      blobs w' = blobs w \<Longrightarrow> Q (Inl (Surreal e)) w'"
    and "\<And>e w'. tables w' = tables w \<Longrightarrow> blobs w' = blobs w \<Longrightarrow> can_fail ops tables \<or>
      uuid_to_string ext (fst (do_now_v7 ops w)) \<in> fst ` set (t_version (tables w)) \<Longrightarrow> Q (Inl (Surreal e)) w'"
  shows "wp ops (add_version ext i b) Q w"
  using assms
  by (auto simp: add_version_def run_append_iff simp del: run_stmts.simps
      intro!: wp_now_v7 wp_utc_now wp_transaction)

lemma wp_transition_versions:
  assumes "versions \<noteq> []"
    and "\<And>now w'. tables w' = fixed_tables (uuid_to_string ext i) (hash_to_string hash) now
        (uuid_to_string ext (version_uuid (ver_id (last versions))))
        (body_to_persisted (fossilize_body hash (ver_body (last versions)))) (tables w) \<Longrightarrow>
      blobs w' = blobs w \<Longrightarrow> Q (Inr (fossilize i k versions hash)) w'"
    and "\<And>e now w'. can_fail ops tables \<Longrightarrow> tables w' = fixed_tables (uuid_to_string ext i) (hash_to_string hash) now
        (uuid_to_string ext (version_uuid (ver_id (last versions))))
        (body_to_persisted (fossilize_body hash (ver_body (last versions)))) (tables w) \<Longrightarrow>
      blobs w' = blobs w \<Longrightarrow> Q (Inl (Surreal e)) w'"
    and "\<And>e w'. tables w' = tables w \<Longrightarrow> blobs w' = blobs w \<Longrightarrow> can_fail ops tables \<Longrightarrow> Q (Inl (Surreal e)) w'"
  shows "wp ops (transition_versions ext i hash k versions) Q w"
proof -
  show ?thesis
    using assms rewrite_trailing_facts [OF assms(1)]
    by (auto simp: transition_versions_def Let_def run_transition_iff simp del: run_stmts.simps
        intro!: wp_utc_now wp_transaction)
qed

lemma wp_delete:
  assumes "\<And>w'. tables w' = tables w \<Longrightarrow> blobs w' = blobs w \<Longrightarrow>
      map_of (t_record (tables w)) (uuid_to_string ext i) = None \<Longrightarrow> Q (Inr False) w'"
    and "\<And>w'. tables w' = deleted_tables (uuid_to_string ext i) i (tables w) \<Longrightarrow> blobs w' = blobs w \<Longrightarrow>
      map_of (t_record (tables w)) (uuid_to_string ext i) \<noteq> None \<Longrightarrow> Q (Inr True) w'"
    and "\<And>e w'. can_fail ops tables \<Longrightarrow> tables w' = deleted_tables (uuid_to_string ext i) i (tables w) \<Longrightarrow> blobs w' = blobs w \<Longrightarrow>
      map_of (t_record (tables w)) (uuid_to_string ext i) \<noteq> None \<Longrightarrow> Q (Inl (Surreal e)) w'"
    and "\<And>e w'. tables w' = tables w \<Longrightarrow> blobs w' = blobs w \<Longrightarrow> can_fail ops tables \<Longrightarrow> Q (Inl (Surreal e)) w'"
  shows "wp ops (delete ext i) Q w"
  using assms
  by (auto simp: delete_def surreal_read_def Let_def run_delete_iff simp del: run_stmts.simps
      intro!: wp_select_record wp_transaction)

end

section \<open>Snapshots, transitions, listings\<close>

definition snapshot_row ::
  "snapshot orecord \<Rightarrow> string \<Rightarrow> datetime \<Rightarrow> uuid \<Rightarrow> uuid list \<Rightarrow> persisted_row" where
  "snapshot_row r creator now n us =
     (let row = record_to_persisted_row literal_snapshot r creator now in
      row\<lparr>row_record := (row_record row)\<lparr>pr_id := n\<rparr>,
          row_versions := map2 (\<lambda>vid v. v\<lparr>pv_id := vid, pv_record_id := n\<rparr>) us (row_versions row)\<rparr>)"

definition linked :: "string \<Rightarrow> string \<Rightarrow> datetime \<Rightarrow> tables \<Rightarrow> tables" where
  "linked new src a t =
     t\<lparr>t_snapshot_of := t_snapshot_of t @ [\<lparr>so_in = new, so_out = src, so_at = a\<rparr>]\<rparr>"

lemma run_relate_iff:
  "run_stmt (RelateSnapshotOf new src a) t = Some t' \<longleftrightarrow> t' = linked new src a t"
  "run_stmt (RelateSnapshotOf new src a) t \<noteq> None"
  by (auto simp: linked_def)

lemma snapshot_row_attribution [simp]:
  "row_attribution (snapshot_row r creator now n us) = \<lparr>pa_creator = creator, pa_at = now\<rparr>"
  by (simp add: snapshot_row_def Let_def record_to_persisted_row_def)

text \<open>The ids that \<open>n\<close> draws in a row give.\<close>

primrec drawn_ids :: "'w world_ops \<Rightarrow> nat \<Rightarrow> 'w \<Rightarrow> uuid list" where
  "drawn_ids ops 0 w = []"
| "drawn_ids ops (Suc n) w = (case do_now_v7 ops w of (u, w') \<Rightarrow> u # drawn_ids ops n w')"

lemma length_drawn_ids [simp]: "length (drawn_ids ops n w) = n"
  by (induction n arbitrary: w) (simp_all split: prod.splits)

context backend
begin

lemma wp_remint_versions:
  assumes "\<And>w'. tables w' = tables w \<Longrightarrow> blobs w' = blobs w \<Longrightarrow>
      Q (map2 (\<lambda>vid v. v\<lparr>pv_id := vid, pv_record_id := n\<rparr>) (drawn_ids ops (length vs) w) vs) w'"
  shows "wp ops (remint_versions n vs) Q w"
  using assms
proof (induction vs arbitrary: w Q)
  case Nil
  then show ?case by simp
next
  case (Cons v vs)
  show ?case
    unfolding remint_versions.simps
  proof (rule wp_now_v7, simp only: wp_bind, rule Cons.IH)
    fix vid w1 w2
    assume "do_now_v7 ops w = (vid, w1)" "tables w1 = tables w" "blobs w1 = blobs w"
      "tables w2 = tables w1" "blobs w2 = blobs w1"
    then show "wp ops (Ret (v\<lparr>pv_id := vid, pv_record_id := n\<rparr> #
        map2 (\<lambda>vid v. v\<lparr>pv_id := vid, pv_record_id := n\<rparr>) (drawn_ids ops (length vs) w1) vs)) Q w2"
      using Cons.prems [of w2] by simp
  qed
qed

lemma wp_save_snapshot:
  assumes thing: "split_once CHR '':'' creator = Some c"
    and draw: "do_now_v7 ops w = (n, w1)" "do_utc_now ops w1 = (now, w2)" "drawn_ids ops (length (rec_versions r)) w2 = us"
    and ok: "\<And>w'. write_free ext (snapshot_row r creator now n us) (tables w) \<Longrightarrow>
      tables w' = linked (uuid_to_string ext n) (uuid_to_string ext (rec_id r)) now
        (written ext (snapshot_row r creator now n us) c (tables w)) \<Longrightarrow>
      blobs w' = blobs w \<Longrightarrow> Q (Inr n) w'"
    and lost: "\<And>e w'. can_fail ops tables \<Longrightarrow> write_free ext (snapshot_row r creator now n us) (tables w) \<Longrightarrow>
      tables w' = linked (uuid_to_string ext n) (uuid_to_string ext (rec_id r)) now
        (written ext (snapshot_row r creator now n us) c (tables w)) \<Longrightarrow>
      blobs w' = blobs w \<Longrightarrow> Q (Inl (Surreal e)) w'"
    and unlinked: "\<And>e w'. can_fail ops tables \<Longrightarrow> write_free ext (snapshot_row r creator now n us) (tables w) \<Longrightarrow>
      tables w' = written ext (snapshot_row r creator now n us) c (tables w) \<Longrightarrow>
      blobs w' = blobs w \<Longrightarrow> Q (Inl (Surreal e)) w'"
    and err: "\<And>e w'. tables w' = tables w \<Longrightarrow> blobs w' = blobs w \<Longrightarrow> can_fail ops tables \<Longrightarrow> Q (Inl (Surreal e)) w'"
    and taken: "\<And>e w'. tables w' = tables w \<Longrightarrow> blobs w' = blobs w \<Longrightarrow>
      \<not> write_free ext (snapshot_row r creator now n us) (tables w) \<Longrightarrow> Q (Inl (Surreal e)) w'"
  shows "wp ops (save_snapshot ext r creator) Q w"
proof -
  have w2: "tables w2 = tables w" "blobs w2 = blobs w"
    using draw now_v7_tables utc_now_tables db_keeps_blobs(1,2) by metis+
  have len: "length (row_versions (record_to_persisted_row literal_snapshot r creator now)) = length (rec_versions r)"
    by (simp add: record_to_persisted_row_def Let_def)
  show ?thesis
    unfolding save_snapshot_def wp_calls draw(1) prod.case draw(2) Let_def wp_bind
  proof (rule wp_remint_versions, unfold len draw(3) snapshot_row_def [unfolded Let_def, symmetric])
    fix w3
    assume w3: "tables w3 = tables w2" "blobs w3 = blobs w2"
    let ?row = "snapshot_row r creator now n us"
    show "wp ops (prog_try (write_record_atomic ext ?row)
        (\<lambda>_. prog_try (query_checked (Statements [RelateSnapshotOf (uuid_to_string ext n) (uuid_to_string ext (rec_id r))
           (pa_at (row_attribution ?row))])) (\<lambda>_. Ret (Inr n)))) Q w3"
      using w2 w3 ok lost unlinked err taken thing
      by (auto simp: run_relate_iff simp del: run_stmt.simps intro!: wp_write_record_atomic [where c = c] wp_statement)
  qed
qed

lemma any_fixed_iff: "any_state a = PFixed \<longleftrightarrow> (\<exists>f. a = AnyFixed f)"
  by (cases a) auto

lemma wp_transition_to_fixed:
  assumes inv: "repo_inv ext (tables w)"
    and none: "\<And>w'. tables w' = tables w \<Longrightarrow> blobs w' = blobs w \<Longrightarrow>
      map_of (t_record (tables w)) (uuid_to_string ext i) = None \<Longrightarrow> Q (Inl (EmptyVersionChain i)) w'"
    and fixed: "\<And>row rows e w'. tables w' = tables w \<Longrightarrow> blobs w' = blobs w \<Longrightarrow>
      answer ext (tables w) i row rows e \<Longrightarrow> any_state (rwa_record (assembled ext i row rows e)) = PFixed \<Longrightarrow>
      Q (Inl (StateMismatch ''fixed'' ''mutable | snapshot'')) w'"
    and ok: "\<And>row rows e a now w'. answer ext (tables w) i row rows e \<Longrightarrow>
      a = rwa_record (assembled ext i row rows e) \<Longrightarrow> any_state a \<noteq> PFixed \<Longrightarrow>
      tables w' = fixed_tables (uuid_to_string ext i) (hash_to_string hash) now
        (uuid_to_string ext (version_uuid (ver_id (last (any_versions a)))))
        (body_to_persisted (fossilize_body hash (ver_body (last (any_versions a))))) (tables w) \<Longrightarrow>
      blobs w' = blobs w \<Longrightarrow> Q (Inr (fossilize i (any_kind a) (any_versions a) hash)) w'"
    and lost: "\<And>row rows e a now err w'. can_fail ops tables \<Longrightarrow> answer ext (tables w) i row rows e \<Longrightarrow>
      a = rwa_record (assembled ext i row rows e) \<Longrightarrow> any_state a \<noteq> PFixed \<Longrightarrow>
      tables w' = fixed_tables (uuid_to_string ext i) (hash_to_string hash) now
        (uuid_to_string ext (version_uuid (ver_id (last (any_versions a)))))
        (body_to_persisted (fossilize_body hash (ver_body (last (any_versions a))))) (tables w) \<Longrightarrow>
      blobs w' = blobs w \<Longrightarrow> Q (Inl (Surreal err)) w'"
    and err: "\<And>e w'. tables w' = tables w \<Longrightarrow> blobs w' = blobs w \<Longrightarrow> can_fail ops tables \<Longrightarrow> Q (Inl (Surreal e)) w'"
  shows "wp ops (transition_to_fixed ext i hash) Q w"
proof -
  have go: "wp ops (case rwa_record (assembled ext i row rows e) of
            AnyFixed _ \<Rightarrow> Ret (Inl (StateMismatch ''fixed'' ''mutable | snapshot''))
          | AnyMutable r \<Rightarrow> transition_versions ext i hash (rec_kind r) (rec_versions r)
          | AnySnapshot r \<Rightarrow> transition_versions ext i hash (rec_kind r) (rec_versions r)) Q w1"
    if w1: "tables w1 = tables w" "blobs w1 = blobs w" and ans: "answer ext (tables w) i row rows e" for w1 row rows e
  proof -
    let ?a = "rwa_record (assembled ext i row rows e)"
    have ne: "any_versions ?a \<noteq> []"
      using assembled_row_valid [OF inv ans] assembled_reads(5) [OF inv ans]
      by (simp add: row_valid_def assembled_row_def)
    have "wp ops (transition_versions ext i hash (any_kind ?a) (any_versions ?a)) Q w1" if "any_state ?a \<noteq> PFixed"
      using ne that w1 ok [OF ans refl that] lost [OF _ ans refl that] err
      by (auto intro!: wp_transition_versions)
    then show ?thesis using fixed [OF w1 ans] by (cases ?a) simp_all
  qed
  show ?thesis
    unfolding transition_to_fixed_def
    using none err go by (auto intro!: wp_assemble [OF inv]) 
qed

end

section \<open>Listings and users\<close>

lemma mset_map_reorder:
  assumes "mset ys = mset (map f xs)"
  obtains zs where "ys = map f zs" "mset zs = mset xs"
proof -
  have "\<exists>zs. ys = map f zs \<and> mset zs = mset xs"
    using assms
  proof (induction ys arbitrary: xs)
    case Nil
    then show ?case by simp
  next
    case (Cons y ys)
    have "y \<in># mset (map f xs)" using Cons.prems by (metis list.set_intros(1) set_mset_mset)
    then obtain x where x: "x \<in> set xs" "y = f x" by auto
    then have "mset xs = add_mset x (mset (remove1 x xs))" by simp
    then have "add_mset y (mset ys) = add_mset y (mset (map f (remove1 x xs)))"
      using Cons.prems x by (metis image_mset_add_mset mset.simps(2) mset_map)
    then have "mset ys = mset (map f (remove1 x xs))" by simp
    from Cons.IH [OF this] obtain zs where "ys = map f zs" "mset zs = mset (remove1 x xs)" by blast
    with x show ?case by (intro exI [of _ "x # zs"]) simp
  qed
  then show ?thesis using that by blast
qed

text \<open>\<open>listed ext t e rwa\<close>: the record an edge points to, as \<open>assemble\<close> reads it.\<close>

definition listed :: "'x crates_scheme \<Rightarrow> tables \<Rightarrow> created_by_edge \<Rightarrow> record_with_attribution \<Rightarrow> bool" where
  "listed ext t e rwa \<longleftrightarrow>
     (\<exists>i row rows e'. cb_out e = uuid_to_string ext i \<and> answer ext t i row rows e' \<and> rwa = assembled ext i row rows e')"

context backend
begin

lemma thing_uuid_record: "thing_uuid ext (thing_to_string ext (''record'', uuid_to_string ext u)) = Some u"
proof -
  have "strip_thing_backticks (thing_to_string ext (''record'', uuid_to_string ext u)) = ''record:'' @ uuid_to_string ext u"
    using strip_thing [of "''record''" "uuid_to_string ext u"] uuid_text_plain by simp
  then show ?thesis by (simp add: thing_uuid_def uuid_parse_to_string)
qed

lemma edge_uuid:
  assumes "repo_inv ext t" "e \<in> set (t_created_by t)"
  obtains u row where "cb_out e = uuid_to_string ext u" "map_of (t_record t) (uuid_to_string ext u) = Some row"
proof -
  from assms obtain kr where kr: "kr \<in> set (t_record t)" "cb_out e = fst kr"
    by (auto simp: repo_inv_def)
  moreover from kr(1) assms obtain u where "fst kr = uuid_to_string ext u"
    by (auto simp: repo_inv_def record_wf_def)
  moreover have "map_of (t_record t) (fst kr) = Some (snd kr)"
    using kr(1) assms(1) by (auto simp: repo_inv_def)
  ultimately show ?thesis using that by metis
qed

lemma wp_assemble_each:
  assumes inv: "repo_inv ext (tables w)"
    and "set es \<subseteq> set (t_created_by (tables w))"
    and "\<And>found w'. list_all2 (listed ext (tables w)) es found \<Longrightarrow> tables w' = tables w \<Longrightarrow> blobs w' = blobs w \<Longrightarrow>
      Q (Inr (out @ found)) w'"
    and "\<And>e w'. tables w' = tables w \<Longrightarrow> blobs w' = blobs w \<Longrightarrow> can_fail ops tables \<Longrightarrow> Q (Inl (Surreal e)) w'"
  shows "wp ops (assemble_each ext
     (List.map_filter (\<lambda>e. thing_uuid ext (thing_to_string ext (''record'', cb_out e))) es) out) Q w"
  using assms
proof (induction es arbitrary: w out Q)
  case Nil
  then show ?case by (simp add: map_filter_simps)
next
  case (Cons e es)
  obtain u row where u: "cb_out e = uuid_to_string ext u" "map_of (t_record (tables w)) (uuid_to_string ext u) = Some row"
    using edge_uuid Cons.prems(1,2) by (metis list.set_intros(1) subset_iff)
  have rest: "wp ops (assemble_each ext
      (List.map_filter (\<lambda>e. thing_uuid ext (thing_to_string ext (''record'', cb_out e))) es)
      (out @ [assembled ext u row' rows e'])) Q w1"
    if w1: "tables w1 = tables w" "blobs w1 = blobs w" and ans: "answer ext (tables w) u row' rows e'" for w1 row' rows e'
  proof (rule Cons.IH)
    fix found w2
    have "listed ext (tables w) e (assembled ext u row' rows e')"
      using u(1) ans unfolding listed_def by blast
    moreover assume "list_all2 (listed ext (tables w1)) es found" "tables w2 = tables w1" "blobs w2 = blobs w1"
    ultimately show "Q (Inr ((out @ [assembled ext u row' rows e']) @ found)) w2"
      using Cons.prems(3) [of "assembled ext u row' rows e' # found" w2] w1 by simp
  qed (use Cons.prems w1 in auto)
  show ?case
    using u rest Cons.prems(4)
    by (auto simp: map_filter_simps thing_uuid_record intro!: wp_assemble [OF Cons.prems(1)])
qed

lemma wp_list_by_creator:
  assumes inv: "repo_inv ext (tables w)" and thing: "split_once CHR '':'' creator = Some c"
    and ok: "\<And>es found w'. mset es = mset (edges_from c (tables w)) \<Longrightarrow> sorted (map cb_at es) \<Longrightarrow>
      list_all2 (listed ext (tables w)) es found \<Longrightarrow> tables w' = tables w \<Longrightarrow> blobs w' = blobs w \<Longrightarrow> Q (Inr found) w'"
    and err: "\<And>e w'. tables w' = tables w \<Longrightarrow> blobs w' = blobs w \<Longrightarrow> can_fail ops tables \<Longrightarrow> Q (Inl (Surreal e)) w'"
  shows "wp ops (list_by_creator ext creator) Q w"
proof (cases c)
  case (Pair ct ci)
  let ?row = "\<lambda>e. \<lparr>lr_record_thing = thing_to_string ext (''record'', cb_out e), lr_at = cb_at e\<rparr>"
  have each: "wp ops (assemble_each ext (List.map_filter (\<lambda>r. thing_uuid ext (lr_record_thing r)) rows) []) Q w1"
    if w1: "tables w1 = tables w" "blobs w1 = blobs w"
      and rows: "mset rows = mset (map ?row (edges_from c (tables w)))" "sorted (map lr_at rows)" for rows w1
  proof -
    obtain es where es: "rows = map ?row es" "mset es = mset (edges_from c (tables w))"
      by (rule mset_map_reorder [OF rows(1)])
    have "set es = set (edges_from c (tables w))"
      using es(2) by (rule mset_eq_setD)
    then have sub: "set es \<subseteq> set (t_created_by (tables w1))"
      using w1 by (auto simp: edges_from_def)
    have things: "List.map_filter (\<lambda>r. thing_uuid ext (lr_record_thing r)) rows =
        List.map_filter (\<lambda>e. thing_uuid ext (thing_to_string ext (''record'', cb_out e))) es"
      by (simp add: es(1) List.map_filter_def filter_map comp_def)
    show ?thesis
      unfolding things
    proof (rule wp_assemble_each)
      show "repo_inv ext (tables w1)" using inv w1 by simp
      show "set es \<subseteq> set (t_created_by (tables w1))" by (rule sub)
      fix found w2
      assume found: "list_all2 (listed ext (tables w1)) es found" "tables w2 = tables w1" "blobs w2 = blobs w1"
      have "sorted (map cb_at es)" using rows(2) by (simp add: es(1) comp_def)
      from ok [OF es(2) this] found w1 show "Q (Inr ([] @ found)) w2" by simp
    next
      fix e w2
      assume "tables w2 = tables w1" "blobs w2 = blobs w1" "can_fail ops tables"
      then show "Q (Inl (Surreal e)) w2" using err w1 by simp
    qed
  qed
  have "wp ops (prog_try (surreal_read (SelectCreatedIn ct ci Ret)) (\<lambda>rows.
      assemble_each ext (List.map_filter (\<lambda>r. thing_uuid ext (lr_record_thing r)) rows) [])) Q w"
    unfolding surreal_read_def wp_prog_try wp_prog_map_err
    by (rule wp_select_created_in) (use each err Pair in simp_all)
  then show ?thesis
    using thing Pair by (simp add: list_by_creator_def parse_thing_literal_def)
qed

lemma wp_find_or_user:
  assumes "\<And>w'. tables w' = tables w \<Longrightarrow> blobs w' = blobs w \<Longrightarrow> or_users_of s (tables w) = [] \<Longrightarrow> Q (Inr None) w'"
    and "\<And>r w'. tables w' = tables w \<Longrightarrow> blobs w' = blobs w \<Longrightarrow> r \<in> set (or_users_of s (tables w)) \<Longrightarrow>
      Q (map_ok Some (into_or_user ext (read_or_user r))) w'"
    and "\<And>e w'. tables w' = tables w \<Longrightarrow> blobs w' = blobs w \<Longrightarrow> can_fail ops tables \<Longrightarrow> Q (Inl (Surreal e)) w'"
  shows "wp ops (find_or_user_by_sub ext s) Q w"
proof -
  have t: "transpose_result (Some x) = map_ok Some x" for x :: "db_error + or_user"
    by (cases x) simp_all
  show ?thesis
    unfolding find_or_user_by_sub_def surreal_read_def
    using assms by (auto simp: t intro!: wp_select_or_user)
qed

abbreviation reselect :: "string \<Rightarrow> (db_error + or_user) prog" where
  "reselect s \<equiv> prog_try (find_or_user_by_sub ext s) (\<lambda>again.
     Ret (ok_or (MalformedHash (reselect_missed_message ext s)) again))"

text \<open>The create of a user that was not there, with the second look when the create is rejected.\<close>

lemma wp_create_or_user:
  assumes w1: "tables w1 = tables w" "blobs w1 = blobs w" "or_users_of s (tables w) = []"
    and created: "\<And>w'. run_stmt (CreateOrUser (uuid_to_string ext u) s n) (tables w) = Some (tables w') \<Longrightarrow>
      blobs w' = blobs w \<Longrightarrow> Q (Inr \<lparr>or_id = u, or_auth0_sub = s, or_created_at = n\<rparr>) w'"
    and lost: "\<And>e w'. can_fail ops tables \<Longrightarrow>
      run_stmt (CreateOrUser (uuid_to_string ext u) s n) (tables w) = Some (tables w') \<Longrightarrow> blobs w' = blobs w \<Longrightarrow>
      Q (Inl (Surreal e)) w'"
    and missed: "\<And>w'. tables w' = tables w \<Longrightarrow> blobs w' = blobs w \<Longrightarrow>
      can_fail ops tables \<or> run_stmt (CreateOrUser (uuid_to_string ext u) s n) (tables w) = None \<Longrightarrow>
      Q (Inl (MalformedHash (reselect_missed_message ext s))) w'"
    and err: "\<And>e w'. tables w' = tables w \<Longrightarrow> blobs w' = blobs w \<Longrightarrow> can_fail ops tables \<Longrightarrow> Q (Inl (Surreal e)) w'"
  shows "wp ops (Query (Statements [CreateOrUser (uuid_to_string ext u) s n]) Ret) (\<lambda>r w'.
      case map_err Surreal r of Inl e \<Rightarrow> Q (Inl e) w'
      | Inr x \<Rightarrow> wp ops (case x of Inl _ \<Rightarrow> reselect s | Inr _ \<Rightarrow> Ret (Inr \<lparr>or_id = u, or_auth0_sub = s, or_created_at = n\<rparr>)) Q w') w1"
proof (rule wp_query, simp, goal_cases)
  case (1 w2)
  then show ?case using created w1 by (simp del: run_stmt.simps split: option.splits)
next
  case (2 e w2)
  then have "can_fail ops tables \<or> run_stmt (CreateOrUser (uuid_to_string ext u) s n) (tables w) = None"
    using w1 by (auto simp del: run_stmt.simps split: option.splits)
  then have "wp ops (reselect s) Q w2"
    unfolding wp_prog_try
    by (intro wp_find_or_user) (use 2 w1 missed err in \<open>simp_all del: run_stmt.simps\<close>)
  then show ?case by simp
next
  case (3 e w2)
  then show ?case using lost err w1 by (auto simp del: run_stmt.simps split: option.splits)
qed

lemma wp_upsert_or_user:
  assumes found: "\<And>r w'. tables w' = tables w \<Longrightarrow> blobs w' = blobs w \<Longrightarrow> r \<in> set (or_users_of s (tables w)) \<Longrightarrow>
      Q (into_or_user ext (read_or_user r)) w'"
    and created: "\<And>u now w'. or_users_of s (tables w) = [] \<Longrightarrow>
      run_stmt (CreateOrUser (uuid_to_string ext u) s now) (tables w) = Some (tables w') \<Longrightarrow> blobs w' = blobs w \<Longrightarrow>
      Q (Inr \<lparr>or_id = u, or_auth0_sub = s, or_created_at = now\<rparr>) w'"
    and lost: "\<And>e u now w'. can_fail ops tables \<Longrightarrow> or_users_of s (tables w) = [] \<Longrightarrow>
      run_stmt (CreateOrUser (uuid_to_string ext u) s now) (tables w) = Some (tables w') \<Longrightarrow> blobs w' = blobs w \<Longrightarrow>
      Q (Inl (Surreal e)) w'"
    and missed: "\<And>w'. tables w' = tables w \<Longrightarrow> blobs w' = blobs w \<Longrightarrow> or_users_of s (tables w) = [] \<Longrightarrow>
      can_fail ops tables \<or> (\<exists>now. run_stmt (CreateOrUser (uuid_to_string ext
        (fst (do_now_v7 ops (snd (run ops (find_or_user_by_sub ext s) w))))) s now) (tables w) = None) \<Longrightarrow>
      Q (Inl (MalformedHash (reselect_missed_message ext s))) w'"
    and err: "\<And>e w'. tables w' = tables w \<Longrightarrow> blobs w' = blobs w \<Longrightarrow> can_fail ops tables \<Longrightarrow> Q (Inl (Surreal e)) w'"
  shows "wp ops (upsert_or_user ext s) Q w"
proof -
  let ?u = "fst (do_now_v7 ops (snd (run ops (find_or_user_by_sub ext s) w)))"
  have find: "wp ops (find_or_user_by_sub ext s) (\<lambda>r w'. tables w' = tables w \<and> blobs w' = blobs w \<and>
      (r = Inr None \<and> or_users_of s (tables w) = [] \<or>
       (\<exists>q \<in> set (or_users_of s (tables w)). r = map_ok Some (into_or_user ext (read_or_user q))) \<or>
       (\<exists>e. can_fail ops tables \<and> r = Inl (Surreal e)))) w"
    by (rule wp_find_or_user) auto
  show ?thesis
    unfolding upsert_or_user_def surreal_read_def wp_prog_try
  proof (rule wp_mono [OF wp_exact [OF find]], goal_cases)
    case (1 r w1)
    then have w1: "tables w1 = tables w" "blobs w1 = blobs w" "w1 = snd (run ops (find_or_user_by_sub ext s) w)"
      by simp_all
    consider "r = Inr None" "or_users_of s (tables w) = []"
      | q where "q \<in> set (or_users_of s (tables w))" "r = map_ok Some (into_or_user ext (read_or_user q))"
      | e where "can_fail ops tables" "r = Inl (Surreal e)"
      using 1 by blast
    then show ?case
    proof cases
      case 1
      obtain v w2 where v: "do_now_v7 ops w1 = (v, w2)" by (cases "do_now_v7 ops w1")
      then have u: "v = ?u" using w1(3) by simp
      have w2: "tables w2 = tables w" "blobs w2 = blobs w"
        using w1 now_v7_tables [OF v] db_keeps_blobs(1) [OF v] by simp_all
      show ?thesis
        unfolding 1(1) sum.case option.case wp_calls(1) v prod.case u
      proof (rule wp_utc_now, goal_cases)
        case t: (1 now w3)
        note created' = created [OF 1(2)] and lost' = lost [OF _ 1(2)]
          and missed' = missed [OF _ _ 1(2) disjI2 [OF exI]] missed [OF _ _ 1(2) disjI1]
        show ?case
          unfolding wp_prog_try wp_prog_map_err
          by (rule wp_create_or_user [where w = w and Q = Q])
            (use t w2 1(2) created' lost' missed' err in \<open>auto simp del: run_stmt.simps\<close>)
      qed
    next
      case (2 q)
      then show ?thesis
        using found [OF w1(1,2)] by (cases "into_or_user ext (read_or_user q)") (fastforce simp: map_ok_def)+
    next
      case (3 e)
      then show ?thesis using err [OF w1(1,2)] by simp
    qed
  qed
qed

end

end
