(* ===== verification/Store_View.thy ===== *)
theory Store_View
  imports Repository_Writes
begin

text \<open>
  The abstract specification of the repository: a store that maps a record id to its state, kind,
  hash, set of versions and attribution. \<open>view\<close> reads the tables as such a store; each write
  of the repository is an update of it at one point.
\<close>

section \<open>The abstract store\<close>

record stored =
  st_state :: persisted_state
  st_kind :: kind
  st_hash :: "string option"
  st_versions :: "version multiset"
  st_attribution :: persisted_attribution

type_synonym store = "uuid \<Rightarrow> stored option"

definition view :: "'x crates_scheme \<Rightarrow> tables \<Rightarrow> store" where
  "view ext t i =
     map_option (\<lambda>row. \<lparr>st_state = projr (from_literal (rr_state row)), st_kind = kind_from_string (rr_kind row),
        st_hash = rr_content_hash row, st_versions = mset (map (stored_version ext) (versions_of i t)),
        st_attribution = attribution_of ext (hd (edges_to (uuid_to_string ext i) t))\<rparr>)
       (map_of (t_record t) (uuid_to_string ext i))"

text \<open>Every version row belongs to a record that is there.\<close>

definition no_orphans :: "'x crates_scheme \<Rightarrow> tables \<Rightarrow> bool" where
  "no_orphans ext t \<longleftrightarrow> (\<forall>i. versions_of i t \<noteq> [] \<longrightarrow> map_of (t_record t) (uuid_to_string ext i) \<noteq> None)"

text \<open>A record that a caller got from \<open>find\<close>, against the abstract one.\<close>

definition reports :: "record_with_attribution \<Rightarrow> uuid \<Rightarrow> stored \<Rightarrow> bool" where
  "reports rwa i s \<longleftrightarrow>
     any_id (rwa_record rwa) = i \<and> any_state (rwa_record rwa) = st_state s \<and>
     any_kind (rwa_record rwa) = st_kind s \<and> map_option hash_to_string (any_hash (rwa_record rwa)) = st_hash s \<and>
     mset (any_versions (rwa_record rwa)) = st_versions s \<and> rwa_attribution rwa = st_attribution s"

lemma map_of_snoc: "map_of (xs @ [(k, v)]) k' = (case map_of xs k' of None \<Rightarrow> if k' = k then Some v else None | Some u \<Rightarrow> Some u)"
  by (induction xs) auto

context thing_text
begin

lemma reports_assembled:
  assumes inv: "repo_inv ext t" and ans: "answer ext t i row rows e"
  obtains s where "view ext t i = Some s" "reports (assembled ext i row rows e) i s"
proof -
  have row: "map_of (t_record t) (uuid_to_string ext i) = Some row"
    and e: "e \<in> set (edges_to (uuid_to_string ext i) t)"
    using ans by (auto simp: answer_def)
  have "length (edges_to (uuid_to_string ext i) t) = 1"
    using repo_invD(1) [OF inv row] by (simp add: record_wf_def)
  with e have hd: "hd (edges_to (uuid_to_string ext i) t) = e"
    by (cases "edges_to (uuid_to_string ext i) t") auto
  note reads = assembled_reads [OF inv ans]
  have st: "any_state (rwa_record (assembled ext i row rows e)) = projr (from_literal (rr_state row))"
    using reads(2) by (metis from_literal_as_literal sum.sel(2))
  have v: "view ext t i = Some \<lparr>st_state = projr (from_literal (rr_state row)),
      st_kind = kind_from_string (rr_kind row), st_hash = rr_content_hash row,
      st_versions = mset (map (stored_version ext) (versions_of i t)), st_attribution = attribution_of ext e\<rparr>"
    using row hd by (simp add: view_def)
  show ?thesis
    by (rule that [OF v]) (use reads st in \<open>simp add: reports_def\<close>)
qed

lemma view_written:
  assumes inv: "repo_inv ext t" and free: "write_free ext row t"
    and own: "\<forall>v \<in> set (row_versions row). pv_record_id v = pr_id (row_record row)"
    and alone: "versions_of (pr_id (row_record row)) t = []"
  shows "view ext (written ext row c t) = (view ext t)(pr_id (row_record row) \<mapsto>
     \<lparr>st_state = pr_state (row_record row), st_kind = kind_from_string (pr_kind (row_record row)),
      st_hash = pr_content_hash (row_record row),
      st_versions = mset (map version_from_persisted (row_versions row)),
      st_attribution = \<lparr>pa_creator = strip_thing_backticks (thing_to_string ext c), pa_at = pa_at (row_attribution row)\<rparr>\<rparr>)"
proof
  fix j
  let ?i = "pr_id (row_record row)"
  have new: "map_of (t_record t) (uuid_to_string ext ?i) = None"
    using free by (simp add: write_free_def map_of_notin)
  have rec: "map_of (t_record (written ext row c t)) k =
      (case map_of (t_record t) k of None \<Rightarrow>
         if k = uuid_to_string ext ?i then Some (record_row_from_persisted (row_record row)) else None
       | Some u \<Rightarrow> Some u)" for k
    by (simp add: written_def Let_def map_of_snoc del: map_of_append)
  have vs: "filter (\<lambda>v. pv_record_id v = j) (row_versions row) = (if j = ?i then row_versions row else [])"
    using own by (auto simp: filter_empty_conv intro!: filter_True)
  have st: "map (stored_version ext) (map (\<lambda>v. (uuid_to_string ext (pv_id v), version_row_from_persisted v)) (row_versions row)) =
      map version_from_persisted (row_versions row)"
    by (simp add: stored_version_def version_from_persisted_def version_row_from_persisted_def uuid_parse_to_string)
  have edges: "edges_to (uuid_to_string ext ?i) t = []"
    using edges_to_absent [OF inv] free by (simp add: write_free_def)
  have all: "filter (\<lambda>v. pv_record_id v = ?i) (row_versions row) = row_versions row"
    using own by simp
  show "view ext (written ext row c t) j = ((view ext t)(?i \<mapsto>
     \<lparr>st_state = pr_state (row_record row), st_kind = kind_from_string (pr_kind (row_record row)),
      st_hash = pr_content_hash (row_record row), st_versions = mset (map version_from_persisted (row_versions row)),
      st_attribution = \<lparr>pa_creator = strip_thing_backticks (thing_to_string ext c), pa_at = pa_at (row_attribution row)\<rparr>\<rparr>)) j"
  proof (cases "j = ?i")
    case True
    then show ?thesis
      using st by (simp add: view_def rec new all alone edges record_row_from_persisted_def attribution_of_def
          del: map_map mset_map)
  next
    case False
    then show ?thesis
      by (simp add: view_def rec vs uuid_to_string_inj split: option.splits)
  qed
qed

lemma view_appended:
  assumes "view ext t i = Some s"
  shows "view ext (appended_tables (uuid_to_string ext vid) \<lparr>vw_record_id = i, vw_body = b, vw_created_at = n\<rparr>
       (uuid_to_string ext i) now t) = (view ext t)(i \<mapsto> s\<lparr>st_versions :=
         add_mset \<lparr>ver_id = VersionId vid, ver_body = body_from_persisted b\<rparr> (st_versions s)\<rparr>)"
proof
  fix j
  have edges: "edges_to k (appended_tables v w r now t) = edges_to k t" for k v w r
    by (rule edges_to_same_created_by) (simp add: appended_tables_def)
  have rec: "map_of (t_record (appended_tables v w (uuid_to_string ext i) now t)) k =
      map_option (\<lambda>r. if k = uuid_to_string ext i then r\<lparr>rr_updated_at := now\<rparr> else r) (map_of (t_record t) k)" for v w k
    by (cases "map_of (t_record t) k") (auto simp: appended_tables_def split: option.splits)
  show "view ext (appended_tables (uuid_to_string ext vid) \<lparr>vw_record_id = i, vw_body = b, vw_created_at = n\<rparr>
       (uuid_to_string ext i) now t) j = ((view ext t)(i \<mapsto> s\<lparr>st_versions :=
         add_mset \<lparr>ver_id = VersionId vid, ver_body = body_from_persisted b\<rparr> (st_versions s)\<rparr>)) j"
    using assms
    by (cases "map_of (t_record t) (uuid_to_string ext i)"; cases "j = i")
      (auto simp: view_def rec edges uuid_to_string_inj stored_version_def uuid_parse_to_string
        option.map_ident)
qed

lemma view_deleted:
  "view ext (deleted_tables (uuid_to_string ext i) i t) = (view ext t)(i := None)"
proof
  fix j
  have "versions_of j (deleted_tables (uuid_to_string ext i) i t) = versions_of j t" if "j \<noteq> i"
    using that by (auto simp: versions_of_def deleted_tables_def intro!: filter_cong)
  moreover have "edges_to (uuid_to_string ext j) (deleted_tables (uuid_to_string ext i) i t) = edges_to (uuid_to_string ext j) t"
    if "j \<noteq> i"
    using that uuid_to_string_inj by (auto simp: edges_to_def deleted_tables_def intro!: filter_cong)
  moreover have "map_of (t_record (deleted_tables (uuid_to_string ext i) i t)) = (map_of (t_record t))(uuid_to_string ext i := None)"
    by (simp add: deleted_tables_def map_of_filter_key)
  ultimately show "view ext (deleted_tables (uuid_to_string ext i) i t) j = ((view ext t)(i := None)) j"
    by (auto simp: view_def uuid_to_string_inj)
qed

lemma view_linked: "view ext (linked a b n t) = view ext t"
  by (simp add: fun_eq_iff view_def linked_def versions_of_def edges_to_def)

end

lemma map_entry_split:
  assumes "distinct (map fst xs)" "(k, v) \<in> set xs"
  obtains ys zs where "xs = ys @ (k, v) # zs" "map_entry k f xs = ys @ (k, f v) # zs"
proof -
  from assms(2) obtain ys zs where xs: "xs = ys @ (k, v) # zs" by (meson split_list)
  with assms(1) have "map_of ys k = None" "map_of zs k = None"
    by (auto simp: map_of_notin)
  then have "map_entry k f ys = ys" "map_entry k f zs = zs" by (simp_all add: map_entry_absent)
  then have "map_entry k f xs = ys @ (k, f v) # zs" by (simp add: xs map_entry_def)
  with xs show ?thesis by (rule that)
qed

lemma versions_of_body_update:
  "versions_of j (fixed_tables rid hash now vid b t) = map_entry vid (\<lambda>r. r\<lparr>vw_body := b\<rparr>) (versions_of j t)"
proof -
  have "filter (\<lambda>(k, v). vw_record_id v = j) (map_entry vid (\<lambda>r. r\<lparr>vw_body := b\<rparr>) xs) =
      map_entry vid (\<lambda>r. r\<lparr>vw_body := b\<rparr>) (filter (\<lambda>(k, v). vw_record_id v = j) xs)"
    for xs :: "(string \<times> version_row_write) list"
    by (induction xs) (simp_all add: map_entry_Cons split: prod.splits)
  then show ?thesis by (simp add: versions_of_def fixed_tables_def)
qed

lemma distinct_versions_of: "repo_inv ext t \<Longrightarrow> distinct (map fst (versions_of i t))"
  by (simp add: repo_inv_def versions_of_def distinct_map_filter)

lemma versions_of_other:
  assumes "repo_inv ext t" "(k, v) \<in> set (versions_of i t)" "j \<noteq> i"
  shows "map_of (versions_of j t) k = None"
proof (rule ccontr)
  assume "map_of (versions_of j t) k \<noteq> None"
  then obtain v' where "(k, v') \<in> set (versions_of j t)" by (auto dest: map_of_SomeD)
  with assms(2) have "(k, v) \<in> set (t_version t)" "(k, v') \<in> set (t_version t)" "vw_record_id v = i" "vw_record_id v' = j"
    by (auto simp: versions_of_def)
  moreover from assms(1) have "distinct (map fst (t_version t))" by (simp add: repo_inv_def)
  ultimately show False using assms(3) by (metis eq_key_imp_eq_value)
qed

context thing_text
begin

lemma view_fixed:
  assumes inv: "repo_inv ext t" and s: "view ext t i = Some s"
    and v: "(uuid_to_string ext vid, v) \<in> set (versions_of i t)"
  shows "view ext (fixed_tables (uuid_to_string ext i) hash now (uuid_to_string ext vid) b t) =
    (view ext t)(i \<mapsto> s\<lparr>st_state := PFixed, st_hash := Some hash,
      st_versions := add_mset \<lparr>ver_id = VersionId vid, ver_body = body_from_persisted b\<rparr>
        (st_versions s - {#stored_version ext (uuid_to_string ext vid, v)#})\<rparr>)"
proof
  fix j
  let ?t = "fixed_tables (uuid_to_string ext i) hash now (uuid_to_string ext vid) b t"
  let ?f = "\<lambda>r. r\<lparr>vw_body := b\<rparr>"
  have edges: "edges_to k ?t = edges_to k t" for k
    by (rule edges_to_same_created_by) (simp add: fixed_tables_def)
  have rec: "map_of (t_record ?t) k = map_option (\<lambda>r. if k = uuid_to_string ext i then
        r\<lparr>rr_state := ''fixed'', rr_content_hash := Some hash, rr_updated_at := now\<rparr> else r) (map_of (t_record t) k)" for k
    by (cases "map_of (t_record t) k") (auto simp: fixed_tables_def split: option.splits)
  have other: "versions_of j ?t = versions_of j t" if "j \<noteq> i"
    using versions_of_other [OF inv v that] by (simp add: versions_of_body_update map_entry_absent)
  obtain ys zs where "versions_of i t = ys @ (uuid_to_string ext vid, v) # zs"
    "map_entry (uuid_to_string ext vid) ?f (versions_of i t) = ys @ (uuid_to_string ext vid, ?f v) # zs"
    using map_entry_split [OF distinct_versions_of [OF inv] v] by metis
  then have vs: "mset (map (stored_version ext) (versions_of i ?t)) =
      add_mset \<lparr>ver_id = VersionId vid, ver_body = body_from_persisted b\<rparr>
        (mset (map (stored_version ext) (versions_of i t)) - {#stored_version ext (uuid_to_string ext vid, v)#})"
    by (simp add: versions_of_body_update stored_version_def uuid_parse_to_string)
  have lit: "from_literal ''fixed'' = Inr PFixed" by (simp add: from_literal_def)
  show "view ext ?t j = ((view ext t)(i \<mapsto> s\<lparr>st_state := PFixed, st_hash := Some hash,
      st_versions := add_mset \<lparr>ver_id = VersionId vid, ver_body = body_from_persisted b\<rparr>
        (st_versions s - {#stored_version ext (uuid_to_string ext vid, v)#})\<rparr>)) j"
  proof (cases "j = i")
    case True
    then show ?thesis
      using s vs by (auto simp: view_def rec edges lit)
  next
    case False
    then show ?thesis
      by (simp add: view_def rec edges other uuid_to_string_inj option.map_ident)
  qed
qed

text \<open>The trailing version of an answer is one of the stored rows.\<close>

lemma last_version_stored:
  assumes inv: "repo_inv ext t" and ans: "answer ext t i row rows e"
  defines "a \<equiv> rwa_record (assembled ext i row rows e)"
  obtains vid v where "ver_id (last (any_versions a)) = VersionId vid"
    "(uuid_to_string ext vid, v) \<in> set (versions_of i t)"
    "stored_version ext (uuid_to_string ext vid, v) = last (any_versions a)" "any_versions a \<noteq> []"
proof -
  have ne: "any_versions a \<noteq> []"
    using assembled_row_valid [OF inv ans] assembled_reads(5) [OF inv ans]
    by (simp add: row_valid_def assembled_row_def a_def)
  then have "last (any_versions a) \<in># mset (any_versions a)" by simp
  then have "last (any_versions a) \<in> stored_version ext ` set (versions_of i t)"
    unfolding a_def assembled_reads(6) [OF inv ans] by simp
  then obtain k v where kv: "(k, v) \<in> set (versions_of i t)" "stored_version ext (k, v) = last (any_versions a)"
    by auto
  moreover obtain vid where "k = uuid_to_string ext vid"
    using kv(1) inv by (auto simp: repo_inv_def versions_of_def)
  moreover have "ver_id (stored_version ext (uuid_to_string ext vid, v)) = VersionId vid"
    by (simp add: stored_version_def uuid_parse_to_string)
  ultimately show ?thesis using that ne by metis
qed

end

section \<open>Version rows and their records\<close>

lemma no_orphansI: "(\<And>i. versions_of i t \<noteq> [] \<Longrightarrow> view ext t i \<noteq> None) \<Longrightarrow> no_orphans ext t"
  by (auto simp: no_orphans_def view_def)

lemma no_orphansD: "no_orphans ext t \<Longrightarrow> view ext t i = None \<Longrightarrow> versions_of i t = []"
  by (auto simp: no_orphans_def view_def)

lemma view_None: "view ext t i = None \<longleftrightarrow> map_of (t_record t) (uuid_to_string ext i) = None"
  by (simp add: view_def)

end
