(* ===== verification/Repository_Spec.thy ===== *)
theory Repository_Spec
  imports Store_View
begin

text \<open>
  The contract of \<open>RecordRepository\<close> over the abstract store, and the proof that the SurrealDB
  implementation keeps it in every backend with the laws of \<open>Backend\<close>: each operation's reply and
  effect, the invariant \<open>repo_ok\<close>, and its consequences along any history of operations.
\<close>

section \<open>The contract of the store\<close>

definition repo_ok :: "'x crates_scheme \<Rightarrow> tables \<Rightarrow> bool" where
  "repo_ok ext t \<longleftrightarrow> repo_inv ext t \<and> no_orphans ext t"

text \<open>What a record promises whatever built it: the other half of \<open>storable\<close> is its kind.\<close>

definition well_formed :: "'s state_literal \<Rightarrow> 's orecord \<Rightarrow> bool" where
  "well_formed lit r \<longleftrightarrow> rec_versions r \<noteq> [] \<and>
     (case rec_content_hash r of None \<Rightarrow> LITERAL lit \<noteq> PFixed | Some h \<Rightarrow> LITERAL lit = PFixed \<and> hash_wf h)"

text \<open>
  An atomic write: the reply \<open>v\<close> means the change \<open>P\<close> is there; any other reply is the error of
  the database, after which the change is there whole or not at all. \<open>F\<close> says whether such an
  error can happen.
\<close>

definition commits :: "bool \<Rightarrow> (store \<Rightarrow> bool) \<Rightarrow> store \<Rightarrow> store \<Rightarrow> 'a \<Rightarrow> db_error + 'a \<Rightarrow> bool" where
  "commits F P S S' v res \<longleftrightarrow> (res = Inr v \<and> P S') \<or> F \<and> (\<exists>m. res = Inl (Surreal m) \<and> (S' = S \<or> P S'))"

definition fails :: "bool \<Rightarrow> db_error + 'a \<Rightarrow> bool" where
  "fails F res \<longleftrightarrow> F \<and> (\<exists>m. res = Inl (Surreal m))"

definition saved :: "'x crates_scheme \<Rightarrow> 's state_literal \<Rightarrow> 's orecord \<Rightarrow> string \<times> string \<Rightarrow> datetime \<Rightarrow> stored" where
  "saved ext lit r c now =
     \<lparr>st_state = LITERAL lit, st_kind = kind_from_string (kind_to_string (rec_kind r)),
      st_hash = map_option hash_to_string (rec_content_hash r), st_versions = mset (rec_versions r),
      st_attribution = \<lparr>pa_creator = strip_thing_backticks (thing_to_string ext c), pa_at = now\<rparr>\<rparr>"

text \<open>The version ids of the record are new to the store.\<close>

definition ids_free :: "'x crates_scheme \<Rightarrow> 's orecord \<Rightarrow> tables \<Rightarrow> bool" where
  "ids_free ext r t \<longleftrightarrow> distinct (map ver_id (rec_versions r)) \<and>
     (\<forall>v \<in> set (rec_versions r). uuid_to_string ext (version_uuid (ver_id v)) \<notin> fst ` set (t_version t))"

definition save_contract ::
  "bool \<Rightarrow> 'x crates_scheme \<Rightarrow> 's state_literal \<Rightarrow> 's orecord \<Rightarrow> string \<times> string \<Rightarrow> store \<Rightarrow> store \<Rightarrow> db_error + unit \<Rightarrow> bool" where
  "save_contract F ext lit r c S S' res \<longleftrightarrow>
     (case S (rec_id r) of
        None \<Rightarrow> commits F (\<lambda>T. \<exists>now. T = S(rec_id r \<mapsto> saved ext lit r c now)) S S' () res
      | Some _ \<Rightarrow> S' = S \<and> (res = Inl (DbAlreadyExists (rec_id r)) \<or> fails F res))"

definition find_contract :: "bool \<Rightarrow> uuid \<Rightarrow> store \<Rightarrow> store \<Rightarrow> db_error + record_with_attribution option \<Rightarrow> bool" where
  "find_contract F i S S' res \<longleftrightarrow> S' = S \<and>
     (case res of
        Inl e \<Rightarrow> fails F res
      | Inr None \<Rightarrow> S i = None
      | Inr (Some rwa) \<Rightarrow> \<exists>s. S i = Some s \<and> reports rwa i s)"

definition add_version_contract :: "bool \<Rightarrow> uuid \<Rightarrow> body \<Rightarrow> stored \<Rightarrow> store \<Rightarrow> store \<Rightarrow> db_error + version \<Rightarrow> bool" where
  "add_version_contract F i b s S S' res \<longleftrightarrow>
     (\<exists>vid. commits F (\<lambda>T. T = S(i \<mapsto> s\<lparr>st_versions := add_mset \<lparr>ver_id = VersionId vid, ver_body = b\<rparr> (st_versions s)\<rparr>))
       S S' \<lparr>ver_id = VersionId vid, ver_body = b\<rparr> res)"

text \<open>\<open>chain_read ext t i vs\<close>: \<open>vs\<close> is the chain of \<open>i\<close>, oldest first, as a read may return it (rows of
  one instant come in any order). \<open>C\<close> is that predicate in the contract.\<close>

definition chain_read :: "'x crates_scheme \<Rightarrow> tables \<Rightarrow> uuid \<Rightarrow> version list \<Rightarrow> bool" where
  "chain_read ext t i vs \<longleftrightarrow>
     (\<exists>rows. mset rows = mset (map read_version (versions_of i t)) \<and> sorted (map vr_created_at rows) \<and>
        vs = map version_from_persisted (chain_of ext rows))"

definition transition_contract ::
  "(version list \<Rightarrow> bool) \<Rightarrow> bool \<Rightarrow> uuid \<Rightarrow> sha256_hash \<Rightarrow> store \<Rightarrow> store \<Rightarrow> db_error + fixed orecord \<Rightarrow> bool" where
  "transition_contract C F i h S S' res \<longleftrightarrow>
     (case S i of
        None \<Rightarrow> S' = S \<and> (res = Inl (EmptyVersionChain i) \<or> fails F res)
      | Some s \<Rightarrow>
          if st_state s = PFixed
          then S' = S \<and> (res = Inl (StateMismatch ''fixed'' ''mutable | snapshot'') \<or> fails F res)
          else (\<exists>vs. C vs \<and> mset vs = st_versions s \<and>
            commits F (\<lambda>T. T = S(i \<mapsto> s\<lparr>st_state := PFixed, st_hash := Some (hash_to_string h),
                st_versions := mset (rec_versions (fossilize i (st_kind s) vs h))\<rparr>))
              S S' (fossilize i (st_kind s) vs h) res))"

text \<open>The edges and version rows without those of \<open>i\<close>: the \<open>created_by\<close> edge to it, the \<open>snapshot_of\<close> edges at
  either end.\<close>

definition unlinked :: "'x crates_scheme \<Rightarrow> uuid \<Rightarrow> tables \<Rightarrow> tables \<Rightarrow> bool" where
  "unlinked ext i t t' \<longleftrightarrow>
     t_created_by t' = filter (\<lambda>e. cb_out e \<noteq> uuid_to_string ext i) (t_created_by t) \<and>
     t_snapshot_of t' = filter (\<lambda>e. so_in e \<noteq> uuid_to_string ext i \<and> so_out e \<noteq> uuid_to_string ext i) (t_snapshot_of t) \<and>
     t_version t' = filter (\<lambda>(k, v). vw_record_id v \<noteq> i) (t_version t)"

definition delete_contract :: "bool \<Rightarrow> 'x crates_scheme \<Rightarrow> uuid \<Rightarrow> tables \<Rightarrow> tables \<Rightarrow> db_error + bool \<Rightarrow> bool" where
  "delete_contract F ext i t t' res \<longleftrightarrow>
     (let gone = view ext t' = (view ext t)(i := None) \<and> unlinked ext i t t' in
      if view ext t i = None then t' = t \<and> (res = Inr False \<or> fails F res)
      else res = Inr True \<and> gone \<or> fails F res \<and> (t' = t \<or> gone))"

text \<open>\<open>n\<close> is the id drawn for the copy, \<open>us\<close> those for its versions, \<open>now\<close> the time read. The copy and its
  edge to the source are two units of work: a call that fails between them leaves the copy without the edge.\<close>

definition snapshot_copy ::
  "'x crates_scheme \<Rightarrow> snapshot orecord \<Rightarrow> string \<times> string \<Rightarrow> uuid list \<Rightarrow> datetime \<Rightarrow> stored" where
  "snapshot_copy ext r c us now = (saved ext literal_snapshot r c now)
     \<lparr>st_versions := mset (map2 (\<lambda>u v. \<lparr>ver_id = VersionId u, ver_body = ver_body v\<rparr>) us (rec_versions r))\<rparr>"

definition snapshot_contract ::
  "bool \<Rightarrow> 'x crates_scheme \<Rightarrow> snapshot orecord \<Rightarrow> string \<times> string \<Rightarrow> uuid \<Rightarrow> uuid list \<Rightarrow> datetime \<Rightarrow> tables \<Rightarrow> tables \<Rightarrow>
   db_error + uuid \<Rightarrow> bool" where
  "snapshot_contract F ext r c n us now t t' res \<longleftrightarrow>
     (let free = view ext t n = None \<and> distinct us \<and> (\<forall>u \<in> set us. uuid_to_string ext u \<notin> fst ` set (t_version t));
          copied = (view ext t' = (view ext t)(n \<mapsto> snapshot_copy ext r c us now));
          edge = \<lparr>so_in = uuid_to_string ext n, so_out = uuid_to_string ext (rec_id r), so_at = now\<rparr>;
          linked = (t_snapshot_of t' = t_snapshot_of t @ [edge]) in
      if free
      then res = Inr n \<and> copied \<and> linked \<or>
        fails F res \<and> (t' = t \<or> copied \<and> (linked \<or> t_snapshot_of t' = t_snapshot_of t))
      else fails True res \<and> t' = t)"

lemma row_valid_of_record: "well_formed lit r \<Longrightarrow> row_valid (record_to_persisted_row lit r c now)"
  by (auto simp: well_formed_def row_valid_def record_to_persisted_row_def hash_to_string_hex64 split: option.splits)

lemma row_valid_snapshot:
  "well_formed literal_snapshot r \<Longrightarrow> length us = length (rec_versions r) \<Longrightarrow> row_valid (snapshot_row r c now n us)"
  by (auto simp: well_formed_def row_valid_def snapshot_row_def record_to_persisted_row_def Let_def
      literal_snapshot_def split: option.splits)

lemma no_orphans_mono:
  assumes "no_orphans ext t" "\<And>i. view ext t i \<noteq> None \<Longrightarrow> view ext t' i \<noteq> None"
    and "\<And>i. versions_of i t' \<noteq> [] \<Longrightarrow> versions_of i t \<noteq> [] \<or> view ext t' i \<noteq> None"
  shows "no_orphans ext t'"
  using assms by (intro no_orphansI) (metis no_orphansD)

lemma version_to_persisted_record [simp]: "pv_record_id (version_to_persisted v i t) = i"
  by (simp add: version_to_persisted_def)

lemma view_written_saved:
  assumes "thing_text ext" "repo_ok ext t" "write_free ext (record_to_persisted_row lit r cr now) t"
  shows "view ext (written ext (record_to_persisted_row lit r cr now) c t) = (view ext t)(rec_id r \<mapsto> saved ext lit r c now)"
proof -
  have "view ext t (rec_id r) = None"
    using assms(3) by (simp add: view_None write_free_def map_of_notin)
  then have "versions_of (rec_id r) t = []" using assms(2) no_orphansD by (auto simp: repo_ok_def)
  with assms show ?thesis
    using thing_text.view_written [of ext t "record_to_persisted_row lit r cr now" c]
    by (simp add: repo_ok_def saved_def record_to_persisted_row_def comp_def)
qed

context backend
begin

lemmas text_laws = thing_text_axioms

lemma repo_ok_written:
  assumes "repo_ok ext t" "write_free ext row t" "row_valid row"
    and "\<forall>v \<in> set (row_versions row). pv_record_id v = pr_id (row_record row)"
  shows "repo_ok ext (written ext row c t)"
proof -
  have new: "view ext (written ext row c t) (pr_id (row_record row)) \<noteq> None"
    and old: "view ext t i \<noteq> None \<Longrightarrow> view ext (written ext row c t) i \<noteq> None" for i
    by (auto simp: view_None written_def Let_def map_of_notin)
  have "no_orphans ext (written ext row c t)"
    by (rule no_orphans_mono [of ext t]) (use assms new old in \<open>auto simp: repo_ok_def filter_empty_conv\<close>)
  moreover have "repo_inv ext (written ext row c t)"
    using assms by (intro repo_inv_written) (simp_all add: repo_ok_def)
  ultimately show ?thesis by (simp add: repo_ok_def)
qed

lemma write_free_of_record:
  assumes "map_of (t_record t) (uuid_to_string ext (rec_id r)) = None" "ids_free ext r t"
  shows "write_free ext (record_to_persisted_row lit r creator now) t"
proof -
  have ids: "map (\<lambda>v. uuid_to_string ext (version_uuid (ver_id v))) (rec_versions r) =
      map (\<lambda>i. uuid_to_string ext (version_uuid i)) (map ver_id (rec_versions r))" by simp
  have "inj (\<lambda>i. uuid_to_string ext (version_uuid i))"
    by (rule injI) (metis uuid_to_string_inj version_id.expand)
  then have "distinct (map (\<lambda>v. uuid_to_string ext (version_uuid (ver_id v))) (rec_versions r))"
    using assms(2) unfolding ids by (simp add: ids_free_def distinct_map inj_on_def)
  then show ?thesis
    using assms by (force simp: write_free_def ids_free_def map_of_notin version_to_persisted_def comp_def)
qed

lemma save_law:
  assumes ok: "repo_ok ext (tables w)" and lit: "LITERAL lit \<noteq> PSnapshot"
    and thing: "split_once CHR '':'' creator = Some c" and wf: "well_formed lit r"
  shows "wp ops (save ext lit r creator) (\<lambda>res w'. repo_ok ext (tables w') \<and> blobs w' = blobs w \<and>
     save_contract (can_fail ops tables \<or> \<not> ids_free ext r (tables w)) ext lit r c (view ext (tables w)) (view ext (tables w')) res) w"
proof -
  have written: "repo_ok ext (written ext (record_to_persisted_row lit r creator now) c (tables w))"
    "view ext (written ext (record_to_persisted_row lit r creator now) c (tables w)) =
       (view ext (tables w))(rec_id r \<mapsto> saved ext lit r c now)"
    if "write_free ext (record_to_persisted_row lit r creator now) (tables w)" for now
    using view_written_saved [OF text_laws ok that] repo_ok_written [OF ok that row_valid_of_record [OF wf]]
    by simp_all
  have taken: "\<not> ids_free ext r (tables w)"
    if "view ext (tables w) (rec_id r) = None" "\<not> write_free ext (record_to_persisted_row lit r creator now) (tables w)" for now
    using that write_free_of_record [of "tables w" r lit creator now] by (auto simp: view_None)
  show ?thesis
    by (rule wp_save [OF lit thing])
      (use ok written taken in
        \<open>auto simp: save_contract_def commits_def fails_def view_None [symmetric] split: option.splits\<close>)
qed

lemma find_inv_law:
  assumes inv: "repo_inv ext (tables w)"
  shows "wp ops (find_record ext i) (\<lambda>res w'. tables w' = tables w \<and> blobs w' = blobs w \<and>
     find_contract (can_fail ops tables) i (view ext (tables w)) (view ext (tables w')) res) w"
proof -
  have some: "find_contract (can_fail ops tables) i (view ext (tables w)) (view ext (tables w)) (Inr (Some (assembled ext i row rows e)))"
    if "answer ext (tables w) i row rows e" for row rows e
    using reports_assembled [OF inv that] by (auto simp: find_contract_def)
  show ?thesis
    unfolding find_record_def
    by (rule wp_assemble [OF inv]) (use some in \<open>auto simp: find_contract_def fails_def view_None\<close>)
qed

lemmas find_law = find_inv_law [OF conjunct1 [OF iffD1 [OF repo_ok_def]]]

lemma repo_ok_appended:
  assumes ok: "repo_ok ext t" and s: "view ext t i = Some s" and free: "uuid_to_string ext vid \<notin> fst ` set (t_version t)"
  shows "repo_ok ext (appended_tables (uuid_to_string ext vid)
     \<lparr>vw_record_id = i, vw_body = b, vw_created_at = n\<rparr> (uuid_to_string ext i) now t)"
proof -
  have "no_orphans ext (appended_tables (uuid_to_string ext vid)
     \<lparr>vw_record_id = i, vw_body = b, vw_created_at = n\<rparr> (uuid_to_string ext i) now t)"
    by (rule no_orphans_mono [of ext t]) (use ok view_appended [OF s] in \<open>auto simp: repo_ok_def split: if_splits\<close>)
  with ok free show ?thesis by (simp add: repo_ok_def repo_inv_appended)
qed

lemma add_version_law:
  assumes ok: "repo_ok ext (tables w)" and s: "view ext (tables w) i = Some s"
  shows "wp ops (add_version ext i b) (\<lambda>res w'. repo_ok ext (tables w') \<and> blobs w' = blobs w \<and>
     add_version_contract (can_fail ops tables \<or> uuid_to_string ext (fst (do_now_v7 ops w)) \<in> fst ` set (t_version (tables w))) i b s (view ext (tables w)) (view ext (tables w')) res) w"
  by (rule wp_add_version)
    (use ok repo_ok_appended [OF ok s] in
      \<open>auto simp: add_version_contract_def commits_def fails_def view_appended [OF s]\<close>)

lemma chain_read_some:
  assumes "view ext t i = Some s"
  shows "\<exists>vs. chain_read ext t i vs \<and> mset vs = st_versions s"
proof -
  let ?rows = "sort_key vr_created_at (map read_version (versions_of i t))"
  have "chain_read ext t i (map version_from_persisted (chain_of ext ?rows))"
    unfolding chain_read_def by (intro exI [of _ ?rows]) simp
  moreover have "mset (map version_from_persisted (chain_of ext ?rows)) = st_versions s"
    using assms mset_chain [of ?rows "versions_of i t"] by (auto simp: view_def)
  ultimately show ?thesis by blast
qed

abbreviation frozen_tables :: "tables \<Rightarrow> uuid \<Rightarrow> sha256_hash \<Rightarrow> any_record \<Rightarrow> datetime \<Rightarrow> tables" where
  "frozen_tables t i h a now \<equiv> fixed_tables (uuid_to_string ext i) (hash_to_string h) now
     (uuid_to_string ext (version_uuid (ver_id (last (any_versions a)))))
     (body_to_persisted (fossilize_body h (ver_body (last (any_versions a))))) t"

text \<open>The freeze of a record that \<open>assemble\<close> has read, as an update of the store.\<close>

lemma frozen_change:
  assumes ok: "repo_ok ext t" and hash: "hash_wf h"
    and ans: "answer ext t i row rows e" and a: "a = rwa_record (assembled ext i row rows e)"
  shows "\<exists>s. view ext t i = Some s \<and> any_state a = st_state s \<and> any_kind a = st_kind s \<and> any_versions a \<noteq> [] \<and>
      chain_read ext t i (any_versions a) \<and> mset (any_versions a) = st_versions s \<and> repo_ok ext (frozen_tables t i h a now) \<and>
      view ext (frozen_tables t i h a now) = (view ext t)(i \<mapsto> s\<lparr>st_state := PFixed, st_hash := Some (hash_to_string h),
        st_versions := mset (rec_versions (fossilize i (st_kind s) (any_versions a) h))\<rparr>)"
proof -
  have inv: "repo_inv ext t" and orph: "no_orphans ext t" using ok by (simp_all add: repo_ok_def)
  obtain s where s: "view ext t i = Some s" "reports (assembled ext i row rows e) i s"
    using reports_assembled [OF inv ans] .
  obtain vid v where v: "ver_id (last (any_versions a)) = VersionId vid"
    "(uuid_to_string ext vid, v) \<in> set (versions_of i t)"
    "stored_version ext (uuid_to_string ext vid, v) = last (any_versions a)" "any_versions a \<noteq> []"
    using last_version_stored [OF inv ans] unfolding a by blast
  have ms: "mset (any_versions a) = st_versions s" using s(2) a by (simp add: reports_def)
  have split: "mset (any_versions a) = add_mset (last (any_versions a)) (mset (butlast (any_versions a)))"
    using v(4) by (metis append_butlast_last_id mset_append add_mset_add_single mset.simps)
  have new: "mset (rec_versions (fossilize i k (any_versions a) h)) =
      add_mset \<lparr>ver_id = VersionId vid, ver_body = fossilize_body h (ver_body (last (any_versions a)))\<rparr>
        (st_versions s - {#last (any_versions a)#})" for k
    using v(1,4) split ms by (cases "last (any_versions a)") (simp add: fossilize_versions)
  have view: "view ext (frozen_tables t i h a now) = (view ext t)(i \<mapsto> s\<lparr>st_state := PFixed, st_hash := Some (hash_to_string h),
      st_versions := mset (rec_versions (fossilize i (st_kind s) (any_versions a) h))\<rparr>)"
    using view_fixed [OF inv s(1) v(2)] v(1,3) new by simp
  have "no_orphans ext (frozen_tables t i h a now)"
    by (rule no_orphans_mono [OF orph]) (use view s versions_of_fixed in \<open>auto simp: versions_of_body_update map_entry_def\<close>)
  moreover have "repo_inv ext (frozen_tables t i h a now)"
    using hash inv by (intro repo_inv_fixed) (simp_all add: hash_to_string_hex64)
  moreover have "chain_read ext t i (any_versions a)"
    using ans assembled_reads(5) [OF inv ans] unfolding a chain_read_def answer_def by blast
  ultimately show ?thesis using s ms v(4) view a by (auto simp: repo_ok_def reports_def)
qed

lemma transition_law:
  assumes ok: "repo_ok ext (tables w)" and hash: "hash_wf h"
  shows "wp ops (transition_to_fixed ext i h) (\<lambda>res w'. repo_ok ext (tables w') \<and> blobs w' = blobs w \<and>
     transition_contract (chain_read ext (tables w) i) (can_fail ops tables) i h (view ext (tables w)) (view ext (tables w')) res) w"
proof -
  have inv: "repo_inv ext (tables w)" using ok by (simp add: repo_ok_def)
  note change = frozen_change [OF ok hash]
  show ?thesis
  proof (rule wp_transition_to_fixed [OF inv], goal_cases)
    case (1 w')
    then show ?case using ok by (simp add: transition_contract_def view_None [symmetric])
  next
    case (2 row rows e w')
    obtain s where "view ext (tables w) i = Some s" "st_state s = PFixed"
      using change [OF 2(3) refl, of 0] 2(4) by auto
    with 2 ok show ?case by (simp add: transition_contract_def)
  next
    case (3 row rows e a now w')
    from change [OF 3(1,2), of now] 3(3-5) show ?case
      by (fastforce simp: transition_contract_def commits_def fails_def)
  next
    case (4 row rows e a now err w')
    from change [OF 4(2,3), of now] 4(1,4-6) show ?case
      by (fastforce simp: transition_contract_def commits_def fails_def)
  next
    case (5 e w')
    then show ?case
      using ok chain_read_some by (auto simp: transition_contract_def commits_def fails_def split: option.splits)
  qed
qed

lemma delete_law:
  assumes ok: "repo_ok ext (tables w)"
  shows "wp ops (delete ext i) (\<lambda>res w'. repo_ok ext (tables w') \<and> blobs w' = blobs w \<and>
     delete_contract (can_fail ops tables) ext i (tables w) (tables w') res) w"
proof -
  let ?t = "deleted_tables (uuid_to_string ext i) i (tables w)"
  have gone: "versions_of i ?t = []" "unlinked ext i (tables w) ?t"
    by (auto simp: versions_of_def unlinked_def deleted_tables_def filter_empty_conv split_beta)
  have "versions_of j (tables w) \<noteq> []" "j \<noteq> i" if "versions_of j ?t \<noteq> []" for j
    using that gone by (auto simp: versions_of_def deleted_tables_def filter_empty_conv)
  then have "no_orphans ext ?t"
    using ok by (intro no_orphansI) (auto simp: view_deleted repo_ok_def dest: no_orphansD)
  then have del: "repo_ok ext ?t"
    using ok by (simp add: repo_ok_def repo_inv_deleted uuid_to_string_inj)
  show ?thesis
    by (rule wp_delete)
      (use ok del gone in \<open>auto simp: delete_contract_def fails_def view_deleted view_None [symmetric]\<close>)
qed

lemma snapshot_row_simps:
  "pr_id (row_record (snapshot_row r creator now n us)) = n"
  "length us = length (rec_versions r) \<Longrightarrow> map (\<lambda>v. uuid_to_string ext (pv_id v)) (row_versions (snapshot_row r creator now n us)) =
     map (uuid_to_string ext) us"
  by (auto simp: snapshot_row_def Let_def record_to_persisted_row_def list_eq_iff_nth_eq)

lemma snapshot_free:
  assumes len: "length us = length (rec_versions r)"
  shows "write_free ext (snapshot_row r creator now n us) t \<longleftrightarrow>
     view ext t n = None \<and> distinct us \<and> (\<forall>u \<in> set us. uuid_to_string ext u \<notin> fst ` set (t_version t))"
proof -
  note keys = snapshot_row_simps(2) [OF len, of creator now n]
  have "(\<lambda>v. uuid_to_string ext (pv_id v)) ` set (row_versions (snapshot_row r creator now n us)) = uuid_to_string ext ` set us"
    using arg_cong [OF keys, of set] by simp
  moreover have "distinct (map (uuid_to_string ext) us) \<longleftrightarrow> distinct us"
    by (simp add: distinct_map inj_on_def uuid_to_string_inj)
  ultimately show ?thesis
    by (auto simp: write_free_def keys snapshot_row_simps(1) view_None map_of_eq_None_iff)
qed

lemma snapshot_written:
  assumes ok: "repo_ok ext t" and wf: "well_formed literal_snapshot r"
    and len: "length us = length (rec_versions r)" and free: "write_free ext (snapshot_row r creator now n us) t"
  shows "repo_ok ext (written ext (snapshot_row r creator now n us) c t) \<and>
      repo_ok ext (linked (uuid_to_string ext n) src now (written ext (snapshot_row r creator now n us) c t)) \<and>
      view ext (written ext (snapshot_row r creator now n us) c t) = (view ext t)(n \<mapsto> snapshot_copy ext r c us now) \<and>
      t_snapshot_of (written ext (snapshot_row r creator now n us) c t) = t_snapshot_of t"
proof -
  let ?row = "snapshot_row r creator now n us"
  have row: "pr_id (row_record ?row) = n" "\<forall>v \<in> set (row_versions ?row). pv_record_id v = n"
    by (auto simp: snapshot_row_def Let_def)
  have good: "repo_ok ext (written ext ?row c t)"
    using repo_ok_written [OF ok free row_valid_snapshot [OF wf len]] row by simp
  have none: "view ext t n = None"
    using free row by (simp add: view_None write_free_def map_of_notin)
  then have "versions_of n t = []" using ok no_orphansD by (auto simp: repo_ok_def)
  then have v: "view ext (written ext ?row c t) = (view ext t)(n \<mapsto>
      (saved ext literal_snapshot r c now)\<lparr>st_versions := mset (map version_from_persisted (row_versions ?row))\<rparr>)"
    using view_written [of t ?row c] ok free row
    by (simp add: repo_ok_def saved_def) (simp add: snapshot_row_def Let_def record_to_persisted_row_def)
  have "map version_from_persisted (row_versions ?row) =
      map2 (\<lambda>u v. \<lparr>ver_id = VersionId u, ver_body = ver_body v\<rparr>) us (rec_versions r)"
    using len by (simp add: snapshot_row_def Let_def version_from_persisted_def version_to_persisted_def
        list_eq_iff_nth_eq record_to_persisted_row_def)
  moreover have "repo_ok ext (linked a b m t) = repo_ok ext t" for a b m t
    by (simp add: repo_ok_def repo_inv_def no_orphans_def record_wf_def linked_def versions_of_def edges_to_def)
  moreover have "t_snapshot_of (written ext ?row c t) = t_snapshot_of t" by (simp add: written_def Let_def)
  ultimately show ?thesis using good v by (simp add: snapshot_copy_def)
qed

lemma save_snapshot_law:
  assumes ok: "repo_ok ext (tables w)" and thing: "split_once CHR '':'' creator = Some c"
    and wf: "well_formed literal_snapshot r"
    and draw: "do_now_v7 ops w = (n, w1)" "do_utc_now ops w1 = (now, w2)" "drawn_ids ops (length (rec_versions r)) w2 = us"
  shows "wp ops (save_snapshot ext r creator) (\<lambda>res w'. repo_ok ext (tables w') \<and> blobs w' = blobs w \<and>
     snapshot_contract (can_fail ops tables) ext r c n us now (tables w) (tables w') res) w"
proof -
  have len: "length us = length (rec_versions r)" using draw(3) by auto
  note step = snapshot_written [OF ok wf len, where c = c] and free = snapshot_free [OF len, of _ now]
  have linked: "t_snapshot_of (linked a b m t) = t_snapshot_of t @ [\<lparr>so_in = a, so_out = b, so_at = m\<rparr>]" for a b m t
    by (simp add: linked_def)
  show ?thesis
    by (rule wp_save_snapshot [OF thing draw])
      (use step ok in \<open>auto simp: snapshot_contract_def fails_def view_linked linked free\<close>)
qed

end

section \<open>Listings\<close>

definition list_contract ::
  "bool \<Rightarrow> 'x crates_scheme \<Rightarrow> string \<times> string \<Rightarrow> tables \<Rightarrow> db_error + record_with_attribution list \<Rightarrow> bool" where
  "list_contract F ext c t res \<longleftrightarrow>
     (case res of
        Inl e \<Rightarrow> fails F res
      | Inr found \<Rightarrow>
          distinct (map (\<lambda>rwa. any_id (rwa_record rwa)) found) \<and>
          (\<lambda>rwa. any_id (rwa_record rwa)) ` set found =
            {i. \<exists>e \<in> set (t_created_by t). cb_in e = c \<and> cb_out e = uuid_to_string ext i} \<and>
          sorted (map (\<lambda>rwa. pa_at (rwa_attribution rwa)) found) \<and>
          (\<forall>rwa \<in> set found. \<exists>s. view ext t (any_id (rwa_record rwa)) = Some s \<and>
             reports rwa (any_id (rwa_record rwa)) s))"

lemma distinct_of_filters: "(\<And>k. length (filter (\<lambda>x. f x = k) xs) \<le> 1) \<Longrightarrow> distinct (map f xs)"
proof (induction xs)
  case (Cons x xs)
  have "length (filter (\<lambda>y. f y = k) xs) \<le> 1" for k
    using Cons.prems [of k] by (auto split: if_splits)
  moreover have "filter (\<lambda>y. f y = f x) xs = []"
    using Cons.prems [of "f x"] by simp
  ultimately show ?case using Cons.IH by (auto simp: filter_empty_conv)
qed simp

lemma created_by_distinct: "repo_inv ext t \<Longrightarrow> distinct (map cb_out (t_created_by t))"
proof (rule distinct_of_filters)
  fix k
  assume inv: "repo_inv ext t"
  show "length (filter (\<lambda>x. cb_out x = k) (t_created_by t)) \<le> 1"
  proof (cases "k \<in> fst ` set (t_record t)")
    case True
    then show ?thesis using inv by (auto simp: repo_inv_def record_wf_def edges_to_def)
  next
    case False
    then show ?thesis using edges_to_absent [OF inv] by (simp add: edges_to_def)
  qed
qed

context backend
begin

lemma listed_reports:
  assumes inv: "repo_inv ext t" and e: "e \<in> set (t_created_by t)" "listed ext t e rwa"
  shows "cb_out e = uuid_to_string ext (any_id (rwa_record rwa)) \<and> pa_at (rwa_attribution rwa) = cb_at e \<and>
      (\<exists>s. view ext t (any_id (rwa_record rwa)) = Some s \<and> reports rwa (any_id (rwa_record rwa)) s)"
proof -
  have one: "e' = e" if "e' \<in> set (edges_to (cb_out e) t)" for e'
    using created_by_distinct [OF inv] e(1) that by (auto simp: edges_to_def distinct_map inj_on_def)
  obtain i row rows e' where i: "cb_out e = uuid_to_string ext i" "answer ext t i row rows e'"
    "rwa = assembled ext i row rows e'"
    using e(2) by (auto simp: listed_def)
  then have "e' = e" using one by (auto simp: answer_def)
  moreover obtain s where "view ext t i = Some s" "reports (assembled ext i row rows e') i s"
    using reports_assembled [OF inv i(2)] .
  ultimately show ?thesis
    using i assembled_reads(1,7) [OF inv i(2)] by (auto simp: attribution_of_def)
qed

lemma found_listed:
  assumes inv: "repo_inv ext t" and es: "mset es = mset (edges_from c t)" "sorted (map cb_at es)"
    and found: "list_all2 (listed ext t) es found"
  shows "list_contract F ext c t (Inr found)"
proof -
  have mem: "set es = {e \<in> set (t_created_by t). cb_in e = c}"
    using mset_eq_setD [OF es(1)] by (auto simp: edges_from_def)
  have "list_all2 (\<lambda>e rwa. cb_out e = uuid_to_string ext (any_id (rwa_record rwa)) \<and> pa_at (rwa_attribution rwa) = cb_at e \<and>
    (\<exists>s. view ext t (any_id (rwa_record rwa)) = Some s \<and> reports rwa (any_id (rwa_record rwa)) s)) es found"
    using found by (rule list.rel_mono_strong) (use mem listed_reports [OF inv] in blast)
  then have outs: "map cb_out es = map (\<lambda>rwa. uuid_to_string ext (any_id (rwa_record rwa))) found"
    and ats: "map cb_at es = map (\<lambda>rwa. pa_at (rwa_attribution rwa)) found"
    and all: "\<forall>rwa \<in> set found. \<exists>s. view ext t (any_id (rwa_record rwa)) = Some s \<and>
      reports rwa (any_id (rwa_record rwa)) s"
    by (auto simp: list_all2_conv_all_nth list_eq_iff_nth_eq in_set_conv_nth)
  have "distinct (map cb_out (edges_from c t))"
    using created_by_distinct [OF inv] by (simp add: edges_from_def distinct_map_filter)
  then have "distinct (map cb_out es)"
    using es(1) by (metis mset_eq_imp_distinct_iff mset_map)
  then have dist: "distinct (map (\<lambda>rwa. any_id (rwa_record rwa)) found)"
    unfolding outs by (auto simp: distinct_map inj_on_def)
  have "i \<in> (\<lambda>rwa. any_id (rwa_record rwa)) ` set found \<longleftrightarrow> uuid_to_string ext i \<in> set (map cb_out es)" for i
    unfolding outs by (auto simp: uuid_to_string_inj)
  moreover have "uuid_to_string ext i \<in> set (map cb_out es) \<longleftrightarrow>
      (\<exists>e \<in> set (t_created_by t). cb_in e = c \<and> cb_out e = uuid_to_string ext i)" for i
    using mem by (auto simp: image_iff)
  ultimately have ids: "(\<lambda>rwa. any_id (rwa_record rwa)) ` set found =
      {i. \<exists>e \<in> set (t_created_by t). cb_in e = c \<and> cb_out e = uuid_to_string ext i}"
    by (intro set_eqI) (simp only: mem_Collect_eq)
  show ?thesis
    unfolding list_contract_def sum.case
    using dist all es(2) ats ids by (simp only:)
qed

lemma list_law:
  assumes ok: "repo_ok ext (tables w)" and thing: "split_once CHR '':'' creator = Some c"
  shows "wp ops (list_by_creator ext creator) (\<lambda>res w'. tables w' = tables w \<and> blobs w' = blobs w \<and>
     list_contract (can_fail ops tables) ext c (tables w) res) w"
proof -
  have inv: "repo_inv ext (tables w)" using ok by (simp add: repo_ok_def)
  show ?thesis
    by (rule wp_list_by_creator [OF inv thing])
      (use found_listed [OF inv] in \<open>auto simp: list_contract_def fails_def\<close>)
qed

end

section \<open>Histories\<close>

lemma hash_to_string_injective: "hash_to_string a = hash_to_string b \<longleftrightarrow> a = b"
proof
  assume eq: "hash_to_string a = hash_to_string b"
  then have "length (hash_bytes a) = length (hash_bytes b)"
    using length_hash_to_string [of a] length_hash_to_string [of b] by simp
  with eq show "a = b" by (rule hash_to_string_inj [rotated])
qed simp

lemma live_well_formed:
  "live_mutable r \<Longrightarrow> well_formed literal_mutable r"
  "live_snapshot s \<Longrightarrow> well_formed literal_snapshot s"
  using live_mutable_wf [of r] live_snapshot_wf [of s]
  by (simp_all add: well_formed_def literal_mutable_def literal_snapshot_def)

lemma live_fixed_well_formed:
  assumes "live_fixed f" "rec_content_hash f = Some h" "hash_wf h"
  shows "well_formed literal_fixed f"
proof -
  have "rec_versions f \<noteq> []"
    using assms(1)
    by (auto elim!: live_fixedE dest!: live_mutable_wf live_snapshot_wf
        simp: mutable_fix_def snapshot_fix_def fossilize_versions)
  with assms show ?thesis by (simp add: well_formed_def literal_fixed_def)
qed

text \<open>
  The worlds a sequence of repository calls can lead to, with any replies and failures on the way.
  Records are built by the core's operations. \<open>present\<close> says whether versions are added to records that are there
  only, as \<open>put_one\<close> does: \<open>add_version\<close> itself does not look.
\<close>

inductive history :: "bool \<Rightarrow> 'x crates_scheme \<Rightarrow> 'w world_ops \<Rightarrow> ('w \<Rightarrow> tables) \<Rightarrow> 'w \<Rightarrow> bool"
  for present :: bool and ext :: "'x crates_scheme" and ops :: "'w world_ops" and tables :: "'w \<Rightarrow> tables" where
  start: "t_record (tables w) = [] \<Longrightarrow> t_version (tables w) = [] \<Longrightarrow> t_created_by (tables w) = [] \<Longrightarrow>
    history present ext ops tables w"
| save_mutable: "history present ext ops tables w \<Longrightarrow> live_mutable r \<Longrightarrow>
    run ops (save ext literal_mutable r creator) w = (out, w') \<Longrightarrow> history present ext ops tables w'"
| save_fixed: "history present ext ops tables w \<Longrightarrow> live_fixed f \<Longrightarrow> rec_content_hash f = Some h \<Longrightarrow> hash_wf h \<Longrightarrow>
    run ops (save ext literal_fixed f creator) w = (out, w') \<Longrightarrow> history present ext ops tables w'"
| snapshot: "history present ext ops tables w \<Longrightarrow> live_snapshot s \<Longrightarrow>
    run ops (save_snapshot ext s creator) w = (out', w') \<Longrightarrow> history present ext ops tables w'"
| add: "history present ext ops tables w \<Longrightarrow> (present \<Longrightarrow> view ext (tables w) i \<noteq> None) \<Longrightarrow>
    run ops (add_version ext i b) w = (outv, w') \<Longrightarrow> history present ext ops tables w'"
| fossil: "history present ext ops tables w \<Longrightarrow> hash_wf h \<Longrightarrow>
    run ops (transition_to_fixed ext i h) w = (outf, w') \<Longrightarrow> history present ext ops tables w'"
| remove: "history present ext ops tables w \<Longrightarrow> run ops (delete ext i) w = (outd, w') \<Longrightarrow> history present ext ops tables w'"
| reads: "history present ext ops tables w \<Longrightarrow> run ops (find_record ext i) w = (outr, w') \<Longrightarrow> history present ext ops tables w'"
| lists: "history present ext ops tables w \<Longrightarrow> run ops (list_by_creator ext creator) w = (outl, w') \<Longrightarrow>
    history present ext ops tables w'"
| users: "history present ext ops tables w \<Longrightarrow> run ops (upsert_or_user ext sub) w = (outu, w') \<Longrightarrow>
    history present ext ops tables w'"

lemma wp_after: "wp ops p Q w \<Longrightarrow> run ops p w = (out, w') \<Longrightarrow> (\<And>x. Q x w' \<Longrightarrow> P) \<Longrightarrow> P"
  by (auto simp: wp_def split: outcome.splits)

context backend
begin

lemma write_bad_creator:
  assumes "split_once CHR '':'' (pa_creator (row_attribution row)) = None" "Q (Inl (MalformedHash
     (''expected Thing literal `<table>:<id>`, got '' @ fmt_debug ext (pa_creator (row_attribution row))))) w"
  shows "wp ops (write_record_atomic ext row) Q w"
  using assms by (simp add: write_record_atomic_def parse_thing_literal_def del: split_once_eq_None)

lemma save_bad_creator_law:
  assumes "split_once CHR '':'' creator = None"
  shows "wp ops (save ext lit r creator) (\<lambda>res w'. tables w' = tables w \<and> blobs w' = blobs w \<and> (\<exists>e. res = Inl e)) w"
  using assms
  by (auto simp: save_def surreal_read_def Let_def simp del: split_once_eq_None
      intro!: wp_utc_now wp_select_record write_bad_creator)

lemma snapshot_bad_creator_law:
  assumes "split_once CHR '':'' creator = None"
  shows "wp ops (save_snapshot ext r creator) (\<lambda>res w'. tables w' = tables w \<and> blobs w' = blobs w \<and> (\<exists>e. res = Inl e)) w"
  using assms unfolding save_snapshot_def Let_def
  by (intro wp_now_v7 wp_utc_now, simp only: wp_bind, intro wp_remint_versions)
    (auto simp del: split_once_eq_None intro!: write_bad_creator)

lemma list_bad_creator_law:
  assumes "split_once CHR '':'' creator = None"
  shows "wp ops (list_by_creator ext creator) (\<lambda>res w'. tables w' = tables w \<and> blobs w' = blobs w \<and> (\<exists>e. res = Inl e)) w"
  using assms by (simp add: list_by_creator_def parse_thing_literal_def del: split_once_eq_None)

lemma save_keeps_inv:
  assumes inv: "repo_inv ext (tables w)" and lit: "LITERAL lit \<noteq> PSnapshot" and wf: "well_formed lit r"
  shows "wp ops (save ext lit r creator) (\<lambda>res w'. repo_inv ext (tables w') \<and>
     (repo_ok ext (tables w) \<longrightarrow> repo_ok ext (tables w'))) w"
proof (cases "split_once CHR '':'' creator")
  case None
  show ?thesis by (rule wp_mono [OF save_bad_creator_law [OF None]]) (use inv in auto)
next
  case (Some c)
  have good: "repo_inv ext (written ext (record_to_persisted_row lit r creator now) c (tables w)) \<and>
      (repo_ok ext (tables w) \<longrightarrow> repo_ok ext (written ext (record_to_persisted_row lit r creator now) c (tables w)))"
    if "write_free ext (record_to_persisted_row lit r creator now) (tables w)" for now
    using repo_inv_written [OF inv that row_valid_of_record [OF wf]] repo_ok_written [OF _ that row_valid_of_record [OF wf]]
    by simp
  show ?thesis by (rule wp_save [OF lit Some]) (use inv good in auto)
qed

lemma snapshot_keeps_inv:
  assumes inv: "repo_inv ext (tables w)" and wf: "well_formed literal_snapshot r"
  shows "wp ops (save_snapshot ext r creator) (\<lambda>res w'. repo_inv ext (tables w') \<and>
     (repo_ok ext (tables w) \<longrightarrow> repo_ok ext (tables w'))) w"
proof (cases "split_once CHR '':'' creator")
  case None
  show ?thesis by (rule wp_mono [OF snapshot_bad_creator_law [OF None]]) (use inv in auto)
next
  case (Some c)
  obtain n w1 where n: "do_now_v7 ops w = (n, w1)" by (cases "do_now_v7 ops w")
  obtain now w2 where now: "do_utc_now ops w1 = (now, w2)" by (cases "do_utc_now ops w1")
  let ?row = "snapshot_row r creator now n (drawn_ids ops (length (rec_versions r)) w2)"
  have own: "\<forall>v \<in> set (row_versions ?row). pv_record_id v = pr_id (row_record ?row)"
    by (auto simp: snapshot_row_def Let_def)
  have good: "repo_inv ext (written ext ?row c (tables w)) \<and> (repo_ok ext (tables w) \<longrightarrow> repo_ok ext (written ext ?row c (tables w)))"
    if "write_free ext ?row (tables w)"
    using repo_inv_written [OF inv that row_valid_snapshot [OF wf] own] repo_ok_written [OF _ that row_valid_snapshot [OF wf] own]
    by simp
  have linked: "repo_inv ext (linked a b m t) = repo_inv ext t" "no_orphans ext (linked a b m t) = no_orphans ext t" for a b m t
    by (simp_all add: repo_inv_def no_orphans_def record_wf_def linked_def versions_of_def edges_to_def)
  show ?thesis
    by (rule wp_save_snapshot [OF Some n now refl]) (use inv good in \<open>auto simp: linked repo_ok_def\<close>)
qed

lemma repo_ok_start:
  "t_record t = [] \<Longrightarrow> t_version t = [] \<Longrightarrow> t_created_by t = [] \<Longrightarrow> repo_ok ext t"
  by (simp add: repo_ok_def repo_inv_empty no_orphans_def versions_of_def)

lemma add_keeps_inv:
  assumes inv: "repo_inv ext (tables w)"
  shows "wp ops (add_version ext i b) (\<lambda>res w'. repo_inv ext (tables w') \<and>
     (repo_ok ext (tables w) \<and> view ext (tables w) i \<noteq> None \<longrightarrow> repo_ok ext (tables w'))) w"
  by (rule wp_add_version) (use inv repo_ok_appended in \<open>auto simp: repo_inv_appended\<close>)

lemma transition_keeps_inv:
  assumes inv: "repo_inv ext (tables w)" and h: "hash_wf h"
  shows "wp ops (transition_to_fixed ext i h) (\<lambda>res w'. repo_inv ext (tables w')) w"
  by (rule wp_transition_to_fixed [OF inv]) (use inv h in \<open>auto intro!: repo_inv_fixed simp: hash_to_string_hex64\<close>)

lemma delete_keeps_inv:
  assumes inv: "repo_inv ext (tables w)"
  shows "wp ops (delete ext i) (\<lambda>res w'. repo_inv ext (tables w')) w"
  by (rule wp_delete) (use inv in \<open>auto simp: repo_inv_deleted uuid_to_string_inj\<close>)

lemma create_user_keeps:
  "run_stmt (CreateOrUser k s n) t = Some t' \<Longrightarrow>
   t_record t' = t_record t \<and> t_version t' = t_version t \<and> t_created_by t' = t_created_by t"
  by (auto split: if_splits)

lemma upsert_keeps_records:
  "wp ops (upsert_or_user ext s) (\<lambda>res w'. t_record (tables w') = t_record (tables w) \<and>
     t_version (tables w') = t_version (tables w) \<and> t_created_by (tables w') = t_created_by (tables w)) w"
  by (rule wp_upsert_or_user) (auto dest: create_user_keeps simp del: run_stmt.simps)

lemma same_rows_inv:
  assumes "t_record t' = t_record t" "t_version t' = t_version t" "t_created_by t' = t_created_by t"
  shows "repo_inv ext t' = repo_inv ext t" "no_orphans ext t' = no_orphans ext t"
  using assms by (simp_all add: repo_inv_def no_orphans_def record_wf_def versions_of_def edges_to_def)

lemma find_tables:
  assumes "repo_inv ext (tables w)"
  shows "wp ops (find_record ext i) (\<lambda>res w'. tables w' = tables w) w"
  unfolding find_record_def by (rule wp_assemble [OF assms]) auto

lemma list_tables:
  assumes "repo_inv ext (tables w)"
  shows "wp ops (list_by_creator ext creator) (\<lambda>res w'. tables w' = tables w) w"
proof (cases "split_once CHR '':'' creator")
  case None
  show ?thesis by (rule wp_mono [OF list_bad_creator_law [OF None]]) simp
next
  case (Some c)
  show ?thesis by (rule wp_list_by_creator [OF assms Some]) simp_all
qed

lemma history_inv:
  "history present ext ops tables w \<Longrightarrow> repo_inv ext (tables w) \<and> (present \<longrightarrow> repo_ok ext (tables w))"
proof (induction rule: history.induct)
  case (start w)
  then have "repo_ok ext (tables w)" by (rule repo_ok_start)
  then show ?case by (simp add: repo_ok_def)
next
  case (save_mutable w r creator out w')
  have "wp ops (save ext literal_mutable r creator) (\<lambda>res w'. repo_inv ext (tables w') \<and> (repo_ok ext (tables w) \<longrightarrow> repo_ok ext (tables w'))) w"
    using save_mutable.IH save_mutable.hyps(2) by (intro save_keeps_inv live_well_formed) (simp_all add: literal_mutable_def)
  then show ?case using save_mutable.hyps(3) by (rule wp_after) (use save_mutable.IH in auto)
next
  case (save_fixed w f h creator out w')
  have "wp ops (save ext literal_fixed f creator) (\<lambda>res w'. repo_inv ext (tables w') \<and> (repo_ok ext (tables w) \<longrightarrow> repo_ok ext (tables w'))) w"
    using save_fixed.IH save_fixed.hyps(2-4) live_fixed_well_formed
    by (intro save_keeps_inv) (auto simp add: literal_fixed_def)
  then show ?case using save_fixed.hyps(5) by (rule wp_after) (use save_fixed.IH in auto)
next
  case (snapshot w s creator out' w')
  have "wp ops (save_snapshot ext s creator) (\<lambda>res w'. repo_inv ext (tables w') \<and> (repo_ok ext (tables w) \<longrightarrow> repo_ok ext (tables w'))) w"
    using snapshot.IH snapshot.hyps(2) by (intro snapshot_keeps_inv live_well_formed) auto
  then show ?case using snapshot.hyps(3) by (rule wp_after) (use snapshot.IH in auto)
next
  case (add w i b outv w')
  have "wp ops (add_version ext i b) (\<lambda>res w'. repo_inv ext (tables w') \<and>
     (repo_ok ext (tables w) \<and> view ext (tables w) i \<noteq> None \<longrightarrow> repo_ok ext (tables w'))) w"
    using add.IH by (intro add_keeps_inv) simp
  then show ?case using add.hyps(3) by (rule wp_after) (use add.IH add.hyps(2) in blast)
next
  case (fossil w h i outf w')
  have "repo_inv ext (tables w')"
    by (rule wp_after [OF transition_keeps_inv fossil.hyps(3)]) (use fossil.IH fossil.hyps(2) in simp_all)
  moreover have "repo_ok ext (tables w')" if present
    using wp_after [OF transition_law fossil.hyps(3)] fossil.IH fossil.hyps(2) that by blast
  ultimately show ?case by blast
next
  case (remove w i outd w')
  have "repo_inv ext (tables w')"
    by (rule wp_after [OF delete_keeps_inv remove.hyps(2)]) (use remove.IH in simp_all)
  moreover have "repo_ok ext (tables w')" if present
    using wp_after [OF delete_law remove.hyps(2)] remove.IH that by blast
  ultimately show ?case by blast
next
  case (reads w i outr w')
  have "tables w' = tables w" by (rule wp_after [OF find_tables reads.hyps(2)]) (use reads.IH in simp_all)
  then show ?case using reads.IH by simp
next
  case (lists w creator outl w')
  have "tables w' = tables w" by (rule wp_after [OF list_tables lists.hyps(2)]) (use lists.IH in simp_all)
  then show ?case using lists.IH by simp
next
  case (users w sub outu w')
  have "repo_inv ext (tables w') = repo_inv ext (tables w)" "no_orphans ext (tables w') = no_orphans ext (tables w)"
    by (rule wp_after [OF upsert_keeps_records users.hyps(2)], rule same_rows_inv, simp_all)+
  then show ?case using users.IH by (simp add: repo_ok_def)
qed

lemma save_find_law:
  assumes ok: "repo_ok ext (tables w)" and lit: "LITERAL lit \<noteq> PSnapshot" and thing: "split_once CHR '':'' creator = Some c"
    and r: "storable lit r" and new: "view ext (tables w) (rec_id r) = None" "ids_free ext r (tables w)"
    and plain: "CHR ''`'' \<notin> set creator" and healthy: "\<not> can_fail ops tables"
  shows "wp ops (prog_try (save ext lit r creator) (\<lambda>_. find_record ext (rec_id r)))
     (\<lambda>res w'. \<exists>rwa. res = Inr (Some rwa) \<and> any_state (rwa_record rwa) = LITERAL lit \<and>
        any_id (rwa_record rwa) = rec_id r \<and> any_kind (rwa_record rwa) = rec_kind r \<and>
        any_hash (rwa_record rwa) = rec_content_hash r \<and>
        mset (any_versions (rwa_record rwa)) = mset (rec_versions r) \<and>
        pa_creator (rwa_attribution rwa) = creator) w"
proof -
  have wf: "well_formed lit r" and kind: "kind_from_string (kind_to_string (rec_kind r)) = rec_kind r"
    using r kind_from_to_string by (auto simp: storable_def well_formed_def)
  have creator: "strip_thing_backticks (thing_to_string ext c) = creator"
  proof (cases c)
    case (Pair ct ci)
    then have "creator = ct @ '':'' @ ci" using thing by (simp add: split_once_eq_Some)
    moreover from this plain have "CHR ''`'' \<notin> set ct" "CHR ''`'' \<notin> set ci" by auto
    ultimately show ?thesis using strip_thing Pair by simp
  qed
  have saved: "save_contract (can_fail ops tables \<or> \<not> ids_free ext r (tables w)) ext lit r c (view ext (tables w)) S res \<longleftrightarrow>
      res = Inr () \<and> (\<exists>now. S = (view ext (tables w))(rec_id r \<mapsto> saved ext lit r c now))" for S res
    using new healthy by (simp add: save_contract_def commits_def)
  have found: "wp ops (find_record ext (rec_id r)) (\<lambda>res w'. \<exists>rwa. res = Inr (Some rwa) \<and>
        any_state (rwa_record rwa) = LITERAL lit \<and> any_id (rwa_record rwa) = rec_id r \<and>
        any_kind (rwa_record rwa) = rec_kind r \<and> any_hash (rwa_record rwa) = rec_content_hash r \<and>
        mset (any_versions (rwa_record rwa)) = mset (rec_versions r) \<and> pa_creator (rwa_attribution rwa) = creator) w1"
    if w1: "repo_ok ext (tables w1)" "view ext (tables w1) = (view ext (tables w))(rec_id r \<mapsto> saved ext lit r c now)" for w1 now
  proof (rule wp_mono [OF find_law [OF w1(1)]], goal_cases)
    case (1 res w2)
    then obtain rwa where rwa: "res = Inr (Some rwa)" "reports rwa (rec_id r) (saved ext lit r c now)"
      using w1(2) healthy by (auto simp: find_contract_def fails_def split: sum.splits option.splits)
    then have "map_option hash_to_string (any_hash (rwa_record rwa)) = map_option hash_to_string (rec_content_hash r)"
      by (simp add: reports_def saved_def)
    then have "any_hash (rwa_record rwa) = rec_content_hash r"
      using hash_to_string_injective by (cases "any_hash (rwa_record rwa)"; cases "rec_content_hash r") auto
    with rwa show ?case by (simp add: reports_def saved_def kind creator)
  qed
  show ?thesis
    unfolding wp_prog_try
    by (rule wp_mono [OF save_law [OF ok lit thing wf]]) (use found saved in auto)
qed

end

section \<open>Properties\<close>

text \<open>C10: whatever sequence of repository calls led to a store, on records the core has built, with calls failing or
  connections lost at any point, every stored record is whole, and a read of any id returns: the record as
  the store holds it, nothing when there is none, or a database error when calls can fail; never
  the report of a broken row. Where versions were added to stored records only, each version row
  also belongs to a record that is there.\<close>

theorem store_invariant_along_histories:
  assumes "backend ext ops tables blobs" and "history present ext ops tables w"
  shows "repo_inv ext (tables w) \<and> (present \<longrightarrow> no_orphans ext (tables w)) \<and>
    wp ops (find_record ext i) (\<lambda>res w'. tables w' = tables w \<and>
      find_contract (can_fail ops tables) i (view ext (tables w)) (view ext (tables w')) res) w"
proof -
  have inv: "repo_inv ext (tables w)" "present \<longrightarrow> no_orphans ext (tables w)"
    using backend.history_inv [OF assms] by (auto simp: repo_ok_def)
  show ?thesis
    by (intro conjI inv, rule wp_mono [OF backend.find_inv_law [OF assms(1) inv(1)]]) auto
qed

text \<open>A record saved under a new id is found again by that id, with the same state, kind, hash
  and versions, attributed to the creator it was saved under.\<close>

lemma save_then_find:
  assumes "backend ext ops tables blobs" "\<not> can_fail ops tables" and "repo_ok ext (tables w)"
    and "storable lit r" "LITERAL lit \<noteq> PSnapshot"
    and "view ext (tables w) (rec_id r) = None" "ids_free ext r (tables w)"
    and "CHR '':'' \<in> set creator" "CHR ''`'' \<notin> set creator"
  shows "wp ops (prog_try (save ext lit r creator) (\<lambda>_. find_record ext (rec_id r)))
     (\<lambda>res w'. \<exists>rwa. res = Inr (Some rwa) \<and> any_state (rwa_record rwa) = LITERAL lit \<and>
        any_id (rwa_record rwa) = rec_id r \<and> any_kind (rwa_record rwa) = rec_kind r \<and>
        any_hash (rwa_record rwa) = rec_content_hash r \<and>
        mset (any_versions (rwa_record rwa)) = mset (rec_versions r) \<and>
        pa_creator (rwa_attribution rwa) = creator) w"
proof -
  from assms(8) obtain c where "split_once CHR '':'' creator = Some c"
    using split_once_eq_None by (metis not_None_eq)
  then show ?thesis using backend.save_find_law [OF assms(1,3,5)] assms by blast
qed

text \<open>C7: \<open>save\<close> keeps its contract: an id that is taken is refused and nothing changes; a new id is
  written whole, with its versions and its edge, or not at all.\<close>

theorem save_refines:
  assumes "backend ext ops tables blobs" and "repo_ok ext (tables w)"
    and "LITERAL lit \<noteq> PSnapshot" "split_once CHR '':'' creator = Some c" "well_formed lit r"
  shows "wp ops (save ext lit r creator) (\<lambda>res w'. repo_ok ext (tables w') \<and> blobs w' = blobs w \<and>
     save_contract (can_fail ops tables \<or> \<not> ids_free ext r (tables w)) ext lit r c
       (view ext (tables w)) (view ext (tables w')) res) w"
  using backend.save_law [OF assms] .

text \<open>C6: \<open>transition_to_fixed\<close> refuses a missing or already fixed record and changes nothing then;
  otherwise it returns the record that the core's \<open>fix\<close> makes of the chain it read, and the store
  holds exactly that record, or, after a database error, that or what it held before.\<close>

theorem transition_refines:
  assumes "backend ext ops tables blobs" and "repo_ok ext (tables w)" and "hash_wf h"
  shows "wp ops (transition_to_fixed ext i h) (\<lambda>res w'. repo_ok ext (tables w') \<and> blobs w' = blobs w \<and>
     transition_contract (chain_read ext (tables w) i) (can_fail ops tables) i h (view ext (tables w)) (view ext (tables w')) res) w"
  using backend.transition_law [OF assms] .

text \<open>C19: \<open>add_version\<close> on a record that is there adds exactly the one version it returns, and
  touches no other record.\<close>

theorem add_version_refines:
  assumes "backend ext ops tables blobs" and "repo_ok ext (tables w)" and "view ext (tables w) i = Some s"
  shows "wp ops (add_version ext i b) (\<lambda>res w'. repo_ok ext (tables w') \<and> blobs w' = blobs w \<and>
     add_version_contract
       (can_fail ops tables \<or> uuid_to_string ext (fst (do_now_v7 ops w)) \<in> fst ` set (t_version (tables w)))
       i b s (view ext (tables w)) (view ext (tables w')) res) w"
  using backend.add_version_law [OF assms] .

text \<open>C25: \<open>delete\<close> answers whether the record was there, removes it with every version row of its own, its
  \<open>created_by\<close> edge and the \<open>snapshot_of\<close> edges at either end, and leaves every other record, row and edge as
  it is; a call that fails has removed all of it or nothing.\<close>

theorem delete_refines:
  assumes "backend ext ops tables blobs" and "repo_ok ext (tables w)"
  shows "wp ops (delete ext i) (\<lambda>res w'. repo_ok ext (tables w') \<and> blobs w' = blobs w \<and>
     delete_contract (can_fail ops tables) ext i (tables w) (tables w') res) w"
  using backend.delete_law [OF assms] .

text \<open>C26: \<open>save_snapshot\<close> stores a copy of the snapshot under the id it draws, its versions under the ids drawn
  next with the same bodies, and an edge from the copy to the source, and leaves the source and every other record as
  they are. It fails only when one of these ids is taken, and then changes nothing, or when a call can
  fail, and then it has stored nothing, the copy, or the copy and the edge.\<close>

theorem save_snapshot_refines:
  assumes "backend ext ops tables blobs" and "repo_ok ext (tables w)"
    and "split_once CHR '':'' creator = Some c" "well_formed literal_snapshot r"
    and "do_now_v7 ops w = (n, w1)" "do_utc_now ops w1 = (now, w2)" "drawn_ids ops (length (rec_versions r)) w2 = us"
  shows "wp ops (save_snapshot ext r creator) (\<lambda>res w'. repo_ok ext (tables w') \<and> blobs w' = blobs w \<and>
     snapshot_contract (can_fail ops tables) ext r c n us now (tables w) (tables w') res) w"
  using backend.save_snapshot_law [OF assms] .

text \<open>C27: \<open>list_by_creator\<close> returns each record the creator has an edge to, exactly once, in the
  order of the edges' times, each as \<open>find\<close> would return it.\<close>

theorem list_by_creator_exact:
  assumes "backend ext ops tables blobs" and "repo_ok ext (tables w)" and "split_once CHR '':'' creator = Some c"
  shows "wp ops (list_by_creator ext creator) (\<lambda>res w'. tables w' = tables w \<and> blobs w' = blobs w \<and>
     list_contract (can_fail ops tables) ext c (tables w) res) w"
  using backend.list_law [OF assms] .

section \<open>Witnesses\<close>

text \<open>A record and a world that holds it.\<close>

definition sample_record :: "mutable orecord" where
  "sample_record = record_new 1 2 Log (Inline [7])"

definition sample_tables :: tables where
  "sample_tables = written mem_crates (record_to_persisted_row literal_mutable sample_record ''creo_user:ana'' 5)
     (''creo_user'', ''ana'') empty_tables"

definition sample_world :: mem_world where
  "sample_world = empty_world\<lparr>mw_tables := sample_tables, mw_next := 3, mw_clock := 6\<rparr>"

definition sample_hash :: sha256_hash where
  "sample_hash = Sha256Hash (replicate 32 171)"

lemma sample_hash_wf: "hash_wf sample_hash"
  by (simp add: sample_hash_def hash_wf_def)

lemma sample_storable: "storable literal_mutable sample_record"
  by (simp add: storable_def sample_record_def record_new_def plain_kind_def literal_mutable_def)

lemma sample_snapshot_wf: "well_formed literal_snapshot (snapshot_of sample_record)"
  by (simp add: well_formed_def sample_record_def record_new_def snapshot_of_def literal_snapshot_def)

lemma empty_ok: "repo_ok mem_crates (mw_tables empty_world)"
  by (rule mem.repo_ok_start) (simp_all add: empty_world_def empty_tables_def)

lemma sample_free: "write_free mem_crates (record_to_persisted_row literal_mutable sample_record c n) empty_tables"
  by (rule mem.write_free_of_record) (simp_all add: empty_tables_def ids_free_def sample_record_def record_new_def)

lemma sample_valid: "row_valid (record_to_persisted_row literal_mutable sample_record c n)"
  using sample_storable by (intro row_valid_of_record) (simp add: storable_def well_formed_def)

lemma sample_ok: "repo_ok mem_crates (mw_tables sample_world)"
proof -
  have "repo_ok mem_crates empty_tables" using empty_ok by (simp add: empty_world_def)
  then show ?thesis
    using mem.repo_ok_written [OF _ sample_free sample_valid] by (simp add: sample_world_def sample_tables_def)
qed

lemma sample_view:
  "view mem_crates (mw_tables sample_world) 1 =
     Some (saved mem_crates literal_mutable sample_record (''creo_user'', ''ana'') 5)"
proof -
  have "repo_ok mem_crates empty_tables" using empty_ok by (simp add: empty_world_def)
  then show ?thesis
    using view_written_saved [OF mem_text.thing_text_axioms _ sample_free]
    by (simp add: sample_world_def sample_tables_def sample_record_def record_new_def)
qed

lemma store_invariant_along_histories_witness:
  "\<exists>w. history True mem_crates (mem_ops True) mw_tables w \<and> repo_inv mem_crates (mw_tables w) \<and> no_orphans mem_crates (mw_tables w) \<and>
     (\<exists>out. run (mem_ops True) (save mem_crates literal_mutable sample_record ''creo_user:ana'') empty_world = (out, w)) \<and>
     wp (mem_ops True) (find_record mem_crates 1) (\<lambda>res w'. mw_tables w' = mw_tables w \<and>
       find_contract (can_fail (mem_ops True) mw_tables) 1 (view mem_crates (mw_tables w)) (view mem_crates (mw_tables w')) res) w"
proof -
  let ?run = "run (mem_ops True) (save mem_crates literal_mutable sample_record ''creo_user:ana'') empty_world"
  have h: "history True mem_crates (mem_ops True) mw_tables (snd ?run)"
  proof (rule history.save_mutable)
    show "history True mem_crates (mem_ops True) mw_tables empty_world"
      by (rule history.start) (simp_all add: empty_world_def empty_tables_def)
    show "live_mutable sample_record"
      unfolding sample_record_def by (rule live_mutable.new)
    show "?run = (fst ?run, snd ?run)" by simp
  qed
  have "?run = (fst ?run, snd ?run)" by simp
  then show ?thesis
    using h store_invariant_along_histories [OF mem.backend_axioms h, of 1] by blast
qed

lemma save_then_find_witness:
  "wp (mem_ops False) (prog_try (save mem_crates literal_mutable sample_record ''creo_user:ana'')
       (\<lambda>_. find_record mem_crates (rec_id sample_record)))
     (\<lambda>res w'. \<exists>rwa. res = Inr (Some rwa) \<and> any_state (rwa_record rwa) = LITERAL literal_mutable \<and>
        any_id (rwa_record rwa) = rec_id sample_record \<and> any_kind (rwa_record rwa) = rec_kind sample_record \<and>
        any_hash (rwa_record rwa) = rec_content_hash sample_record \<and>
        mset (any_versions (rwa_record rwa)) = mset (rec_versions sample_record) \<and>
        pa_creator (rwa_attribution rwa) = ''creo_user:ana'') empty_world"
  using empty_ok sample_storable mem_healthy.no_failure
  by (intro save_then_find [OF mem.backend_axioms])
    (simp_all add: literal_mutable_def view_None empty_world_def empty_tables_def ids_free_def sample_record_def record_new_def)

lemma save_refines_witness:
  "wp (mem_ops True) (save mem_crates literal_mutable sample_record ''creo_user:ana'')
     (\<lambda>res w'. repo_ok mem_crates (mw_tables w') \<and> mem_blobs w' = mem_blobs sample_world \<and>
       save_contract (can_fail (mem_ops True) mw_tables \<or> \<not> ids_free mem_crates sample_record (mw_tables sample_world))
         mem_crates literal_mutable sample_record (''creo_user'', ''ana'')
         (view mem_crates (mw_tables sample_world)) (view mem_crates (mw_tables w')) res) sample_world"
  by (rule save_refines [OF mem.backend_axioms sample_ok])
    (use sample_storable in \<open>simp_all add: literal_mutable_def storable_def well_formed_def\<close>)

lemma transition_refines_witness:
  "wp (mem_ops True) (transition_to_fixed mem_crates 1 sample_hash)
     (\<lambda>res w'. repo_ok mem_crates (mw_tables w') \<and> mem_blobs w' = mem_blobs sample_world \<and>
       transition_contract (chain_read mem_crates (mw_tables sample_world) 1) (can_fail (mem_ops True) mw_tables) 1 sample_hash
         (view mem_crates (mw_tables sample_world)) (view mem_crates (mw_tables w')) res) sample_world"
  by (rule transition_refines [OF mem.backend_axioms sample_ok sample_hash_wf])

lemma add_version_refines_witness:
  "\<exists>s. view mem_crates (mw_tables sample_world) 1 = Some s \<and>
     wp (mem_ops True) (add_version mem_crates 1 (Inline [8]))
     (\<lambda>res w'. repo_ok mem_crates (mw_tables w') \<and> mem_blobs w' = mem_blobs sample_world \<and>
       add_version_contract (can_fail (mem_ops True) mw_tables \<or>
           uuid_to_string mem_crates (fst (do_now_v7 (mem_ops True) sample_world)) \<in> fst ` set (t_version (mw_tables sample_world)))
         1 (Inline [8]) s (view mem_crates (mw_tables sample_world)) (view mem_crates (mw_tables w')) res) sample_world"
  using sample_view add_version_refines [OF mem.backend_axioms sample_ok sample_view] by blast

lemma delete_refines_witness:
  "wp (mem_ops True) (delete mem_crates 1)
     (\<lambda>res w'. repo_ok mem_crates (mw_tables w') \<and> mem_blobs w' = mem_blobs sample_world \<and>
       delete_contract (can_fail (mem_ops True) mw_tables) mem_crates 1 (mw_tables sample_world) (mw_tables w') res) sample_world"
  by (rule delete_refines [OF mem.backend_axioms sample_ok])

lemma save_snapshot_refines_witness:
  "wp (mem_ops False) (save_snapshot mem_crates (snapshot_of sample_record) ''creo_user:ana'')
     (\<lambda>res w'. repo_ok mem_crates (mw_tables w') \<and> mem_blobs w' = mem_blobs sample_world \<and>
       snapshot_contract (can_fail (mem_ops False) mw_tables) mem_crates (snapshot_of sample_record) (''creo_user'', ''ana'')
         3 [4] 6 (mw_tables sample_world) (mw_tables w') res) sample_world"
proof (rule save_snapshot_refines [OF mem.backend_axioms sample_ok _ sample_snapshot_wf])
  show "do_now_v7 (mem_ops False) sample_world = (3, sample_world\<lparr>mw_next := 4\<rparr>)"
    "do_utc_now (mem_ops False) (sample_world\<lparr>mw_next := 4\<rparr>) = (6, sample_world\<lparr>mw_next := 4, mw_clock := 7\<rparr>)"
    "drawn_ids (mem_ops False) (length (rec_versions (snapshot_of sample_record))) (sample_world\<lparr>mw_next := 4, mw_clock := 7\<rparr>) = [4]"
    by (simp_all add: mem_ops_simps sample_world_def sample_record_def record_new_def snapshot_of_def)
qed simp

lemma list_by_creator_exact_witness:
  "wp (mem_ops True) (list_by_creator mem_crates ''creo_user:ana'')
     (\<lambda>res w'. mw_tables w' = mw_tables sample_world \<and> mem_blobs w' = mem_blobs sample_world \<and>
       list_contract (can_fail (mem_ops True) mw_tables) mem_crates (''creo_user'', ''ana'') (mw_tables sample_world) res)
     sample_world"
  by (rule list_by_creator_exact [OF mem.backend_axioms sample_ok]) simp

end
