(* ===== verification/Schema.thy ===== *)
theory Schema
  imports Repository_Spec
begin

text \<open>
  \<open>crates/objectrecords-db/src/schema.rs\<close> and \<open>client.rs\<close>: the DDL the crate sends, and the
  connection sequence. A statement of the DDL is a value of \<open>ddl\<close>; each \<open>const\<close> of the source is
  one list, sent as one query.
\<close>

section \<open>The DDL\<close>

definition RECORD_TABLE :: "stmt list" where
  "RECORD_TABLE = map Define
     [DefineTable ''record'' Schemafull,
      DefineField ''state'' ''record'' ''string'' False,
      DefineField ''kind'' ''record'' ''string'' False,
      DefineField ''content_hash'' ''record'' ''option<string>'' False,
      DefineField ''created_at'' ''record'' ''datetime'' False,
      DefineField ''updated_at'' ''record'' ''datetime'' False]"

definition VERSION_TABLE :: "stmt list" where
  "VERSION_TABLE = map Define
     [DefineTable ''version'' Schemafull,
      DefineField ''record_id'' ''version'' ''uuid'' False,
      DefineField ''body'' ''version'' ''object'' True,
      DefineField ''created_at'' ''version'' ''datetime'' False,
      DefineIndex ''idx_version_record_id'' ''version'' ''record_id'' False]"

definition CREATED_BY_EDGE :: "stmt list" where
  "CREATED_BY_EDGE = map Define
     [DefineTable ''created_by'' Relation,
      DefineField ''at'' ''created_by'' ''datetime'' False,
      DefineIndex ''idx_created_by_in'' ''created_by'' ''in'' False]"

definition SNAPSHOT_OF_EDGE :: "stmt list" where
  "SNAPSHOT_OF_EDGE = map Define
     [DefineTable ''snapshot_of'' Relation,
      DefineField ''at'' ''snapshot_of'' ''datetime'' False,
      DefineIndex ''idx_snapshot_of_in'' ''snapshot_of'' ''in'' False]"

definition OR_USER_TABLE :: "stmt list" where
  "OR_USER_TABLE = map Define
     [DefineTable ''or_user'' Schemafull,
      DefineField ''auth0_sub'' ''or_user'' ''string'' False,
      DefineField ''created_at'' ''or_user'' ''datetime'' False,
      DefineIndex ''idx_or_user_auth0_sub'' ''or_user'' ''auth0_sub'' True]"

definition schema_consts :: "stmt list list" where
  "schema_consts = [RECORD_TABLE, VERSION_TABLE, CREATED_BY_EDGE, SNAPSHOT_OF_EDGE, OR_USER_TABLE]"

text \<open>\<open>db.query(\<dots>).await?\<close> without \<open>check()\<close>: the inner result is dropped.\<close>

definition query_unchecked :: "stmt list \<Rightarrow> (db_error + unit) prog" where
  "query_unchecked ss = prog_try (surreal_read (Query (Statements ss) Ret)) (\<lambda>_. Ret (Inr ()))"

definition schema_apply :: "(db_error + unit) prog" where
  "schema_apply =
     prog_try (query_unchecked RECORD_TABLE) (\<lambda>_.
     prog_try (query_unchecked VERSION_TABLE) (\<lambda>_.
     prog_try (query_unchecked CREATED_BY_EDGE) (\<lambda>_.
     prog_try (query_unchecked SNAPSHOT_OF_EDGE) (\<lambda>_.
     prog_try (query_unchecked OR_USER_TABLE) (\<lambda>_.
     Ret (Inr ()))))))"

section \<open>The connection\<close>

record db_config =
  cfg_endpoint :: string
  cfg_namespace :: string
  cfg_database :: string
  cfg_username :: string
  cfg_password :: string

definition connect :: "db_config \<Rightarrow> (db_error + unit) prog" where
  "connect config =
     prog_try (surreal_read (SurrealConnect (cfg_endpoint config) Ret)) (\<lambda>_.
     prog_try (surreal_read (SurrealSignin (cfg_username config) (cfg_password config) Ret)) (\<lambda>_.
     prog_try (surreal_read (SurrealUse (cfg_namespace config) (cfg_database config) Ret)) (\<lambda>_.
     prog_try schema_apply (\<lambda>_.
     Ret (Inr ())))))"

section \<open>What the DDL leaves\<close>

lemma run_defines:
  "run_stmts (map Define ds) t =
     Some (t\<lparr>t_schema := fold (\<lambda>d xs. d # filter (\<lambda>x. \<not> same_target x d) xs) ds (t_schema t)\<rparr>)"
  by (induction ds arbitrary: t) simp_all

definition schema_ddl :: "ddl list" where
  "schema_ddl =
     [DefineTable ''record'' Schemafull,
      DefineField ''state'' ''record'' ''string'' False,
      DefineField ''kind'' ''record'' ''string'' False,
      DefineField ''content_hash'' ''record'' ''option<string>'' False,
      DefineField ''created_at'' ''record'' ''datetime'' False,
      DefineField ''updated_at'' ''record'' ''datetime'' False,
      DefineTable ''version'' Schemafull,
      DefineField ''record_id'' ''version'' ''uuid'' False,
      DefineField ''body'' ''version'' ''object'' True,
      DefineField ''created_at'' ''version'' ''datetime'' False,
      DefineIndex ''idx_version_record_id'' ''version'' ''record_id'' False,
      DefineTable ''created_by'' Relation,
      DefineField ''at'' ''created_by'' ''datetime'' False,
      DefineIndex ''idx_created_by_in'' ''created_by'' ''in'' False,
      DefineTable ''snapshot_of'' Relation,
      DefineField ''at'' ''snapshot_of'' ''datetime'' False,
      DefineIndex ''idx_snapshot_of_in'' ''snapshot_of'' ''in'' False,
      DefineTable ''or_user'' Schemafull,
      DefineField ''auth0_sub'' ''or_user'' ''string'' False,
      DefineField ''created_at'' ''or_user'' ''datetime'' False,
      DefineIndex ''idx_or_user_auth0_sub'' ''or_user'' ''auth0_sub'' True]"

lemma schema_consts_ddl: "concat schema_consts = map Define schema_ddl"
  by (simp add: schema_consts_def schema_ddl_def RECORD_TABLE_def VERSION_TABLE_def CREATED_BY_EDGE_def
      SNAPSHOT_OF_EDGE_def OR_USER_TABLE_def)

lemma same_target_refl [simp]: "same_target d d"
  by (cases d) simp_all

lemma same_target_sym: "same_target a b \<longleftrightarrow> same_target b a"
  by (cases "(a, b)" rule: same_target.cases) auto

text \<open>Definitions with distinct targets: the last round wins, in reverse order, in front of the rest.\<close>

lemma fold_defines:
  assumes "sorted_wrt (\<lambda>a b. \<not> same_target a b) ds"
  shows "fold (\<lambda>d xs. d # filter (\<lambda>x. \<not> same_target x d) xs) ds xs =
    rev ds @ filter (\<lambda>x. \<forall>d \<in> set ds. \<not> same_target x d) xs"
  using assms
proof (induction ds arbitrary: xs rule: rev_induct)
  case (snoc d ds)
  then have "\<not> same_target x d" if "x \<in> set ds" for x
    using that by (simp add: sorted_wrt_append)
  with snoc show ?case
    by (auto simp: sorted_wrt_append filter_id_conv intro!: filter_cong)
qed simp

lemma schema_ddl_targets: "sorted_wrt (\<lambda>a b. \<not> same_target a b) schema_ddl"
  by (simp add: schema_ddl_def)

section \<open>Properties\<close>

lemma run_schema:
  "run_stmts (concat schema_consts) t =
     Some (t\<lparr>t_schema := rev schema_ddl @ filter (\<lambda>x. \<forall>d \<in> set schema_ddl. \<not> same_target x d) (t_schema t)\<rparr>)"
  unfolding schema_consts_ddl run_defines using fold_defines [OF schema_ddl_targets] by simp

text \<open>The schema can be applied to any database, changes no row of any table, leaves the
  \<open>UNIQUE\<close> index that \<open>upsert_or_user\<close> relies on in place, and a second application changes
  nothing.\<close>

lemma schema_idempotent:
  "\<exists>t'. run_stmts (concat schema_consts) t = Some t' \<and> t_record t' = t_record t \<and> t_version t' = t_version t \<and>
     t_created_by t' = t_created_by t \<and> t_snapshot_of t' = t_snapshot_of t \<and> t_or_user t' = t_or_user t \<and>
     unique_sub_index \<in> set (t_schema t') \<and> run_stmts (concat schema_consts) t' = Some t'"
proof -
  have "unique_sub_index \<in> set schema_ddl" by (simp add: schema_ddl_def unique_sub_index_def)
  moreover have "filter (\<lambda>x. \<forall>d \<in> set schema_ddl. \<not> same_target x d) (rev schema_ddl) = []"
    by (auto simp: filter_empty_conv intro: same_target_refl)
  moreover have "filter (\<lambda>x. \<forall>d \<in> set schema_ddl. \<not> same_target x d) (filter (\<lambda>x. \<forall>d \<in> set schema_ddl. \<not> same_target x d) xs) =
     filter (\<lambda>x. \<forall>d \<in> set schema_ddl. \<not> same_target x d) xs" for xs
    by (simp only: filter_filter conj_absorb)
  ultimately show ?thesis by (simp add: run_schema)
qed

text \<open>C38: \<open>schema::apply\<close> reports success whatever the server made of its statements: when every
  statement is rejected it still returns \<open>Ok\<close>, so \<open>connect\<close> does too.\<close>

theorem schema_apply_ignores_rejections:
  assumes "\<And>q w. \<exists>e. do_query ops q w = (Inr (Inl e), w)"
  shows "run ops schema_apply w = (Done (Inr ()), w)"
proof -
  have "run ops (query_unchecked ss) w = (Done (Inr ()), w)" for ss w
  proof -
    obtain e where "do_query ops (Statements ss) w = (Inr (Inl e), w)" using assms by blast
    then show ?thesis by (simp add: query_unchecked_def surreal_read_def prog_map_err_def prog_try_def)
  qed
  then show ?thesis by (simp add: schema_apply_def prog_try_def run_bind)
qed

lemma schema_apply_ignores_rejections_witness:
  "run ((mem_ops False)\<lparr>do_query := \<lambda>_ w. (Inr (Inl ''rejected''), w)\<rparr>) schema_apply empty_world =
     (Done (Inr ()), empty_world)"
  by (rule schema_apply_ignores_rejections) simp

end
