(* ===== verification/Blob_Storage.thy ===== *)
theory Blob_Storage
  imports Backend
begin

text \<open>
  \<open>crates/objectrecords-storage\<close>: the trait \<open>BlobStorage\<close> with its error and outcome types, the
  in-memory backend and the S3 one.

  The trait is the locale \<open>blob_storage\<close>: its methods are state functions on an unknown state and
  its documentation is the assumptions. The in-memory backend is a state function on the map under
  its mutex (no code panics while it holds the lock, so the lock is never poisoned). The S3 backend
  is a program over \<open>object_store\<close>; it meets the contract whenever \<open>object_store\<close> keeps
  \<open>object_store_sdk\<close>, but for \<open>delete\<close> of a missing key: S3 reports success there, where the trait and the
  in-memory backend report \<open>NotFound\<close> (locale \<open>strict_blob_storage\<close>).
\<close>

section \<open>Types\<close>

record blob_metadata =
  bm_size :: u64
  bm_etag :: "string option"

datatype blob_storage_error = BlobNotFound string | BlobBackend object_error

datatype put_outcome = Wrote | AlreadyExists

section \<open>The in-memory backend\<close>

type_synonym in_memory_storage = "string \<rightharpoonup> byte list"

definition in_memory_new :: in_memory_storage where
  "in_memory_new = Map.empty"

definition in_memory_put ::
  "string \<Rightarrow> byte list \<Rightarrow> in_memory_storage \<Rightarrow> (blob_storage_error + unit) \<times> in_memory_storage" where
  "in_memory_put key blob m = (Inr (), m(key \<mapsto> blob))"

definition in_memory_get ::
  "string \<Rightarrow> in_memory_storage \<Rightarrow> (blob_storage_error + byte list) \<times> in_memory_storage" where
  "in_memory_get key m = (ok_or (BlobNotFound key) (m key), m)"

definition in_memory_head ::
  "string \<Rightarrow> in_memory_storage \<Rightarrow> (blob_storage_error + blob_metadata) \<times> in_memory_storage" where
  "in_memory_head key m =
     (try_result (ok_or (BlobNotFound key) (m key)) (\<lambda>blob.
        Inr \<lparr>bm_size = of_nat (length blob), bm_etag = None\<rparr>), m)"

definition in_memory_delete ::
  "string \<Rightarrow> in_memory_storage \<Rightarrow> (blob_storage_error + unit) \<times> in_memory_storage" where
  "in_memory_delete key m =
     (case m key of
        Some _ \<Rightarrow> (Inr (), m(key := None))
      | None \<Rightarrow> (Inl (BlobNotFound key), m(key := None)))"

definition in_memory_put_if_absent ::
  "string \<Rightarrow> byte list \<Rightarrow> in_memory_storage \<Rightarrow> (blob_storage_error + put_outcome) \<times> in_memory_storage" where
  "in_memory_put_if_absent key blob m =
     (case m key of
        Some _ \<Rightarrow> (Inr AlreadyExists, m)
      | None \<Rightarrow> (Inr Wrote, m(key \<mapsto> blob)))"

section \<open>The S3 backend\<close>

definition blob_map_err :: "object_error \<Rightarrow> blob_storage_error" where
  "blob_map_err err = (case err of ObjNotFound path \<Rightarrow> BlobNotFound path | other \<Rightarrow> BlobBackend other)"

definition s3_from_config :: "s3_compat_config \<Rightarrow> (blob_storage_error + unit) prog" where
  "s3_from_config config = prog_map_err BlobBackend (S3Build config Ret)"

text \<open>A \<open>Duration\<close> is its number of seconds.\<close>

definition presign_put :: "'x crates_scheme \<Rightarrow> string \<Rightarrow> nat \<Rightarrow> (blob_storage_error + string) prog" where
  "presign_put ext key ttl = prog_map_err blob_map_err (ObjSign PUT (object_path ext key) ttl Ret)"

definition presign_get :: "'x crates_scheme \<Rightarrow> string \<Rightarrow> nat \<Rightarrow> (blob_storage_error + string) prog" where
  "presign_get ext key ttl = prog_map_err blob_map_err (ObjSign GET (object_path ext key) ttl Ret)"

fun put_parts :: "nat \<Rightarrow> byte list list \<Rightarrow> (blob_storage_error + unit) prog" where
  "put_parts upload [] = Ret (Inr ())"
| "put_parts upload (chunk # chunks) =
     prog_try (prog_map_err blob_map_err (ObjPutPart upload chunk Ret)) (\<lambda>_. put_parts upload chunks)"

definition multipart_put_chunks ::
  "'x crates_scheme \<Rightarrow> string \<Rightarrow> byte list list \<Rightarrow> (blob_storage_error + unit) prog" where
  "multipart_put_chunks ext key chunks =
     prog_try (prog_map_err blob_map_err (ObjMultipart (object_path ext key) Ret)) (\<lambda>upload.
     prog_try (put_parts upload chunks) (\<lambda>_.
     prog_try (prog_map_err blob_map_err (ObjComplete upload Ret)) (\<lambda>_.
     Ret (Inr ()))))"

definition s3_put :: "'x crates_scheme \<Rightarrow> string \<Rightarrow> byte list \<Rightarrow> (blob_storage_error + unit) prog" where
  "s3_put ext key blob = prog_map_err blob_map_err (ObjPut (object_path ext key) blob Ret)"

definition s3_get :: "'x crates_scheme \<Rightarrow> string \<Rightarrow> (blob_storage_error + byte list) prog" where
  "s3_get ext key = prog_map_err blob_map_err (ObjGet (object_path ext key) Ret)"

definition s3_head :: "'x crates_scheme \<Rightarrow> string \<Rightarrow> (blob_storage_error + blob_metadata) prog" where
  "s3_head ext key =
     prog_try (prog_map_err blob_map_err (ObjHead (object_path ext key) Ret)) (\<lambda>meta.
     Ret (Inr \<lparr>bm_size = om_size meta, bm_etag = om_e_tag meta\<rparr>))"

definition s3_delete :: "'x crates_scheme \<Rightarrow> string \<Rightarrow> (blob_storage_error + unit) prog" where
  "s3_delete ext key = prog_map_err blob_map_err (ObjDelete (object_path ext key) Ret)"

definition s3_put_if_absent ::
  "'x crates_scheme \<Rightarrow> string \<Rightarrow> byte list \<Rightarrow> (blob_storage_error + put_outcome) prog" where
  "s3_put_if_absent ext key blob =
     ObjPutCreate (object_path ext key) blob (\<lambda>r. Ret (case r of
       Inr _ \<Rightarrow> Inr Wrote
     | Inl (ObjAlreadyExists _) \<Rightarrow> Inr AlreadyExists
     | Inl other \<Rightarrow> Inl (blob_map_err other)))"

section \<open>The trait\<close>

text \<open>
  \<open>contents s k\<close> is the blob under \<open>k\<close>; \<open>same k k'\<close>: the two keys name one blob in the backend; nothing a
  method does reaches a key that is kept apart. \<open>fails\<close> says whether a call can fail for a reason of the backend's
  own. When it cannot, the contents determine every reply: \<open>get\<close> and \<open>head\<close> answer \<open>NotFound\<close> just when there is
  no blob, \<open>put_if_absent\<close> answers \<open>AlreadyExists\<close> just when there is one. A failed write may have happened or not.
\<close>

locale blob_storage =
  fixes put :: "string \<Rightarrow> byte list \<Rightarrow> 's \<Rightarrow> (blob_storage_error + unit) \<times> 's"
    and get :: "string \<Rightarrow> 's \<Rightarrow> (blob_storage_error + byte list) \<times> 's"
    and head :: "string \<Rightarrow> 's \<Rightarrow> (blob_storage_error + blob_metadata) \<times> 's"
    and delete :: "string \<Rightarrow> 's \<Rightarrow> (blob_storage_error + unit) \<times> 's"
    and put_if_absent :: "string \<Rightarrow> byte list \<Rightarrow> 's \<Rightarrow> (blob_storage_error + put_outcome) \<times> 's"
    and same :: "string \<Rightarrow> string \<Rightarrow> bool"
    and contents :: "'s \<Rightarrow> string \<Rightarrow> byte list option"
    and fails :: bool
  assumes same_refl: "same k k"
    and same_contents: "same k k' \<Longrightarrow> contents s k = contents s k'"
    and put_ok: "put k b s = (Inr (), s') \<Longrightarrow> contents s' k' = (if same k k' then Some b else contents s k')"
    and put_err: "put k b s = (Inl e, s') \<Longrightarrow> fails \<and>
      (contents s' k' = contents s k' \<or> same k k' \<and> contents s' k' = Some b)"
    and get_state: "get k s = (rg, s') \<Longrightarrow> contents s' k' = contents s k'"
    and get_reply: "get k s = (rg, s') \<Longrightarrow> (case contents s k of
        Some b \<Rightarrow> rg = Inr b \<or> fails \<and> (\<exists>e. rg = Inl (BlobBackend e))
      | None \<Rightarrow> (\<exists>p. rg = Inl (BlobNotFound p)) \<or> fails \<and> (\<exists>e. rg = Inl (BlobBackend e)))"
    and head_state: "head k s = (rh, s') \<Longrightarrow> contents s' k' = contents s k'"
    and head_reply: "head k s = (rh, s') \<Longrightarrow> (case contents s k of
        Some b \<Rightarrow> (\<exists>m. rh = Inr m \<and> bm_size m = of_nat (length b)) \<or> fails \<and> (\<exists>e. rh = Inl (BlobBackend e))
      | None \<Rightarrow> (\<exists>p. rh = Inl (BlobNotFound p)) \<or> fails \<and> (\<exists>e. rh = Inl (BlobBackend e)))"
    and delete_ok: "delete k s = (Inr (), s') \<Longrightarrow> contents s' k' = (if same k k' then None else contents s k')"
    and delete_missing: "delete k s = (Inl (BlobNotFound p), s') \<Longrightarrow> contents s k = None \<and> contents s' k' = contents s k'"
    and delete_err: "delete k s = (Inl (BlobBackend oe), s') \<Longrightarrow> fails \<and>
      (contents s' k' = contents s k' \<or> same k k' \<and> contents s' k' = None)"
    and create_wrote: "put_if_absent k b s = (Inr Wrote, s') \<Longrightarrow>
      contents s k = None \<and> contents s' k' = (if same k k' then Some b else contents s k')"
    and create_exists: "put_if_absent k b s = (Inr AlreadyExists, s') \<Longrightarrow>
      contents s k \<noteq> None \<and> contents s' k' = contents s k'"
    and create_err: "put_if_absent k b s = (Inl e, s') \<Longrightarrow> fails \<and>
      (contents s' k' = contents s k' \<or> contents s k' = None \<and> same k k' \<and> contents s' k' = Some b)"
begin

text \<open>A blob that is there survives every conditional write, whoever makes it and however it ends.\<close>

lemma create_keeps:
  assumes "put_if_absent k b s = (r, s')" "contents s k' = Some b'"
  shows "contents s' k' = Some b'"
proof (cases r)
  case (Inl e)
  with assms have "contents s' k' = contents s k' \<or> contents s k' = None" using create_err [of k b s e s' k'] by auto
  with assms(2) show ?thesis by auto
next
  case (Inr out)
  show ?thesis
  proof (cases out)
    case Wrote
    then have "contents s k = None" "contents s' k' = (if same k k' then Some b else contents s k')"
      using assms(1) Inr create_wrote by blast+
    then show ?thesis using assms(2) same_contents by (auto split: if_splits)
  next
    case AlreadyExists
    then have "contents s' k' = contents s k'" using assms(1) Inr create_exists by blast
    with assms(2) show ?thesis by simp
  qed
qed

lemma creates_keep:
  "contents s k = Some b \<Longrightarrow> contents (fold (\<lambda>(k, b) s. snd (put_if_absent k b s)) ws s) k = Some b"
proof (induction ws arbitrary: s)
  case (Cons kb ws)
  obtain k' b' where kb: "kb = (k', b')" by (cases kb)
  have "contents (snd (put_if_absent k' b' s)) k = Some b"
    by (rule create_keeps [of k' b' s "fst (put_if_absent k' b' s)"]) (simp_all add: Cons.prems)
  from Cons.IH [OF this] show ?case by (simp add: kb)
qed simp

lemma first_create_wins:
  assumes "put_if_absent k b s = (Inr out, s')"
  obtains b' where "contents s' k = Some b'" "contents (fold (\<lambda>(k, b) s. snd (put_if_absent k b s)) ws s') k = Some b'"
    "out = Wrote \<Longrightarrow> b' = b" "out = AlreadyExists \<Longrightarrow> contents s k = Some b'"
proof -
  have "\<exists>b'. contents s' k = Some b' \<and> (out = Wrote \<longrightarrow> b' = b) \<and> (out = AlreadyExists \<longrightarrow> contents s k = Some b')"
  proof (cases out)
    case Wrote
    then have "contents s' k = Some b" using assms create_wrote [of k b s s' k] same_refl by simp
    with Wrote show ?thesis by simp
  next
    case AlreadyExists
    then have "contents s k \<noteq> None" "contents s' k = contents s k" using assms create_exists by blast+
    with AlreadyExists show ?thesis by auto
  qed
  then show ?thesis using that creates_keep by blast
qed

end

text \<open>The trait also asks that \<open>delete\<close> of a missing key answers \<open>NotFound\<close>.\<close>

locale strict_blob_storage = blob_storage +
  assumes delete_absent: "contents s k = None \<Longrightarrow> delete k s = (rd, s') \<Longrightarrow>
    (\<exists>p. rd = Inl (BlobNotFound p)) \<or> fails \<and> (\<exists>e. rd = Inl (BlobBackend e))"

section \<open>The two backends\<close>

interpretation in_memory: strict_blob_storage in_memory_put in_memory_get in_memory_head in_memory_delete
    in_memory_put_if_absent "(=)" "\<lambda>m. m" False
  by unfold_locales
    (auto simp: in_memory_put_def in_memory_get_def in_memory_head_def in_memory_delete_def
      in_memory_put_if_absent_def ok_or_def try_result_def split: option.splits sum.splits if_splits)

text \<open>The S3 backend as a state function on the world; none of its programs panics.\<close>

definition on_world :: "'w world_ops \<Rightarrow> (blob_storage_error + 'a) prog \<Rightarrow> 'w \<Rightarrow> (blob_storage_error + 'a) \<times> 'w" where
  "on_world ops p w =
     (case run ops p w of
        (Done r, w') \<Rightarrow> (r, w')
      | (Panicked m, w') \<Rightarrow> (Inl (BlobBackend (ObjOther m)), w'))"

lemma on_world_s3:
  "on_world ops (s3_put ext k b) w = (case do_obj_put ops (object_path ext k) b w of (r, w') \<Rightarrow> (map_err blob_map_err r, w'))"
  "on_world ops (s3_get ext k) w = (case do_obj_get ops (object_path ext k) w of (r', w') \<Rightarrow> (map_err blob_map_err r', w'))"
  "on_world ops (s3_head ext k) w = (case do_obj_head ops (object_path ext k) w of (rh, w') \<Rightarrow>
     (map_ok (\<lambda>m. \<lparr>bm_size = om_size m, bm_etag = om_e_tag m\<rparr>) (map_err blob_map_err rh), w'))"
  "on_world ops (s3_delete ext k) w = (case do_obj_delete ops (object_path ext k) w of (rd, w') \<Rightarrow> (map_err blob_map_err rd, w'))"
  "on_world ops (s3_put_if_absent ext k b) w = (case do_obj_put_create ops (object_path ext k) b w of (rc, w') \<Rightarrow>
     (case rc of Inr _ \<Rightarrow> Inr Wrote | Inl (ObjAlreadyExists _) \<Rightarrow> Inr AlreadyExists | Inl other \<Rightarrow> Inl (blob_map_err other), w'))"
  by (simp_all add: on_world_def s3_put_def s3_get_def s3_head_def s3_delete_def s3_put_if_absent_def
      prog_map_err_def prog_try_def map_err_def map_ok_def split: prod.splits sum.splits)

lemma result_map_eqs:
  "map_err f r = Inl e \<longleftrightarrow> (\<exists>e'. r = Inl e' \<and> f e' = e)"
  "map_ok g r' = Inr y \<longleftrightarrow> (\<exists>x. r' = Inr x \<and> g x = y)"
  "map_ok g r' = Inl e'' \<longleftrightarrow> r' = Inl e''"
  by (cases r, simp_all) (cases r', simp_all)+

lemma blob_map_err_missing: "blob_map_err e = BlobNotFound p \<longleftrightarrow> e = ObjNotFound p"
  by (cases e) (auto simp: blob_map_err_def)

context object_store_sdk
begin

lemma s3_blob_storage:
  "blob_storage (\<lambda>k b. on_world ops (s3_put ext k b)) (\<lambda>k. on_world ops (s3_get ext k))
    (\<lambda>k. on_world ops (s3_head ext k)) (\<lambda>k. on_world ops (s3_delete ext k))
    (\<lambda>k b. on_world ops (s3_put_if_absent ext k b))
    (\<lambda>k k'. object_path ext k = object_path ext k') (\<lambda>w k. blobs w (object_path ext k)) (store_can_fail ops)"
proof (unfold_locales, goal_cases)
  case (3 k b s s' k')
  then show ?case by (auto simp: on_world_s3 map_err_eq_Inr dest!: obj_put_ok split: prod.splits)
next
  case (4 k b s e s' k')
  then show ?case
    by (auto simp: on_world_s3 result_map_eqs store_can_fail.put_lost dest: obj_put_err split: prod.splits if_splits)
next
  case (5 k s rg s' k')
  then show ?case by (auto simp: on_world_s3 dest!: obj_get_blobs split: prod.splits)
next
  case (6 k s rg s')
  then obtain r where r: "do_obj_get ops (object_path ext k) s = (r, s')" "rg = map_err blob_map_err r"
    by (auto simp: on_world_s3 split: prod.splits)
  then show ?case
    using obj_get_ok [of "object_path ext k" s _ s'] obj_get_missing [of "object_path ext k" s _ s']
      store_can_fail.get_lost [of ops "object_path ext k" s _ s']
    by (cases r) (auto simp: blob_map_err_def map_err_def split: option.splits object_error.splits)
next
  case (7 k s rh s' k')
  then show ?case by (auto simp: on_world_s3 dest!: obj_head_blobs split: prod.splits)
next
  case (8 k s rh s')
  then obtain r where r: "do_obj_head ops (object_path ext k) s = (r, s')"
      "rh = map_ok (\<lambda>m. \<lparr>bm_size = om_size m, bm_etag = om_e_tag m\<rparr>) (map_err blob_map_err r)"
    by (auto simp: on_world_s3 split: prod.splits)
  then show ?case
    using obj_head_ok [of "object_path ext k" s _ s'] obj_head_missing [of "object_path ext k" s _ s']
      store_can_fail.head_lost [of ops "object_path ext k" s _ s']
    by (cases r) (auto simp: blob_map_err_def map_err_def map_ok_def split: option.splits object_error.splits)
next
  case (9 k s s' k')
  then show ?case by (auto simp: on_world_s3 map_err_eq_Inr dest!: obj_delete_ok split: prod.splits)
next
  case (10 k s p s' k')
  then show ?case
    by (auto simp: on_world_s3 result_map_eqs blob_map_err_missing dest!: obj_delete_missing split: prod.splits)
next
  case (11 k s e s' k')
  then obtain e' where d: "do_obj_delete ops (object_path ext k) s = (Inl e', s')" "\<nexists>q. e' = ObjNotFound q"
    by (auto simp: on_world_s3 result_map_eqs split: prod.splits) (metis blob_map_err_missing blob_storage_error.distinct(1))
  then show ?case using obj_delete_err [OF d(1)] store_can_fail.delete_lost [OF d] by (auto split: if_splits)
next
  case (12 k b s s' k')
  then show ?case
    by (auto simp: on_world_s3 dest!: obj_put_create_ok split: prod.splits sum.splits object_error.splits)
next
  case (13 k b s s' k')
  then show ?case
    by (auto simp: on_world_s3 dest!: obj_put_create_exists split: prod.splits sum.splits object_error.splits)
next
  case (14 k b s e s' k')
  then obtain e' where e': "do_obj_put_create ops (object_path ext k) b s = (Inl e', s')" "\<nexists>q. e' = ObjAlreadyExists q"
    by (auto simp: on_world_s3 split: prod.splits sum.splits object_error.splits)
  then show ?case using obj_put_create_err [OF e'(1)] store_can_fail.create_lost [OF e'] by (auto split: if_splits)
qed simp_all

end

interpretation mem_s3: blob_storage "\<lambda>k b. on_world (mem_ops f) (s3_put mem_crates k b)"
    "\<lambda>k. on_world (mem_ops f) (s3_get mem_crates k)" "\<lambda>k. on_world (mem_ops f) (s3_head mem_crates k)"
    "\<lambda>k. on_world (mem_ops f) (s3_delete mem_crates k)" "\<lambda>k b. on_world (mem_ops f) (s3_put_if_absent mem_crates k b)"
    "\<lambda>k k'. object_path mem_crates k = object_path mem_crates k'" "\<lambda>w k. mem_blobs w (object_path mem_crates k)"
    "store_can_fail (mem_ops f)"
  by (rule mem_store.s3_blob_storage)

section \<open>Properties\<close>

text \<open>The in-memory backend keeps the contract of the trait \<open>BlobStorage\<close>, and never fails.\<close>

lemma in_memory_meets_contract:
  "strict_blob_storage in_memory_put in_memory_get in_memory_head in_memory_delete in_memory_put_if_absent (=) (\<lambda>m. m) False"
  by (rule in_memory.strict_blob_storage_axioms)

text \<open>C28: over any object store that keeps S3's own laws, the S3 backend keeps every obligation of the
  trait but one, and reports a backend failure only when a call of the object store can fail; two keys name
  one blob when they are the same object path. The exception is \<open>delete\<close> of a missing key: where the object
  store accepts it, as S3 does, the backend answers success, and the trait documents \<open>NotFound\<close>.\<close>

theorem s3_meets_contract:
  assumes "object_store_sdk ops blobs"
  shows "blob_storage (\<lambda>k b. on_world ops (s3_put ext k b)) (\<lambda>k. on_world ops (s3_get ext k))
    (\<lambda>k. on_world ops (s3_head ext k)) (\<lambda>k. on_world ops (s3_delete ext k))
    (\<lambda>k b. on_world ops (s3_put_if_absent ext k b))
    (\<lambda>k k'. object_path ext k = object_path ext k') (\<lambda>w k. blobs w (object_path ext k)) (store_can_fail ops) \<and>
    (blobs w (object_path ext k) = None \<and> do_obj_delete ops (object_path ext k) w = (Inr (), w') \<longrightarrow>
     on_world ops (s3_delete ext k) w = (Inr (), w'))"
  using object_store_sdk.s3_blob_storage [OF assms] by (simp add: on_world_s3)

lemma s3_meets_contract_witness:
  "blob_storage (\<lambda>k b. on_world (mem_ops True) (s3_put mem_crates k b)) (\<lambda>k. on_world (mem_ops True) (s3_get mem_crates k))
    (\<lambda>k. on_world (mem_ops True) (s3_head mem_crates k)) (\<lambda>k. on_world (mem_ops True) (s3_delete mem_crates k))
    (\<lambda>k b. on_world (mem_ops True) (s3_put_if_absent mem_crates k b))
    (\<lambda>k k'. object_path mem_crates k = object_path mem_crates k') (\<lambda>w k. mem_blobs w (object_path mem_crates k))
    (store_can_fail (mem_ops True)) \<and>
   on_world (mem_ops True) (s3_delete mem_crates ''absent'') empty_world = (Inr (), empty_world)"
  using s3_meets_contract [OF mem_store.object_store_sdk_axioms, of True mem_crates empty_world "''absent''" empty_world]
  by (simp add: mem_obj_simps mem_call_def empty_world_def mem_blobs_def)

text \<open>C29: the first conditional write under a key decides its blob: once one has answered, the key
  holds its bytes (or, when it lost, those that were there), and every later conditional write, to
  whatever key and however it ends, leaves them in place.\<close>

theorem first_conditional_write_wins:
  assumes "object_store_sdk ops blobs"
    and "on_world ops (s3_put_if_absent ext k b) w = (Inr out, w')"
  shows "\<exists>b'. blobs w' (object_path ext k) = Some b' \<and>
     blobs (fold (\<lambda>(k, b) s. snd (on_world ops (s3_put_if_absent ext k b) s)) ws w') (object_path ext k) = Some b' \<and>
     b' = (case out of Wrote \<Rightarrow> b | AlreadyExists \<Rightarrow> the (blobs w (object_path ext k)))"
proof -
  obtain b' where "blobs w' (object_path ext k) = Some b'"
    "blobs (fold (\<lambda>(k, b) s. snd (on_world ops (s3_put_if_absent ext k b) s)) ws w') (object_path ext k) = Some b'"
    "out = Wrote \<Longrightarrow> b' = b" "out = AlreadyExists \<Longrightarrow> blobs w (object_path ext k) = Some b'"
    using blob_storage.first_create_wins [OF object_store_sdk.s3_blob_storage [OF assms(1)] assms(2)] by blast
  then show ?thesis by (cases out) auto
qed

lemma first_conditional_write_wins_witness:
  "\<exists>b'. mem_blobs (mem_put ''fixed/ab'' [1] empty_world) (object_path mem_crates ''/fixed/ab'') = Some b' \<and>
     mem_blobs (fold (\<lambda>(k, b) s. snd (on_world (mem_ops True) (s3_put_if_absent mem_crates k b) s)) [(''/fixed/ab'', [2])]
       (mem_put ''fixed/ab'' [1] empty_world)) (object_path mem_crates ''/fixed/ab'') = Some b' \<and>
     b' = (case Wrote of Wrote \<Rightarrow> [1] | AlreadyExists \<Rightarrow> the (mem_blobs empty_world (object_path mem_crates ''/fixed/ab'')))"
proof (rule first_conditional_write_wins [OF mem_store.object_store_sdk_axioms])
  show "on_world (mem_ops True) (s3_put_if_absent mem_crates ''/fixed/ab'' [1]) empty_world =
      (Inr Wrote, mem_put ''fixed/ab'' [1] empty_world)"
    by (simp add: on_world_s3 mem_obj_simps mem_call_def empty_world_def mem_blobs_def mem_crates_def)
qed

end
