(* ===== verification/Api_Types.thy ===== *)
theory Api_Types
  imports Schema Blob_Storage
begin

text \<open>
  Shared types of \<open>crates/objectrecords-api\<close>: \<open>error.rs\<close>, the request and response values, the
  claims and the verifier (\<open>auth.rs\<close>), \<open>AppState\<close> (\<open>lib.rs\<close>), and the pure functions of the crates
  the API calls. Opaque third-party values (a JWKS, a decoding key, a JSON value) are texts.

  An axum \<open>Response\<close> is \<open>api_error + api_response\<close>: a handler's \<open>Result\<close> is the response its
  \<open>IntoResponse\<close> makes of it.
\<close>

section \<open>Errors\<close>

datatype api_error =
    Unauthorized
  | NotFound
  | ApiAlreadyExists
  | BadRequest string
  | StateConflict (expected_state: string) (actual_state: string)
  | HashMismatch (expected_hash: string) (actual_hash: string)
  | Forbidden string
  | PayloadTooLarge nat nat
  | Internal

definition status_and_kind :: "api_error \<Rightarrow> nat \<times> string" where
  "status_and_kind e =
     (case e of
        Unauthorized \<Rightarrow> (401, ''Unauthorized'')
      | NotFound \<Rightarrow> (404, ''NotFound'')
      | ApiAlreadyExists \<Rightarrow> (409, ''AlreadyExists'')
      | BadRequest _ \<Rightarrow> (400, ''BadRequest'')
      | StateConflict _ _ \<Rightarrow> (409, ''StateConflict'')
      | HashMismatch _ _ \<Rightarrow> (400, ''HashMismatch'')
      | Forbidden _ \<Rightarrow> (403, ''Forbidden'')
      | PayloadTooLarge _ _ \<Rightarrow> (413, ''PayloadTooLarge'')
      | Internal \<Rightarrow> (500, ''Internal''))"

definition api_error_from :: "db_error \<Rightarrow> api_error" where
  "api_error_from err =
     (case err of
        DbAlreadyExists _ \<Rightarrow> ApiAlreadyExists
      | StateMismatch actual requested \<Rightarrow> StateConflict requested actual
      | UnknownState _ \<Rightarrow> Internal
      | UnknownKind _ \<Rightarrow> Internal
      | EmptyVersionChain _ \<Rightarrow> Internal
      | MissingContentHash _ \<Rightarrow> Internal
      | UnexpectedContentHash _ _ \<Rightarrow> Internal
      | MalformedHash _ \<Rightarrow> Internal
      | SaveSnapshotRequiresExplicitMethod \<Rightarrow> Internal
      | Surreal _ \<Rightarrow> Internal)"

text \<open>Decimal text of a number, as \<open>{}\<close> prints it.\<close>

function decimal :: "nat \<Rightarrow> string" where
  "decimal n = (if n < 10 then [char_of (48 + n)] else decimal (n div 10) @ [char_of (48 + n mod 10)])"
  by auto

termination
  by (relation "measure id") auto

declare decimal.simps [simp del]

text \<open>\<open>Display\<close> of an error, and its HTTP response: the status and the JSON body.\<close>

record error_body =
  eb_error :: string
  eb_kind :: string

definition api_error_to_string :: "api_error \<Rightarrow> string" where
  "api_error_to_string e =
     (case e of
        Unauthorized \<Rightarrow> ''unauthorized''
      | NotFound \<Rightarrow> ''record not found''
      | ApiAlreadyExists \<Rightarrow> ''record already exists''
      | BadRequest m \<Rightarrow> ''bad request: '' @ m
      | StateConflict expected actual \<Rightarrow>
          ''state conflict: record is '' @ actual @ '', operation expects '' @ expected
      | HashMismatch expected actual \<Rightarrow>
          ''content hash mismatch: expected '' @ expected @ '', got '' @ actual
      | Forbidden m \<Rightarrow> ''forbidden: '' @ m
      | PayloadTooLarge actual mx \<Rightarrow>
          ''payload too large: '' @ decimal actual @ '' bytes (limit '' @ decimal mx @ '')''
      | Internal \<Rightarrow> ''internal server error'')"

definition into_response :: "api_error \<Rightarrow> nat \<times> error_body" where
  "into_response e =
     (let (status, kind) = status_and_kind e in
      (status, \<lparr>eb_error = api_error_to_string e, eb_kind = kind\<rparr>))"

section \<open>Third-party functions\<close>

type_synonym jwk_set = string
type_synonym jwk = string
type_synonym decoding_key = string

record claims =
  cl_sub :: string
  cl_aud :: string
  cl_iss :: string
  cl_exp :: int
  cl_iat :: "int option"
  cl_act :: "string option"
  cl_scope :: string

text \<open>\<open>jwt_decode token key audience issuer\<close>: \<open>jsonwebtoken::decode\<close> with an RS256 \<open>Validation\<close> for that
  audience and issuer.\<close>

record api_crates = crates +
  header_to_str :: "string \<Rightarrow> string option"
  jwks_from_json :: "string \<Rightarrow> string + jwk_set"
  jwt_decode_header :: "string \<Rightarrow> string + string option"
  jwks_find :: "jwk_set \<Rightarrow> string \<Rightarrow> jwk option"
  key_from_jwk :: "jwk \<Rightarrow> string + decoding_key"
  jwt_decode :: "string \<Rightarrow> decoding_key \<Rightarrow> string \<Rightarrow> string \<Rightarrow> string + claims"
  base64_decode :: "string \<Rightarrow> string + byte list"
  sha256 :: "byte list \<Rightarrow> byte list"
  lower_hex :: "byte list \<Rightarrow> string"
    \<comment> \<open>\<open>{:x}\<close> of a digest\<close>
  unicode_lowercase :: "string \<Rightarrow> string"
    \<comment> \<open>\<open>to_lowercase\<close> of a text that is not ASCII\<close>

section \<open>State, requests, responses\<close>

record auth0_verifier =
  av_jwks :: jwk_set
  av_audience :: string
  av_issuer :: string

datatype s3_compat_storage = S3CompatStorage

record app_state =
  as_auth :: "auth0_verifier option"
  as_storage :: "s3_compat_storage option"

definition app_state_new :: app_state where
  "app_state_new = \<lparr>as_auth = None, as_storage = None\<rparr>"

definition app_state_with_auth :: "auth0_verifier \<Rightarrow> app_state" where
  "app_state_with_auth verifier = \<lparr>as_auth = Some verifier, as_storage = None\<rparr>"

definition app_state_with_storage :: "s3_compat_storage \<Rightarrow> app_state \<Rightarrow> app_state" where
  "app_state_with_storage storage st = st\<lparr>as_storage := Some storage\<rparr>"

text \<open>A request as the middleware sees it: its headers (first of a name wins, names in lower case)
  and the extensions the middleware attaches.\<close>

record request =
  rq_headers :: "(string \<times> string) list"
  rq_claims :: "claims option"
  rq_or_user :: "or_user option"
  rq_mcp_client :: "string option"

record asset_upload_response =
  au_key :: string
  au_size :: u64
  au_sha256 :: string
  au_outcome :: string

datatype api_response =
    HealthResponse string
  | RowResponse (resp_status: nat) (resp_location: "string option") (resp_row: persisted_row)
  | AssetResponse (asset_status: nat) asset_upload_response

type_synonym response = "api_error + api_response"

text \<open>\<open>.await.map_err(ApiError::from)?\<close>.\<close>

definition api_call :: "(db_error + 'a) prog \<Rightarrow> (api_error + 'a) prog" where
  "api_call p = prog_map_err api_error_from p"

text \<open>A pure function that may panic, inside an async one.\<close>

primrec of_outcome :: "'a outcome \<Rightarrow> 'a prog" where
  "of_outcome (Done x) = Ret x"
| "of_outcome (Panicked m) = Panic m"

lemma wp_api_call [simp]: "wp ops (api_call p) Q w = wp ops p (\<lambda>r. Q (map_err api_error_from r)) w"
  by (simp add: api_call_def)

section \<open>Digests\<close>

text \<open>What the API relies on in \<open>sha2\<close> and in the keys of \<open>object_store\<close>: a digest has 32 bytes,
  \<open>{:x}\<close> prints it in lower-case hexadecimal, and the content-addressed keys of the two prefixes
  are different object paths.\<close>

locale digests =
  fixes ext :: "'x api_crates_scheme"
  assumes sha256_length: "length (sha256 ext b) = 32"
    and lower_hex_text: "lower_hex ext bs = hash_to_string (Sha256Hash bs)"
    and content_paths:
      "p \<in> {''/assets/'', ''/fixed/''} \<Longrightarrow> q \<in> {''/assets/'', ''/fixed/''} \<Longrightarrow> hex64 h \<Longrightarrow> hex64 k \<Longrightarrow>
       object_path ext (p @ h) = object_path ext (q @ k) \<Longrightarrow> p = q \<and> h = k"
begin

lemma digest_wf: "hash_wf (Sha256Hash (sha256 ext b))"
  by (simp add: hash_wf_def sha256_length)

lemma digest_hex64: "hex64 (lower_hex ext (sha256 ext b))"
  unfolding lower_hex_text by (rule hash_to_string_hex64 [OF digest_wf])

end

section \<open>The in-memory crates\<close>

text \<open>
  A concrete choice of the third-party functions for the examples. A token is \<open>sub scope\<close> separated
  by a comma; its key id is always \<open>k1\<close>; the digest of a text is its first 32 bytes, padded.
\<close>

definition mem_jwt_decode :: "string \<Rightarrow> decoding_key \<Rightarrow> string \<Rightarrow> string \<Rightarrow> string + claims" where
  "mem_jwt_decode token key aud iss =
     (case split_once CHR '','' token of
        None \<Rightarrow> Inl ''InvalidToken''
      | Some (sub, scope) \<Rightarrow>
          Inr \<lparr>cl_sub = sub, cl_aud = aud, cl_iss = iss, cl_exp = 0, cl_iat = None, cl_act = None, cl_scope = scope\<rparr>)"

definition mem_api_crates :: api_crates where
  "mem_api_crates = crates.extend mem_crates
     \<lparr>header_to_str = (\<lambda>v. if list_all (\<lambda>c. 32 \<le> byte_of c \<and> byte_of c < 127) v then Some v else None),
      jwks_from_json = (\<lambda>s. if s = [] then Inl ''EOF'' else Inr s),
      jwt_decode_header = (\<lambda>t. Inr (Some ''k1'')),
      jwks_find = (\<lambda>set kid. if set = kid then Some kid else None),
      key_from_jwk = Inr,
      jwt_decode = mem_jwt_decode,
      base64_decode = (\<lambda>s. Inr (map byte_of s)),
      sha256 = (\<lambda>b. take 32 (b @ replicate 32 0)),
      lower_hex = (\<lambda>d. hash_to_string (Sha256Hash d)),
      unicode_lowercase = (\<lambda>s. s)\<rparr>"

lemma mem_api_crates_simps [simp]:
  "uuid_to_string mem_api_crates = uuid_to_string mem_crates"
  "uuid_parse_str mem_api_crates = uuid_parse_str mem_crates"
  "thing_to_string mem_api_crates = thing_to_string mem_crates"
  "object_path mem_api_crates = object_path mem_crates"
  "sha256 mem_api_crates b = take 32 (b @ replicate 32 0)"
  "lower_hex mem_api_crates d = hash_to_string (Sha256Hash d)"
  by (simp_all add: mem_api_crates_def crates.defs mem_crates_def)

lemma mem_api_backend: "backend mem_api_crates (mem_ops f) mw_tables mem_blobs"
proof -
  have "thing_text mem_api_crates"
    using mem_text.thing_text_axioms by (simp add: thing_text_def)
  moreover have "surreal_sdk_axioms mem_api_crates (mem_ops f) mw_tables"
    using mem_sdk.surreal_sdk_axioms [of f, unfolded surreal_sdk_def surreal_sdk_axioms_def, THEN conjunct2]
    unfolding surreal_sdk_axioms_def mem_api_crates_simps by this
  ultimately show ?thesis
    using mem.backend_axioms [of f] by (simp add: backend_def surreal_sdk_def)
qed

interpretation mem_api: backend mem_api_crates "mem_ops f" mw_tables mem_blobs
  by (rule mem_api_backend)

interpretation mem_digests: digests mem_api_crates
proof
  fix p q h k :: string
  assume "p \<in> {''/assets/'', ''/fixed/''}" "q \<in> {''/assets/'', ''/fixed/''}" "hex64 h" "hex64 k"
    "object_path mem_api_crates (p @ h) = object_path mem_api_crates (q @ k)"
  then show "p = q \<and> h = k"
    by (auto simp: mem_crates_def)
qed simp_all

end
