(* ===== verification/Startup.thy ===== *)
theory Startup
  imports Api_Types
begin

text \<open>
  \<open>crates/objectrecords-api/src/storage.rs\<close>, the environment part of \<open>auth.rs\<close>, and \<open>main.rs\<close> up
  to the call of \<open>build_router\<close>. \<open>vars\<close> is \<open>env::var(\<dots>).ok()\<close>. Binding the socket and serving are
  left to tokio and axum.
\<close>

section \<open>Storage environment\<close>

definition ENV_S3_ENDPOINT :: string where "ENV_S3_ENDPOINT = ''OBJECTRECORDS_S3_ENDPOINT''"
definition ENV_S3_BUCKET :: string where "ENV_S3_BUCKET = ''OBJECTRECORDS_S3_BUCKET''"
definition ENV_S3_REGION :: string where "ENV_S3_REGION = ''OBJECTRECORDS_S3_REGION''"
definition ENV_S3_ACCESS_KEY :: string where "ENV_S3_ACCESS_KEY = ''OBJECTRECORDS_S3_ACCESS_KEY''"
definition ENV_S3_SECRET_KEY :: string where "ENV_S3_SECRET_KEY = ''OBJECTRECORDS_S3_SECRET_KEY''"
definition ENV_S3_ALLOW_HTTP :: string where "ENV_S3_ALLOW_HTTP = ''OBJECTRECORDS_S3_ALLOW_HTTP''"

datatype storage_env = StorageDisabled | StorageEnabled s3_compat_config

definition missing_names :: "(string \<times> string option) list \<Rightarrow> string" where
  "missing_names xs = join '', '' (List.map_filter (\<lambda>(name, v). if v = None then Some name else None) xs)"

definition storage_env_from_vars ::
  "(string \<Rightarrow> string) \<Rightarrow> (string \<Rightarrow> string option) \<Rightarrow> string + storage_env" where
  "storage_env_from_vars uni get =
     (let endpoint = get ENV_S3_ENDPOINT; bucket = get ENV_S3_BUCKET;
          access_key = get ENV_S3_ACCESS_KEY; secret_key = get ENV_S3_SECRET_KEY in
      case (endpoint, bucket, access_key, secret_key) of
        (None, None, None, None) \<Rightarrow> Inr StorageDisabled
      | (Some e, Some b, Some a, Some s) \<Rightarrow>
          Inr (StorageEnabled
            \<lparr>s3_endpoint = e,
             s3_region = (case get ENV_S3_REGION of Some r \<Rightarrow> r | None \<Rightarrow> ''us-east-1''),
             s3_bucket = b, s3_access_key = a, s3_secret_key = s,
             s3_allow_http = (case get ENV_S3_ALLOW_HTTP of
                 Some v \<Rightarrow> to_lowercase uni v \<in> {''1'', ''true'', ''yes'', ''on''} | None \<Rightarrow> False)\<rparr>)
      | _ \<Rightarrow> Inl (missing_names
            [(ENV_S3_ENDPOINT, endpoint), (ENV_S3_BUCKET, bucket),
             (ENV_S3_ACCESS_KEY, access_key), (ENV_S3_SECRET_KEY, secret_key)]))"

section \<open>Auth environment\<close>

definition ENV_AUTH0_AUDIENCE :: string where "ENV_AUTH0_AUDIENCE = ''OBJECTRECORDS_AUTH0_AUDIENCE''"
definition ENV_AUTH0_ISSUER :: string where "ENV_AUTH0_ISSUER = ''OBJECTRECORDS_AUTH0_ISSUER''"
definition ENV_AUTH0_JWKS_URL :: string where "ENV_AUTH0_JWKS_URL = ''OBJECTRECORDS_AUTH0_JWKS_URL''"

datatype auth_env = AuthDisabled | AuthEnabled (env_audience: string) (env_issuer: string) (env_jwks_url: string)

definition auth_env_from_vars :: "(string \<Rightarrow> string option) \<Rightarrow> string + auth_env" where
  "auth_env_from_vars get =
     (let audience = get ENV_AUTH0_AUDIENCE; issuer = get ENV_AUTH0_ISSUER; jwks_url = get ENV_AUTH0_JWKS_URL in
      case (audience, issuer, jwks_url) of
        (None, None, None) \<Rightarrow> Inr AuthDisabled
      | (Some a, Some i, Some j) \<Rightarrow> Inr (AuthEnabled a i j)
      | _ \<Rightarrow> Inl (missing_names
            [(ENV_AUTH0_AUDIENCE, audience), (ENV_AUTH0_ISSUER, issuer), (ENV_AUTH0_JWKS_URL, jwks_url)]))"

section \<open>Startup\<close>

datatype startup_error =
    StartDb db_error
  | StartAuthEnv string
  | StartHttp string
  | StartJwks string
  | StartStorageEnv string
  | StartStorage blob_storage_error

definition from_jwks_json :: "'x api_crates_scheme \<Rightarrow> string \<Rightarrow> string \<Rightarrow> string \<Rightarrow> string + auth0_verifier" where
  "from_jwks_json ext jwks_json audience issuer =
     try_result (jwks_from_json ext jwks_json) (\<lambda>jwks.
     Inr \<lparr>av_jwks = jwks, av_audience = audience, av_issuer = issuer\<rparr>)"

definition env_or :: "(string \<Rightarrow> string option) \<Rightarrow> string \<Rightarrow> string \<Rightarrow> string" where
  "env_or vars key dflt = (case vars key of Some v \<Rightarrow> v | None \<Rightarrow> dflt)"

definition non_blank :: "(string \<Rightarrow> string option) \<Rightarrow> string \<Rightarrow> string option" where
  "non_blank vars key = (case vars key of Some v \<Rightarrow> if trim_is_empty v then None else Some v | None \<Rightarrow> None)"

definition config_from_env :: "(string \<Rightarrow> string option) \<Rightarrow> db_config" where
  "config_from_env vars =
     \<lparr>cfg_endpoint = env_or vars ''OBJECTRECORDS_SURREAL_ENDPOINT'' ''ws://127.0.0.1:12000'',
      cfg_namespace = env_or vars ''OBJECTRECORDS_SURREAL_NAMESPACE'' ''objectrecords'',
      cfg_database = env_or vars ''OBJECTRECORDS_SURREAL_DATABASE'' ''main'',
      cfg_username = env_or vars ''OBJECTRECORDS_SURREAL_USERNAME'' ''admin'',
      cfg_password = env_or vars ''OBJECTRECORDS_SURREAL_PASSWORD'' ''admin-local-dev''\<rparr>"

definition startup ::
  "'x api_crates_scheme \<Rightarrow> (string \<Rightarrow> string option) \<Rightarrow> (startup_error + app_state) prog" where
  "startup ext vars =
     prog_try (prog_map_err StartDb (connect (config_from_env vars))) (\<lambda>_.
     ret_try (map_err StartAuthEnv (auth_env_from_vars (non_blank vars))) (\<lambda>auth_env.
     prog_try (case auth_env of
         AuthDisabled \<Rightarrow> Ret (Inr app_state_new)
       | AuthEnabled audience issuer jwks_url \<Rightarrow>
           prog_try (prog_map_err StartHttp (HttpGetText jwks_url Ret)) (\<lambda>jwks_json.
           ret_try (map_err StartJwks (from_jwks_json ext jwks_json audience issuer)) (\<lambda>verifier.
           Ret (Inr (app_state_with_auth verifier))))) (\<lambda>st.
     ret_try (map_err StartStorageEnv (storage_env_from_vars (unicode_lowercase ext) (non_blank vars))) (\<lambda>storage_env.
     case storage_env of
       StorageDisabled \<Rightarrow> Ret (Inr st)
     | StorageEnabled config \<Rightarrow>
         prog_try (prog_map_err StartStorage (s3_from_config config)) (\<lambda>_.
         Ret (Inr (app_state_with_storage S3CompatStorage st)))))))"

section \<open>Properties\<close>

text \<open>The four variables, and the three, that must be set together.\<close>

definition s3_vars :: "string list" where
  "s3_vars = [ENV_S3_ENDPOINT, ENV_S3_BUCKET, ENV_S3_ACCESS_KEY, ENV_S3_SECRET_KEY]"

definition auth_vars :: "string list" where
  "auth_vars = [ENV_AUTH0_AUDIENCE, ENV_AUTH0_ISSUER, ENV_AUTH0_JWKS_URL]"

lemma auth_env_cases:
  "auth_env_from_vars get =
     (if \<forall>v \<in> set auth_vars. get v = None then Inr AuthDisabled
      else if \<forall>v \<in> set auth_vars. get v \<noteq> None
      then Inr (AuthEnabled (the (get ENV_AUTH0_AUDIENCE)) (the (get ENV_AUTH0_ISSUER)) (the (get ENV_AUTH0_JWKS_URL)))
      else Inl (join '', '' (filter (\<lambda>v. get v = None) auth_vars)))"
  by (auto simp: auth_env_from_vars_def auth_vars_def missing_names_def Let_def map_filter_simps
      split: option.splits)

text \<open>The S3 environment is all or nothing: storage is disabled exactly when none of the four
  required variables is set, enabled exactly when all are, and otherwise startup is told the names
  of the missing ones, in order; the two optional variables never make it fail.\<close>

lemma storage_env_all_or_nothing:
  "(storage_env_from_vars uni get = Inr StorageDisabled \<longleftrightarrow> (\<forall>v \<in> set s3_vars. get v = None)) \<and>
   ((\<exists>c. storage_env_from_vars uni get = Inr (StorageEnabled c)) \<longleftrightarrow> (\<forall>v \<in> set s3_vars. get v \<noteq> None)) \<and>
   (storage_env_from_vars uni get = Inl e \<longleftrightarrow>
      (\<exists>v \<in> set s3_vars. get v = None) \<and> (\<exists>v \<in> set s3_vars. get v \<noteq> None) \<and>
      e = join '', '' (filter (\<lambda>v. get v = None) s3_vars))"
  by (auto simp: storage_env_from_vars_def s3_vars_def missing_names_def Let_def map_filter_simps
      split: option.splits)

lemma storage_env_all_or_nothing_witness:
  "storage_env_from_vars (\<lambda>s. s) (\<lambda>v. if v = ENV_S3_BUCKET then Some ''b'' else None) =
     Inl ''OBJECTRECORDS_S3_ENDPOINT, OBJECTRECORDS_S3_ACCESS_KEY, OBJECTRECORDS_S3_SECRET_KEY''"
  using storage_env_all_or_nothing [of "\<lambda>s. s" "\<lambda>v. if v = ENV_S3_BUCKET then Some ''b'' else None"
      "''OBJECTRECORDS_S3_ENDPOINT, OBJECTRECORDS_S3_ACCESS_KEY, OBJECTRECORDS_S3_SECRET_KEY''"]
  by (simp add: s3_vars_def ENV_S3_ENDPOINT_def ENV_S3_BUCKET_def ENV_S3_ACCESS_KEY_def ENV_S3_SECRET_KEY_def)

section \<open>What startup can return\<close>

text \<open>Configured: every variable of the group is set; unconfigured: none is. Blank counts as unset.\<close>

definition all_set :: "(string \<Rightarrow> string option) \<Rightarrow> string list \<Rightarrow> bool" where
  "all_set vars names \<longleftrightarrow> (\<forall>v \<in> set names. non_blank vars v \<noteq> None)"

definition none_set :: "(string \<Rightarrow> string option) \<Rightarrow> string list \<Rightarrow> bool" where
  "none_set vars names \<longleftrightarrow> (\<forall>v \<in> set names. non_blank vars v = None)"

text \<open>The state the server runs with: each switch is on exactly when its group is complete, a group that
  is neither complete nor empty has not got here, and the verifier is for the configured audience and
  issuer.\<close>

definition auth_as_configured :: "(string \<Rightarrow> string option) \<Rightarrow> app_state \<Rightarrow> bool" where
  "auth_as_configured vars st \<longleftrightarrow>
     (case as_auth st of
        None \<Rightarrow> none_set vars auth_vars
      | Some v \<Rightarrow> all_set vars auth_vars \<and> vars ENV_AUTH0_AUDIENCE = Some (av_audience v) \<and>
          vars ENV_AUTH0_ISSUER = Some (av_issuer v))"

definition state_as_configured :: "(string \<Rightarrow> string option) \<Rightarrow> app_state \<Rightarrow> bool" where
  "state_as_configured vars st \<longleftrightarrow> auth_as_configured vars st \<and>
     (if as_storage st = None then none_set vars s3_vars else all_set vars s3_vars)"

lemma non_blank_Some: "non_blank vars key = Some v \<Longrightarrow> vars key = Some v"
  by (auto simp: non_blank_def split: option.splits if_splits)

lemma storage_env_Inr:
  "storage_env_from_vars uni get = Inr e \<Longrightarrow>
     e = StorageDisabled \<and> (\<forall>v \<in> set s3_vars. get v = None) \<or> (\<exists>c. e = StorageEnabled c) \<and> (\<forall>v \<in> set s3_vars. get v \<noteq> None)"
  by (auto simp: storage_env_from_vars_def s3_vars_def missing_names_def Let_def split: option.splits)

lemma query_unchecked_returns: "wp ops (query_unchecked q) (\<lambda>_ _. True) w"
  by (auto simp: query_unchecked_def surreal_read_def wp_calls split: prod.splits sum.splits)

lemma connect_returns: "wp ops (connect c) (\<lambda>_ _. True) w"
proof -
  have step: "wp ops (prog_try (query_unchecked q) k) (\<lambda>_ _. True) w1" if "\<And>x w2. wp ops (k x) (\<lambda>_ _. True) w2" for q w1 and k :: "unit \<Rightarrow> (db_error + unit) prog"
    unfolding wp_prog_try by (rule wp_mono [OF query_unchecked_returns]) (use that in \<open>auto split: sum.splits\<close>)
  have "wp ops schema_apply (\<lambda>_ _. True) w1" for w1
    unfolding schema_apply_def by (intro step) simp
  then show ?thesis
    by (auto simp: connect_def surreal_read_def wp_calls split: prod.splits sum.splits intro: wp_mono)
qed

lemma verifier_as_configured:
  assumes "auth_env_from_vars (non_blank vars) = Inr (AuthEnabled audience issuer url)"
    and "from_jwks_json ext json audience issuer = Inr v"
  shows "auth_as_configured vars (app_state_with_auth v) \<and> as_storage (app_state_with_auth v) = None"
  using assms
  by (auto dest: non_blank_Some simp: auth_as_configured_def auth_env_cases app_state_with_auth_def all_set_def from_jwks_json_def
      try_result_eq_Inr auth_vars_def split: if_splits)

text \<open>The two optional parts of \<open>startup\<close>.\<close>

abbreviation auth_part :: "'x api_crates_scheme \<Rightarrow> auth_env \<Rightarrow> (startup_error + app_state) prog" where
  "auth_part ext auth_env \<equiv> (case auth_env of
         AuthDisabled \<Rightarrow> Ret (Inr app_state_new)
       | AuthEnabled audience issuer jwks_url \<Rightarrow>
           prog_try (prog_map_err StartHttp (HttpGetText jwks_url Ret)) (\<lambda>jwks_json.
           ret_try (map_err StartJwks (from_jwks_json ext jwks_json audience issuer)) (\<lambda>verifier.
           Ret (Inr (app_state_with_auth verifier)))))"

abbreviation storage_part ::
  "'x api_crates_scheme \<Rightarrow> (string \<Rightarrow> string option) \<Rightarrow> app_state \<Rightarrow> (startup_error + app_state) prog" where
  "storage_part ext vars st \<equiv>
     ret_try (map_err StartStorageEnv (storage_env_from_vars (unicode_lowercase ext) (non_blank vars))) (\<lambda>storage_env.
     case storage_env of
       StorageDisabled \<Rightarrow> Ret (Inr st)
     | StorageEnabled config \<Rightarrow>
         prog_try (prog_map_err StartStorage (s3_from_config config)) (\<lambda>_.
         Ret (Inr (app_state_with_storage S3CompatStorage st))))"

lemma auth_part_law:
  assumes "auth_env_from_vars (non_blank vars) = Inr e"
  shows "wp ops (auth_part ext e)
     (\<lambda>res w'. case res of Inl e \<Rightarrow> True | Inr st \<Rightarrow> auth_as_configured vars st \<and> as_storage st = None) w"
proof (cases e)
  case AuthDisabled
  then show ?thesis
    using assms by (auto simp: auth_env_cases auth_as_configured_def app_state_new_def none_set_def split: if_splits)
next
  case (AuthEnabled audience issuer url)
  have "auth_as_configured vars (app_state_with_auth v) \<and> as_storage (app_state_with_auth v) = None"
    if "from_jwks_json ext json audience issuer = Inr v" for json v
    using verifier_as_configured that assms AuthEnabled by blast
  then show ?thesis
    unfolding AuthEnabled auth_env.case
    by (auto simp: wp_calls ret_try_def map_err_def split: prod.splits sum.splits)
qed

lemma storage_part_law:
  assumes "auth_as_configured vars st \<and> as_storage st = None"
  shows "wp ops (storage_part ext vars st) (\<lambda>res w'. case res of Inl e \<Rightarrow> True | Inr st \<Rightarrow> state_as_configured vars st) w"
proof (cases "storage_env_from_vars (unicode_lowercase ext) (non_blank vars)")
  case (Inr e)
  from storage_env_Inr [OF this] Inr assms show ?thesis
    by (cases e)
      (auto simp: s3_from_config_def wp_calls state_as_configured_def auth_as_configured_def app_state_with_storage_def
        all_set_def none_set_def split: prod.splits sum.splits)
qed simp

lemma configured_law:
  "wp ops (ret_try (map_err StartAuthEnv (auth_env_from_vars (non_blank vars))) (\<lambda>auth_env.
     prog_try (auth_part ext auth_env) (storage_part ext vars)))
     (\<lambda>res w'. case res of Inl e \<Rightarrow> True | Inr st \<Rightarrow> state_as_configured vars st) w"
proof (cases "auth_env_from_vars (non_blank vars)")
  case (Inr e)
  show ?thesis
    unfolding Inr map_err_simps ret_try_simps wp_prog_try [of _ "case_auth_env a f e" for a f]
  proof (rule wp_mono [OF auth_part_law [OF Inr]], goal_cases)
    case (1 res w')
    then show ?case
    proof (cases res)
      case (Inr st)
      with 1 show ?thesis by (simp only: sum.case storage_part_law)
    qed simp
  qed
qed simp

lemma startup_law:
  "wp ops (startup ext vars) (\<lambda>res w'. case res of Inl e \<Rightarrow> True | Inr st \<Rightarrow> state_as_configured vars st) w"
  unfolding startup_def wp_prog_try [of _ "prog_map_err StartDb p" for p] wp_prog_map_err
proof (rule wp_mono [OF connect_returns], goal_cases)
  case (1 res w')
  show ?case
  proof (cases "map_err StartDb res")
    case (Inr u)
    then show ?thesis by (simp only: sum.case configured_law)
  qed simp
qed

text \<open>C34: startup returns, and when it returns a state the two switches are as the environment says:
  authentication is on exactly when its three variables are set, storage exactly when its four are,
  a group set in part (or blank) stops the server, and so does a JWKS that cannot be fetched or read;
  the verifier checks the configured audience and issuer. No failure turns authentication off.\<close>

theorem startup_fail_closed:
  "wp ops (startup ext vars) (\<lambda>res w'. case res of Inl e \<Rightarrow> True | Inr st \<Rightarrow> state_as_configured vars st) w"
  by (rule startup_law)

end
