(* ===== verification/Auth.thy ===== *)
theory Auth
  imports Startup
begin

text \<open>
  \<open>crates/objectrecords-api/src/auth.rs\<close>: scopes, bearer extraction, token verification and the
  two middlewares. \<open>next.run(req)\<close> is a function of the request: a middleware maps the service it
  wraps to the wrapped one. \<open>jsonwebtoken\<close> and the header map are parameters (\<open>api_crates\<close>).
\<close>

section \<open>Tokens\<close>

datatype auth_error = Missing | Malformed | NoKid | UnknownKid | InvalidToken string

definition has_scope :: "claims \<Rightarrow> string \<Rightarrow> bool" where
  "has_scope c wanted = list_ex (\<lambda>s. s = wanted) (split_whitespace (cl_scope c))"

definition verify :: "'x api_crates_scheme \<Rightarrow> auth0_verifier \<Rightarrow> string \<Rightarrow> auth_error + claims" where
  "verify ext v token =
     try_result (map_err InvalidToken (jwt_decode_header ext token)) (\<lambda>header_kid.
     try_result (ok_or NoKid header_kid) (\<lambda>kid.
     try_result (ok_or UnknownKid (jwks_find ext (av_jwks v) kid)) (\<lambda>jwk.
     try_result (map_err InvalidToken (key_from_jwk ext jwk)) (\<lambda>key.
     map_err InvalidToken (jwt_decode ext token key (av_audience v) (av_issuer v))))))"

definition extract_bearer :: "'x api_crates_scheme \<Rightarrow> request \<Rightarrow> auth_error + string" where
  "extract_bearer ext req =
     try_result (ok_or Missing (map_of (rq_headers req) ''authorization'')) (\<lambda>value.
     try_result (ok_or Malformed (header_to_str ext value)) (\<lambda>header.
     ok_or Malformed (strip_prefix ''Bearer '' header)))"

section \<open>Middlewares\<close>

definition attach :: "claims \<Rightarrow> or_user \<Rightarrow> string option \<Rightarrow> request \<Rightarrow> request" where
  "attach c u mcp req =
     (let req' = req\<lparr>rq_claims := Some c, rq_or_user := Some u\<rparr> in
      case mcp of None \<Rightarrow> req' | Some i \<Rightarrow> req'\<lparr>rq_mcp_client := Some i\<rparr>)"

definition verify_jwt_middleware ::
  "'x api_crates_scheme \<Rightarrow> app_state \<Rightarrow> (request \<Rightarrow> response prog) \<Rightarrow> request \<Rightarrow> response prog" where
  "verify_jwt_middleware ext st next_run req =
     (case as_auth st of
        None \<Rightarrow> next_run req
      | Some verifier \<Rightarrow>
          ret_try (map_err (\<lambda>_. Unauthorized) (extract_bearer ext req)) (\<lambda>token.
          ret_try (map_err (\<lambda>_. Unauthorized) (verify ext verifier token)) (\<lambda>c.
          prog_try (prog_map_err (\<lambda>_. Internal) (upsert_or_user ext (cl_sub c))) (\<lambda>u.
          next_run (attach c u
            (Option.bind (map_of (rq_headers req) ''x-mcp-client-id'') (header_to_str ext)) req)))))"

definition SCOPE_READ :: string where "SCOPE_READ = ''objectrecords:read''"
definition SCOPE_WRITE :: string where "SCOPE_WRITE = ''objectrecords:write''"

definition require_scope ::
  "app_state \<Rightarrow> string \<Rightarrow> (request \<Rightarrow> response prog) \<Rightarrow> request \<Rightarrow> response prog" where
  "require_scope st scope next_run req =
     (if as_auth st = None then next_run req
      else ret_try (ok_or Internal (rq_claims req)) (\<lambda>c.
        if has_scope c scope then next_run req
        else Ret (Inl (Forbidden (''scope `'' @ scope @ ''` required'')))))"

definition require_scope_read :: "app_state \<Rightarrow> (request \<Rightarrow> response prog) \<Rightarrow> request \<Rightarrow> response prog" where
  "require_scope_read st next_run req = require_scope st SCOPE_READ next_run req"

definition require_scope_write :: "app_state \<Rightarrow> (request \<Rightarrow> response prog) \<Rightarrow> request \<Rightarrow> response prog" where
  "require_scope_write st next_run req = require_scope st SCOPE_WRITE next_run req"

section \<open>Facts\<close>

text \<open>The claims of the token a request bears, if it is one the verifier accepts.\<close>

definition bearer_claims :: "'x api_crates_scheme \<Rightarrow> auth0_verifier \<Rightarrow> request \<Rightarrow> claims option" where
  "bearer_claims ext v req =
     (case try_result (extract_bearer ext req) (verify ext v) of Inl e \<Rightarrow> None | Inr c \<Rightarrow> Some c)"

lemma verify_Inr:
  "verify ext v token = Inr c \<longleftrightarrow>
     (\<exists>kid jwk key. jwt_decode_header ext token = Inr (Some kid) \<and> jwks_find ext (av_jwks v) kid = Some jwk \<and>
        key_from_jwk ext jwk = Inr key \<and> jwt_decode ext token key (av_audience v) (av_issuer v) = Inr c)"
  by (auto simp: verify_def try_result_eq_Inr map_err_eq_Inr ok_or_eq_Inr)

lemma extract_bearer_Inr:
  "extract_bearer ext req = Inr token \<longleftrightarrow>
     (\<exists>value. map_of (rq_headers req) ''authorization'' = Some value \<and>
        header_to_str ext value = Some (''Bearer '' @ token))"
  by (auto simp: extract_bearer_def try_result_eq_Inr ok_or_eq_Inr strip_prefix_eq_Some simp del: strip_prefix.simps)

lemma bearer_claims_Some:
  "bearer_claims ext v req = Some c \<longleftrightarrow> (\<exists>token. extract_bearer ext req = Inr token \<and> verify ext v token = Inr c)"
  by (auto simp: bearer_claims_def split: sum.splits) (auto simp: try_result_eq_Inr try_result_def split: sum.splits)

lemma verify_jwt_middleware_eq:
  assumes "as_auth st = Some v"
  shows "verify_jwt_middleware ext st next_run req =
     (case bearer_claims ext v req of
        None \<Rightarrow> Ret (Inl Unauthorized)
      | Some c \<Rightarrow> prog_try (prog_map_err (\<lambda>_. Internal) (upsert_or_user ext (cl_sub c))) (\<lambda>u.
          next_run (attach c u
            (Option.bind (map_of (rq_headers req) ''x-mcp-client-id'') (header_to_str ext)) req)))"
  using assms
  by (simp add: verify_jwt_middleware_def bearer_claims_def try_result_def ret_try_def map_err_def split: sum.splits)

lemma attach_claims [simp]: "rq_claims (attach c u m req) = Some c" "rq_or_user (attach c u m req) = Some u"
  by (simp_all add: attach_def Let_def split: option.splits)

lemma has_scope_tokens:
  "list_all (\<lambda>t. t \<noteq> [] \<and> visible t) ts \<Longrightarrow> cl_scope c = join '' '' ts \<Longrightarrow> has_scope c s \<longleftrightarrow> s \<in> set ts"
  by (simp add: has_scope_def split_whitespace_join list_ex_iff)

end
