(* ===== verification/Records_Api.thy ===== *)
theory Records_Api
  imports Auth
begin

text \<open>
  \<open>crates/objectrecords-api/src/routes/records.rs\<close>: the four handlers on records. The extractors
  (path id, JSON body, claims) are axum's: a handler takes what they produce. A panic of the source
  is a \<open>Panicked\<close> outcome of a pure function and a \<open>Panic\<close> of a handler.
\<close>

section \<open>Responses\<close>

definition api_kind_to_string :: "kind \<Rightarrow> string" where
  "api_kind_to_string k =
     (case k of Log \<Rightarrow> ''log'' | Fix \<Rightarrow> ''fix'' | Dataset \<Rightarrow> ''dataset'' | Asset \<Rightarrow> ''asset'' | Custom s \<Rightarrow> s)"

definition build_row ::
  "'s orecord \<Rightarrow> persisted_state \<Rightarrow> string option \<Rightarrow> persisted_attribution \<Rightarrow> persisted_row" where
  "build_row r st hash a =
     (let i = rec_id r; now = pa_at a in
      \<lparr>row_record = \<lparr>pr_id = i, pr_state = st, pr_kind = api_kind_to_string (rec_kind r), pr_content_hash = hash,
         pr_created_at = now, pr_updated_at = now\<rparr>,
       row_versions = map (\<lambda>v. \<lparr>pv_id = version_uuid (ver_id v), pv_record_id = i,
         pv_body = (case ver_body v of Inline bytes \<Rightarrow> PInline bytes | BlobRef key sz \<Rightarrow> PBlobRef key sz),
         pv_created_at = now\<rparr>) (rec_versions r),
       row_attribution = a\<rparr>)"

definition record_with_attribution_to_row :: "record_with_attribution \<Rightarrow> persisted_row outcome" where
  "record_with_attribution_to_row rwa =
     (let a = rwa_attribution rwa in
      case rwa_record rwa of
        AnyMutable r \<Rightarrow> Done (build_row r PMutable None a)
      | AnySnapshot r \<Rightarrow> Done (build_row r PSnapshot None a)
      | AnyFixed r \<Rightarrow>
          (case rec_content_hash r of
             None \<Rightarrow> Panicked ''Record<Fixed> must carry a content_hash''
           | Some h \<Rightarrow> Done (build_row r PFixed (Some (hash_to_string h)) a)))"

section \<open>Requests\<close>

datatype body_input = InlineB64 string | BlobRefInput string u64

record create_record_request =
  cr_kind :: string
  cr_body :: body_input

record update_record_request =
  ur_body :: body_input

record fix_record_request =
  fr_content_hash :: string

definition into_core_body :: "'x api_crates_scheme \<Rightarrow> body_input \<Rightarrow> api_error + body" where
  "into_core_body ext b =
     (case b of
        InlineB64 inline_b64 \<Rightarrow>
          if inline_b64 = [] then Inl (BadRequest ''body.inline_b64 must not be an empty string'')
          else try_result (map_err (\<lambda>e. BadRequest (''body.inline_b64 base64 decode: '' @ e))
                 (base64_decode ext inline_b64)) (\<lambda>bytes. Inr (Inline bytes))
      | BlobRefInput key sz \<Rightarrow>
          if key = [] then Inl (BadRequest ''body.blob_ref.key must not be empty'')
          else Inr (BlobRef key sz))"

definition parse_kind :: "string \<Rightarrow> api_error + kind" where
  "parse_kind raw =
     (if raw = [] then Inl (BadRequest ''kind must not be empty'')
      else Inr (if raw = ''log'' then Log
                else if raw = ''fix'' then Fix
                else if raw = ''dataset'' then Dataset
                else if raw = ''asset'' then Asset
                else Custom raw))"

definition creator_from_claims :: "claims option \<Rightarrow> string" where
  "creator_from_claims c = (case c of Some c \<Rightarrow> ''creo_user:'' @ cl_sub c | None \<Rightarrow> ''creo_user:anonymous'')"

definition trailing_body :: "version list \<Rightarrow> api_error + body" where
  "trailing_body versions = (if versions = [] then Inl Internal else Inr (ver_body (last versions)))"

definition sha256_of :: "'x api_crates_scheme \<Rightarrow> byte list \<Rightarrow> sha256_hash" where
  "sha256_of ext bytes = Sha256Hash (sha256 ext bytes)"

text \<open>The loop over the 32 bytes: \<open>idx\<close> are the indices left. A slice off a character boundary panics.\<close>

fun hex_bytes :: "string \<Rightarrow> nat list \<Rightarrow> (api_error + byte list) outcome" where
  "hex_bytes s [] = Done (Inr [])"
| "hex_bytes s (i # idx) =
     (case str_slice s (2 * i) (2 * i + 2) of
        None \<Rightarrow> Panicked ''byte index is not a char boundary''
      | Some hex_byte \<Rightarrow>
          (case from_str_radix16 hex_byte of
             Inl e \<Rightarrow> Done (Inl (BadRequest (''content_hash invalid hex at byte '' @ decimal i @ '' (`'' @ hex_byte @ ''`): '' @ e)))
           | Inr b \<Rightarrow>
               (case hex_bytes s idx of
                  Done (Inr bs) \<Rightarrow> Done (Inr (b # bs))
                | other \<Rightarrow> other)))"

definition api_parse_sha256_hex :: "'x api_crates_scheme \<Rightarrow> string \<Rightarrow> (api_error + sha256_hash) outcome" where
  "api_parse_sha256_hex ext s =
     (if length s \<noteq> 64
      then Done (Inl (BadRequest (''content_hash must be 64 hex chars, got '' @ decimal (length s))))
      else if s \<noteq> to_lowercase (unicode_lowercase ext) s
      then Done (Inl (BadRequest ''content_hash must be lowercase hex''))
      else
        (case hex_bytes s [0..<32] of
           Done r \<Rightarrow> Done (map_ok Sha256Hash r)
         | Panicked m \<Rightarrow> Panicked m))"

section \<open>Handlers\<close>

text \<open>\<open>Ok(Json(record_with_attribution_to_row(rwa)))\<close>.\<close>

definition json_row :: "record_with_attribution \<Rightarrow> response prog" where
  "json_row rwa = prog_bind (of_outcome (record_with_attribution_to_row rwa)) (\<lambda>row. Ret (Inr (RowResponse 200 None row)))"

text \<open>\<open>repo.find(id).await.map_err(ApiError::from)?.ok_or(ApiError::NotFound)?\<close>.\<close>

definition find_or_404 :: "'x api_crates_scheme \<Rightarrow> uuid \<Rightarrow> (api_error + record_with_attribution) prog" where
  "find_or_404 ext i = prog_try (api_call (find_record ext i)) (\<lambda>found. Ret (ok_or NotFound found))"

definition get_one :: "'x api_crates_scheme \<Rightarrow> uuid \<Rightarrow> response prog" where
  "get_one ext i = prog_try (find_or_404 ext i) (\<lambda>rwa. json_row rwa)"

definition records_post_one ::
  "'x api_crates_scheme \<Rightarrow> claims option \<Rightarrow> create_record_request \<Rightarrow> response prog" where
  "records_post_one ext claims req =
     ret_try (parse_kind (cr_kind req)) (\<lambda>kind.
     ret_try (into_core_body ext (cr_body req)) (\<lambda>core_body.
     NowV7 (\<lambda>i. NowV7 (\<lambda>vid.
       let r = record_new i vid kind core_body;
           creator = creator_from_claims claims in
       prog_try (api_call (save ext literal_mutable r creator)) (\<lambda>_.
       UtcNow (\<lambda>now.
         let row = build_row r PMutable None \<lparr>pa_creator = creator, pa_at = now\<rparr> in
         Ret (Inr (RowResponse 201 (Some (''/records/'' @ uuid_to_string ext (pr_id (row_record row)))) row))))))))"

definition put_one :: "'x api_crates_scheme \<Rightarrow> uuid \<Rightarrow> update_record_request \<Rightarrow> response prog" where
  "put_one ext i req =
     prog_try (find_or_404 ext i) (\<lambda>rwa.
     ret_try (case rwa_record rwa of
         AnyMutable _ \<Rightarrow> Inr ()
       | AnySnapshot _ \<Rightarrow> Inl (StateConflict ''mutable'' ''snapshot'')
       | AnyFixed _ \<Rightarrow> Inl (StateConflict ''mutable'' ''fixed'')) (\<lambda>_.
     ret_try (into_core_body ext (ur_body req)) (\<lambda>core_body.
     prog_try (api_call (add_version ext i core_body)) (\<lambda>_.
     prog_try (find_or_404 ext i) (\<lambda>rwa'. json_row rwa')))))"

text \<open>The digest of the trailing body, with the fetch of a \<open>BlobRef\<close>; and the copy under \<open>/fixed/\<close>.\<close>

definition computed_hash :: "'x api_crates_scheme \<Rightarrow> app_state \<Rightarrow> body \<Rightarrow> (api_error + sha256_hash) prog" where
  "computed_hash ext st last_body =
     (case last_body of
        Inline bytes \<Rightarrow> Ret (Inr (sha256_of ext bytes))
      | BlobRef key _ \<Rightarrow>
          ret_try (ok_or Internal (as_storage st)) (\<lambda>storage.
          prog_try (prog_map_err (\<lambda>_. Internal) (s3_get ext key)) (\<lambda>bytes.
          Ret (Inr (sha256_of ext bytes)))))"

definition copy_to_fixed :: "'x api_crates_scheme \<Rightarrow> app_state \<Rightarrow> body \<Rightarrow> sha256_hash \<Rightarrow> (api_error + unit) prog" where
  "copy_to_fixed ext st last_body claimed =
     (case (last_body, as_storage st) of
        (BlobRef key _, Some storage) \<Rightarrow>
          prog_try (prog_map_err (\<lambda>_. Internal) (s3_get ext key)) (\<lambda>bytes.
          prog_try (prog_map_err (\<lambda>_. Internal)
              (s3_put_if_absent ext (''/fixed/'' @ hash_to_string claimed) bytes)) (\<lambda>put.
          Ret (Inr ())))
      | _ \<Rightarrow> Ret (Inr ()))"

definition fix_one :: "'x api_crates_scheme \<Rightarrow> app_state \<Rightarrow> uuid \<Rightarrow> fix_record_request \<Rightarrow> response prog" where
  "fix_one ext st i req =
     prog_try (of_outcome (api_parse_sha256_hex ext (fr_content_hash req))) (\<lambda>claimed.
     prog_try (find_or_404 ext i) (\<lambda>rwa.
     ret_try (case rwa_record rwa of
         AnyMutable r \<Rightarrow> trailing_body (rec_versions r)
       | AnySnapshot r \<Rightarrow> trailing_body (rec_versions r)
       | AnyFixed _ \<Rightarrow> Inl (StateConflict ''mutable | snapshot'' ''fixed'')) (\<lambda>last_body.
     prog_try (computed_hash ext st last_body) (\<lambda>computed.
     if computed \<noteq> claimed
     then Ret (Inl (HashMismatch (hash_to_string computed) (hash_to_string claimed)))
     else
       prog_try (copy_to_fixed ext st last_body claimed) (\<lambda>_.
       prog_try (api_call (transition_to_fixed ext i claimed)) (\<lambda>_.
       prog_try (find_or_404 ext i) (\<lambda>rwa'. json_row rwa')))))))"

end
