(* ===== verification/Digest_Text.thy ===== *)
theory Digest_Text
  imports Records_Api
begin

text \<open>
  The text of a digest in a request: what \<open>parse_sha256_hex\<close> of \<open>records.rs\<close> accepts, against the
  strict reader of the database layer (\<open>Convert.parse_sha256_hex\<close>).
\<close>

section \<open>What is accepted\<close>

lemma ascii_boundary: "is_ascii s \<Longrightarrow> i \<le> length s \<Longrightarrow> is_char_boundary s i"
  by (auto simp: is_ascii_def is_char_boundary_def list_all_length not_le)

lemma slice_pair:
  assumes "is_ascii s" "2 * i + 2 \<le> length s"
  shows "str_slice s (2 * i) (2 * i + 2) = Some [s ! (2 * i), s ! (2 * i + 1)]"
proof -
  have "take 2 (drop (2 * i) s) = [s ! (2 * i), s ! (2 * i + 1)]"
    using assms(2) by (simp add: numeral_2_eq_2 take_Suc_conv_app_nth)
  then show ?thesis
    using assms ascii_boundary by (simp add: str_slice_def)
qed

lemma hex_bytes_total:
  "is_ascii s \<Longrightarrow> \<forall>i \<in> set idx. 2 * i + 2 \<le> length s \<Longrightarrow> \<exists>r. hex_bytes s idx = Done r"
proof (induction idx)
  case (Cons i idx)
  then obtain r where "hex_bytes s idx = Done r" by auto
  moreover have "str_slice s (2 * i) (2 * i + 2) = Some [s ! (2 * i), s ! (2 * i + 1)]"
    using Cons.prems by (intro slice_pair) simp_all
  ultimately show ?case by (simp split: sum.splits del: add_2_eq_Suc')
qed simp

definition byte_at :: "string \<Rightarrow> nat \<Rightarrow> byte option" where
  "byte_at s i = (case str_slice s (2 * i) (2 * i + 2) of
     None \<Rightarrow> None
   | Some t \<Rightarrow> (case from_str_radix16 t of Inl _ \<Rightarrow> None | Inr b \<Rightarrow> Some b))"

lemma hex_bytes_Cons:
  "hex_bytes s (i # idx) = Done (Inr bs) \<longleftrightarrow>
     (\<exists>b bs'. bs = b # bs' \<and> byte_at s i = Some b \<and> hex_bytes s idx = Done (Inr bs'))"
  by (auto simp: byte_at_def split: option.splits sum.splits outcome.splits)

lemma hex_bytes_Inr:
  "hex_bytes s idx = Done (Inr bs) \<longleftrightarrow>
     list_all2 (\<lambda>i b. byte_at s i = Some b) idx bs"
proof (induction idx arbitrary: bs)
  case (Cons i idx)
  show ?case by (cases bs) (auto simp only: hex_bytes_Cons Cons.IH list_all2_Cons list_all2_Cons1)
qed auto

lemma api_parse_length: "api_parse_sha256_hex ext s = Done (Inr h) \<Longrightarrow> length s = 64 \<and> hash_wf h"
  by (auto simp: api_parse_sha256_hex_def hash_wf_def hex_bytes_Inr map_ok_def list_all2_lengthD
      split: if_splits outcome.splits sum.splits dest!: list_all2_lengthD)

lemma api_parse_total: "is_ascii s \<Longrightarrow> \<exists>r. api_parse_sha256_hex ext s = Done r"
  using hex_bytes_total [of s "[0..<32]"] by (auto simp: api_parse_sha256_hex_def)

lemma api_parse_hash [simp]:
  assumes "hash_wf h"
  shows "api_parse_sha256_hex ext (hash_to_string h) = Done (Inr h)"
proof -
  obtain bs where h: "h = Sha256Hash bs" "length bs = 32" using assms by (cases h) (simp add: hash_wf_def)
  have len: "length (hash_to_string h) = 64" using h by (simp add: length_hash_to_string)
  have pair: "[hash_to_string h ! (2 * i), hash_to_string h ! (2 * i + 1)] = fmt_02x (bs ! i)" if "i < 32" for i
  proof -
    have "hash_to_string (Sha256Hash cs) ! (2 * i) = fmt_02x (cs ! i) ! 0 \<and>
        hash_to_string (Sha256Hash cs) ! (2 * i + 1) = fmt_02x (cs ! i) ! 1" if "i < length cs" for cs
      using that
    proof (induction cs arbitrary: i)
      case (Cons c cs)
      then show ?case
        by (cases i) (auto simp: nth_append fmt_02x_def)
    qed simp
    from this [of bs] that h show ?thesis by (simp add: fmt_02x_def)
  qed
  have "byte_at (hash_to_string h) i = Some (bs ! i)" if "i < 32" for i
    using that slice_pair [OF hash_to_string_ascii, of i h] pair [OF that]
    by (simp add: byte_at_def len)
  then have "hex_bytes (hash_to_string h) [0..<32] = Done (Inr bs)"
    unfolding hex_bytes_Inr list_all2_conv_all_nth using h by simp
  then show ?thesis by (simp add: api_parse_sha256_hex_def len) (simp add: h)
qed

text \<open>Without a plus sign, exactly the texts the database layer reads.\<close>

lemma radix16_pair:
  assumes "from_str_radix16 [c, d] = Inr b" "c \<noteq> CHR ''+''"
  shows "to_digit16 c \<noteq> None" "to_digit16 d \<noteq> None"
  using assms by (auto simp: from_str_radix16_def split: option.splits if_splits)

lemma hex_char_of_digit: "to_digit16 c \<noteq> None \<Longrightarrow> ascii_lower c = c \<Longrightarrow> is_hex_char c"
proof -
  have "\<forall>c::char. to_digit16 c \<noteq> None \<longrightarrow> ascii_lower c = c \<longrightarrow> is_hex_char c"
    by code_simp
  then show "to_digit16 c \<noteq> None \<Longrightarrow> ascii_lower c = c \<Longrightarrow> is_hex_char c" by blast
qed

lemma digit_ascii: "to_digit16 c \<noteq> None \<Longrightarrow> byte_of c < 128"
proof -
  have "\<forall>c::char. to_digit16 c \<noteq> None \<longrightarrow> byte_of c < 128" by code_simp
  then show "to_digit16 c \<noteq> None \<Longrightarrow> byte_of c < 128" by blast
qed

lemma str_slice_pair: "str_slice s (2 * i) (2 * i + 2) = Some t \<Longrightarrow> t = [s ! (2 * i), s ! (2 * i + 1)] \<and> 2 * i + 2 \<le> length s"
  by (auto simp: str_slice_def numeral_2_eq_2 take_Suc_conv_app_nth split: if_splits)

lemma api_parse_strict:
  assumes "api_parse_sha256_hex ext s = Done (Inr h)" "CHR ''+'' \<notin> set s"
  shows "hex64 s \<and> s = hash_to_string h"
proof -
  obtain bs where bs: "hex_bytes s [0..<32] = Done (Inr bs)" and len: "length s = 64"
    and low: "s = to_lowercase (unicode_lowercase ext) s"
    using assms(1) by (auto simp: api_parse_sha256_hex_def map_ok_def split: if_splits outcome.splits sum.splits)
  have digit: "to_digit16 (s ! j) \<noteq> None" if "j < 64" for j
  proof -
    have "j div 2 < 32" using that by simp
    then have "byte_at s (j div 2) = Some (bs ! (j div 2))"
      using bs unfolding hex_bytes_Inr list_all2_conv_all_nth by simp
    then have "from_str_radix16 [s ! (2 * (j div 2)), s ! (2 * (j div 2) + 1)] = Inr (bs ! (j div 2))"
      using str_slice_pair [of s "j div 2"] by (auto simp: byte_at_def split: option.splits sum.splits)
    moreover have "s ! (2 * (j div 2)) \<in> set s"
      using len that by (intro nth_mem) simp
    then have "s ! (2 * (j div 2)) \<noteq> CHR ''+''" using assms(2) by metis
    ultimately have "to_digit16 (s ! (2 * (j div 2))) \<noteq> None" "to_digit16 (s ! (2 * (j div 2) + 1)) \<noteq> None"
      using radix16_pair by blast+
    moreover have "j = 2 * (j div 2) \<or> j = 2 * (j div 2) + 1" by presburger
    ultimately show ?thesis by metis
  qed
  then have "is_ascii s"
    using len digit_ascii by (auto simp: is_ascii_def list_all_length)
  with low have "map ascii_lower s = s" by (simp add: to_lowercase_def)
  then have "list_all is_hex_char s"
    using digit len hex_char_of_digit by (metis list_all_length nth_map)
  then have hex: "hex64 s" using len by (simp add: hex64_def)
  then obtain h' where "hash_wf h'" "s = hash_to_string h'" by (rule hex64_hash_to_string)
  with assms(1) hex show ?thesis by simp
qed

section \<open>Where the two readers differ\<close>

lemma plus_bytes: "hex_bytes (concat (replicate 32 ''+a'')) [0..<32] = Done (Inr (replicate 32 10))"
  by code_simp

lemma plus_accepted: "api_parse_sha256_hex ext (concat (replicate 32 ''+a'')) = Done (Inr (Sha256Hash (replicate 32 10)))"
proof -
  have "to_lowercase uni (concat (replicate 32 ''+a'')) = concat (replicate 32 ''+a'')" for uni
  proof -
    have "is_ascii (concat (replicate 32 ''+a''))" "map ascii_lower (concat (replicate 32 ''+a'')) = concat (replicate 32 ''+a'')"
      by code_simp+
    then show ?thesis unfolding to_lowercase_def by (simp only: if_True)
  qed
  moreover have "length (concat (replicate 32 ''+a'')) = 64" by code_simp
  ultimately show ?thesis
    unfolding api_parse_sha256_hex_def plus_bytes by (simp only: simp_thms if_False outcome.case map_ok_simps)
qed

lemma api_parse_panics:
  assumes "length s = 64" "unicode_lowercase ext s = s" "\<not> is_ascii s" "\<not> is_char_boundary s 2"
  shows "api_parse_sha256_hex ext s = Panicked ''byte index is not a char boundary''"
proof -
  have "str_slice s (2 * 0) (2 * 0 + 2) = None" using assms(4) by (auto simp: str_slice_def numeral_2_eq_2)
  moreover have "[0..<32] = (0::nat) # [1..<32]" by (simp add: upt_rec)
  ultimately have "hex_bytes s [0..<32] = Panicked ''byte index is not a char boundary''"
    by (simp only: hex_bytes.simps option.case)
  then show ?thesis using assms(1-3) by (simp add: api_parse_sha256_hex_def to_lowercase_def)
qed

lemma readers_agree:
  assumes "CHR ''+'' \<notin> set s"
  shows "api_parse_sha256_hex ext s = Done (Inr h) \<longleftrightarrow> parse_sha256_hex s = Inr (hash_bytes h)"
proof -
  have "hash_wf h \<and> s = hash_to_string h \<longleftrightarrow> parse_sha256_hex s = Inr (hash_bytes h)"
    by (cases h) (simp add: parse_sha256_hex_Inr hash_wf_def)
  moreover have "api_parse_sha256_hex ext s = Done (Inr h) \<longleftrightarrow> hash_wf h \<and> s = hash_to_string h"
    using api_parse_strict [OF _ assms, of ext h] api_parse_length [of ext s h] by auto
  ultimately show ?thesis by simp
qed

text \<open>With a plus sign they part: a claimed digest of 32 pairs \<open>+a\<close>, which is no hexadecimal
  text, is read as 32 bytes by the API and refused by the database layer.\<close>

lemma plus_sign_digest_accepted:
  "api_parse_sha256_hex ext (concat (replicate 32 ''+a'')) = Done (Inr (Sha256Hash (replicate 32 10))) \<and>
   (\<exists>e. parse_sha256_hex (concat (replicate 32 ''+a'')) = Inl e) \<and>
   \<not> hex64 (concat (replicate 32 ''+a''))"
proof -
  have no: "\<not> hex64 (concat (replicate 32 ''+a''))" by code_simp
  then have "\<exists>e. parse_sha256_hex (concat (replicate 32 ''+a'')) = Inl e"
    using parse_sha256_hex_ok_iff by (metis obj_sumE)
  with no show ?thesis using plus_accepted by blast
qed

section \<open>Properties\<close>

text \<open>C36: on a text without a plus sign the API's reader of a digest accepts exactly what the
  database layer's strict reader accepts, with the same bytes; with one they part: 32 pairs \<open>+a\<close>, which are
  no hexadecimal text, are read as 32 bytes by the API and refused by the database layer.\<close>

theorem digest_readers_agree:
  "(CHR ''+'' \<notin> set s \<longrightarrow>
      (api_parse_sha256_hex ext s = Done (Inr h) \<longleftrightarrow> parse_sha256_hex s = Inr (hash_bytes h))) \<and>
   api_parse_sha256_hex ext (concat (replicate 32 ''+a'')) = Done (Inr (Sha256Hash (replicate 32 10))) \<and>
   (\<exists>e. parse_sha256_hex (concat (replicate 32 ''+a'')) = Inl e)"
  using readers_agree plus_sign_digest_accepted by blast

lemma digest_readers_agree_witness:
  "api_parse_sha256_hex mem_api_crates (hash_to_string (Sha256Hash (replicate 32 171))) =
      Done (Inr (Sha256Hash (replicate 32 171))) \<longleftrightarrow>
     parse_sha256_hex (hash_to_string (Sha256Hash (replicate 32 171))) = Inr (replicate 32 171)"
proof -
  have "CHR ''+'' \<notin> set (hash_to_string (Sha256Hash (replicate 32 171)))"
    by (simp add: hash_to_string_def fmt_02x_def hex_digit_def)
  then show ?thesis
    using digest_readers_agree [of "hash_to_string (Sha256Hash (replicate 32 171))" mem_api_crates "Sha256Hash (replicate 32 171)"]
    by simp
qed

text \<open>C39: a claimed digest of 64 bytes whose first character has three bytes makes the fix handler
  panic, before it has made any call, instead of answering that the request is malformed.\<close>

theorem fix_panics_off_boundary:
  assumes "length s = 64" "unicode_lowercase ext s = s" "\<not> is_ascii s" "\<not> is_char_boundary s 2"
  shows "run ops (fix_one ext st i \<lparr>fr_content_hash = s\<rparr>) w = (Panicked ''byte index is not a char boundary'', w)"
  using api_parse_panics [OF assms] by (simp add: fix_one_def prog_try_def)

lemma fix_panics_off_boundary_witness:
  "run (mem_ops False) (fix_one mem_api_crates app_state_new 1
     \<lparr>fr_content_hash = [CHR 0xE3, CHR 0x81, CHR 0x82] @ replicate 61 CHR ''a''\<rparr>) empty_world =
   (Panicked ''byte index is not a char boundary'', empty_world)"
  by (rule fix_panics_off_boundary) (simp_all add: mem_api_crates_def crates.defs is_ascii_def is_char_boundary_def byte_of_def)

end
