(* ===== verification/Router.thy ===== *)
theory Router
  imports Digest_Text
begin

text \<open>
  \<open>routes/assets.rs\<close>, \<open>routes/health.rs\<close> and \<open>build_router\<close> of \<open>lib.rs\<close>. A matched route with what
  its extractors read is an \<open>endpoint\<close>; matching, extraction and the body limits are axum's.
\<close>

section \<open>Assets\<close>

definition ASSET_BODY_LIMIT :: nat where
  "ASSET_BODY_LIMIT = 10 * 1024 * 1024"

definition validate_asset_body :: "'x api_crates_scheme \<Rightarrow> byte list \<Rightarrow> nat \<Rightarrow> api_error + string \<times> string" where
  "validate_asset_body ext b limit =
     (if b = [] then Inl (BadRequest ''asset body must not be empty'')
      else if length b > limit then Inl (PayloadTooLarge (length b) limit)
      else let hex = lower_hex ext (sha256 ext b) in Inr (''/assets/'' @ hex, hex))"

definition ensure_storage :: "app_state \<Rightarrow> api_error + s3_compat_storage" where
  "ensure_storage st = ok_or Internal (as_storage st)"

definition assets_post_one :: "'x api_crates_scheme \<Rightarrow> app_state \<Rightarrow> byte list \<Rightarrow> response prog" where
  "assets_post_one ext st b =
     ret_try (ensure_storage st) (\<lambda>storage.
     ret_try (validate_asset_body ext b ASSET_BODY_LIMIT) (\<lambda>(key, hex).
     prog_try (prog_map_err (\<lambda>_. Internal) (s3_put_if_absent ext key b)) (\<lambda>put.
     let status = (case put of Wrote \<Rightarrow> 201 | AlreadyExists \<Rightarrow> 200) in
     Ret (Inr (AssetResponse status
       \<lparr>au_key = key, au_size = of_nat (length b), au_sha256 = hex,
        au_outcome = (case put of Wrote \<Rightarrow> ''wrote'' | AlreadyExists \<Rightarrow> ''already_exists'')\<rparr>)))))"

section \<open>Health\<close>

definition health_handler :: "response prog" where
  "health_handler = Ret (Inr (HealthResponse ''ok''))"

section \<open>The router\<close>

datatype endpoint =
    GetHealth
  | GetRecord uuid
  | PutRecord uuid update_record_request
  | PostFix uuid fix_record_request
  | PostRecord create_record_request
  | PostAsset "byte list"

text \<open>The handler of an endpoint, and the layers around it: the last \<open>route_layer\<close> is the outermost.\<close>

definition handler :: "'x api_crates_scheme \<Rightarrow> app_state \<Rightarrow> endpoint \<Rightarrow> request \<Rightarrow> response prog" where
  "handler ext st ep req =
     (case ep of
        GetHealth \<Rightarrow> health_handler
      | GetRecord i \<Rightarrow> get_one ext i
      | PutRecord i body \<Rightarrow> put_one ext i body
      | PostFix i body \<Rightarrow> fix_one ext st i body
      | PostRecord body \<Rightarrow> records_post_one ext (rq_claims req) body
      | PostAsset bytes \<Rightarrow> assets_post_one ext st bytes)"

definition build_router :: "'x api_crates_scheme \<Rightarrow> app_state \<Rightarrow> endpoint \<Rightarrow> request \<Rightarrow> response prog" where
  "build_router ext st ep =
     (let records = verify_jwt_middleware ext st (require_scope_read st (handler ext st ep));
          assets = verify_jwt_middleware ext st (require_scope_write st (handler ext st ep)) in
      case ep of
        GetHealth \<Rightarrow> handler ext st ep
      | PostAsset _ \<Rightarrow> assets
      | _ \<Rightarrow> records)"

end
