(* ===== verification/Users_Spec.thy ===== *)
theory Users_Spec
  imports Schema
begin

text \<open>
  The users of the service: \<open>upsert_or_user\<close> against an abstract map from subjects to users. The
  unique index on \<open>auth0_sub\<close> that the schema defines is what makes the create race safe.
\<close>


section \<open>The users of the store\<close>

definition users_ok :: "'x crates_scheme \<Rightarrow> tables \<Rightarrow> bool" where
  "users_ok ext t \<longleftrightarrow> unique_sub_index \<in> set (t_schema t) \<and> distinct (map (\<lambda>r. fst (snd r)) (t_or_user t)) \<and>
     (\<forall>r \<in> set (t_or_user t). \<exists>u. fst r = uuid_to_string ext u)"

definition user_of_row :: "'x crates_scheme \<Rightarrow> string \<times> string \<times> datetime \<Rightarrow> or_user" where
  "user_of_row ext r = \<lparr>or_id = the (uuid_parse_str ext (fst r)), or_auth0_sub = fst (snd r), or_created_at = snd (snd r)\<rparr>"

text \<open>The user of a subject.\<close>

definition user_view :: "'x crates_scheme \<Rightarrow> tables \<Rightarrow> string \<Rightarrow> or_user option" where
  "user_view ext t s = (case or_users_of s t of [] \<Rightarrow> None | r # rs \<Rightarrow> Some (user_of_row ext r))"

text \<open>Everything but the users is the same.\<close>

definition same_but_users :: "tables \<Rightarrow> tables \<Rightarrow> bool" where
  "same_but_users t t' \<longleftrightarrow> t' = t\<lparr>t_or_user := t_or_user t'\<rparr>"

definition upsert_contract ::
  "bool \<Rightarrow> string \<Rightarrow> (string \<Rightarrow> or_user option) \<Rightarrow> (string \<Rightarrow> or_user option) \<Rightarrow> db_error + or_user \<Rightarrow> bool" where
  "upsert_contract F s U U' res \<longleftrightarrow>
     (case U s of
        Some u \<Rightarrow> U' = U \<and> (res = Inr u \<or> F \<and> (\<exists>e. res = Inl e))
      | None \<Rightarrow> \<exists>u. or_auth0_sub u = s \<and>
          (U' = U(s \<mapsto> u) \<and> res = Inr u \<or> F \<and> (\<exists>e. res = Inl e) \<and> (U' = U \<or> U' = U(s \<mapsto> u))))"

definition or_user_taken :: "'x crates_scheme \<Rightarrow> uuid \<Rightarrow> tables \<Rightarrow> bool" where
  "or_user_taken ext u t \<longleftrightarrow> uuid_to_string ext u \<in> fst ` set (t_or_user t)"

lemma users_of_sub:
  assumes "users_ok ext t"
  shows "or_users_of s t = [] \<or> (\<exists>r. or_users_of s t = [r] \<and> r \<in> set (t_or_user t))"
proof -
  have "length (filter (\<lambda>r. fst (snd r) = s) rs) \<le> 1" if "distinct (map (\<lambda>r. fst (snd r)) rs)" for rs :: "(string \<times> string \<times> datetime) list"
    using that by (induction rs) (auto simp: filter_empty_conv image_iff)
  then have "length (or_users_of s t) \<le> 1" using assms by (simp add: users_ok_def or_users_of_def)
  moreover have "set (or_users_of s t) \<subseteq> set (t_or_user t)" by (auto simp: or_users_of_def)
  ultimately show ?thesis by (cases "or_users_of s t") auto
qed

lemma or_users_of_snoc: "or_users_of s (t\<lparr>t_or_user := t_or_user t @ [r]\<rparr>) = or_users_of s t @ (if fst (snd r) = s then [r] else [])"
  by (simp add: or_users_of_def)

lemma same_but_users_refl [simp]: "same_but_users t t"
  by (simp add: same_but_users_def)

lemma same_but_users_records:
  assumes "same_but_users t t'"
  shows "t_record t' = t_record t" "t_version t' = t_version t" "t_created_by t' = t_created_by t" "t_snapshot_of t' = t_snapshot_of t"
  using assms unfolding same_but_users_def by (metis tables.select_convs(2-5) tables.update_convs(6) tables.surjective)+

lemma same_but_users_repo:
  assumes "same_but_users t t'"
  shows "repo_ok ext t' = repo_ok ext t" "view ext t' = view ext t"
  using same_but_users_records [OF assms]
  by (simp_all add: fun_eq_iff repo_ok_def repo_inv_def record_wf_def no_orphans_def view_def versions_of_def edges_to_def)

context backend
begin

lemma create_user:
  assumes ok: "users_ok ext t" and none: "or_users_of s t = []"
  shows "run_stmt (CreateOrUser (uuid_to_string ext u) s now) t =
     (if or_user_taken ext u t then None else Some (t\<lparr>t_or_user := t_or_user t @ [(uuid_to_string ext u, s, now)]\<rparr>))"
proof -
  have "s \<notin> (fst \<circ> snd) ` set (t_or_user t)"
    using none by (auto simp: or_users_of_def filter_empty_conv)
  then show ?thesis by (simp add: or_user_taken_def)
qed

lemma created_user:
  assumes ok: "users_ok ext t" and none: "or_users_of s t = []"
    and t': "run_stmt (CreateOrUser (uuid_to_string ext u) s now) t = Some t'"
  shows "users_ok ext t'" "same_but_users t t'"
    "user_view ext t' = (user_view ext t)(s \<mapsto> \<lparr>or_id = u, or_auth0_sub = s, or_created_at = now\<rparr>)"
proof -
  have t': "t' = t\<lparr>t_or_user := t_or_user t @ [(uuid_to_string ext u, s, now)]\<rparr>"
    using t' create_user [OF ok none] by (simp split: if_splits)
  have "s \<notin> (\<lambda>r. fst (snd r)) ` set (t_or_user t)"
    using none by (auto simp: or_users_of_def filter_empty_conv)
  then show "users_ok ext t'" using ok by (auto simp: users_ok_def t')
  show "same_but_users t t'" by (simp add: same_but_users_def t')
  show "user_view ext t' = (user_view ext t)(s \<mapsto> \<lparr>or_id = u, or_auth0_sub = s, or_created_at = now\<rparr>)"
    using none by (auto simp: fun_eq_iff user_view_def t' or_users_of_snoc user_of_row_def uuid_parse_to_string split: list.splits)
qed

lemma into_or_user_row: "users_ok ext t \<Longrightarrow> r \<in> set (t_or_user t) \<Longrightarrow> into_or_user ext (read_or_user r) = Inr (user_of_row ext r)"
  by (auto simp: users_ok_def into_or_user_def read_or_user_def user_of_row_def uuid_parse_to_string)

lemma upsert_law:
  assumes ok: "users_ok ext (tables w)"
  shows "wp ops (upsert_or_user ext s) (\<lambda>res w'. users_ok ext (tables w') \<and> same_but_users (tables w) (tables w') \<and> blobs w' = blobs w \<and>
     upsert_contract (can_fail ops tables \<or>
         or_user_taken ext (fst (do_now_v7 ops (snd (run ops (find_or_user_by_sub ext s) w)))) (tables w))
       s (user_view ext (tables w)) (user_view ext (tables w')) res) w"
proof (rule wp_upsert_or_user, goal_cases)
  case (1 r w')
  then have "or_users_of s (tables w) = [r]" "r \<in> set (t_or_user (tables w))"
    using users_of_sub [OF ok, of s] by auto
  then show ?case
    using 1 ok into_or_user_row [OF ok] by (simp add: upsert_contract_def user_view_def)
next
  case (2 u now w')
  then show ?case
    using created_user [OF ok 2(1,2)] by (auto simp: upsert_contract_def user_view_def)
next
  case (3 e u now w')
  then show ?case
    using created_user [OF ok 3(2,3)]
    by (simp add: upsert_contract_def user_view_def) (intro exI [of _ "\<lparr>or_id = u, or_auth0_sub = s, or_created_at = now\<rparr>"], simp)
next
  case (4 w')
  then show ?case
    using ok create_user [OF ok 4(3)]
    by (auto simp: upsert_contract_def user_view_def split: if_splits intro: exI [of _ "\<lparr>or_id = 0, or_auth0_sub = s, or_created_at = 0\<rparr>"])
next
  case (5 e w')
  then show ?case
    using ok by (auto simp: upsert_contract_def split: option.splits intro: exI [of _ "\<lparr>or_id = 0, or_auth0_sub = s, or_created_at = 0\<rparr>"])
qed

end

section \<open>Properties\<close>

text \<open>C20: \<open>upsert_or_user\<close> returns the one user of the subject, the existing one if there is one and
  otherwise the row it creates; no subject ever gets a second row, and nothing but the users changes.\<close>

theorem upsert_one_user_per_subject:
  assumes "backend ext ops tables blobs" and "users_ok ext (tables w)"
  shows "wp ops (upsert_or_user ext s) (\<lambda>res w'. users_ok ext (tables w') \<and> same_but_users (tables w) (tables w') \<and> blobs w' = blobs w \<and>
     upsert_contract (can_fail ops tables \<or>
         or_user_taken ext (fst (do_now_v7 ops (snd (run ops (find_or_user_by_sub ext s) w)))) (tables w))
       s (user_view ext (tables w)) (user_view ext (tables w')) res) w"
  using backend.upsert_law [OF assms] .

definition users_world :: mem_world where
  "users_world = empty_world\<lparr>mw_tables := empty_tables\<lparr>t_schema := [unique_sub_index]\<rparr>\<rparr>"

lemma users_world_ok: "users_ok mem_crates (mw_tables users_world)"
  by (simp add: users_ok_def users_world_def empty_tables_def)

lemma upsert_one_user_per_subject_witness:
  "wp (mem_ops True) (upsert_or_user mem_crates ''auth0|ana'') (\<lambda>res w'. users_ok mem_crates (mw_tables w') \<and>
     same_but_users (mw_tables users_world) (mw_tables w') \<and> mem_blobs w' = mem_blobs users_world \<and>
     upsert_contract (can_fail (mem_ops True) mw_tables \<or>
         or_user_taken mem_crates (fst (do_now_v7 (mem_ops True) (snd (run (mem_ops True) (find_or_user_by_sub mem_crates ''auth0|ana'') users_world)))) (mw_tables users_world))
       ''auth0|ana'' (user_view mem_crates (mw_tables users_world)) (user_view mem_crates (mw_tables w')) res) users_world"
  by (rule upsert_one_user_per_subject [OF mem.backend_axioms users_world_ok])

end
