(* ===== verification/Records_Spec.thy ===== *)
theory Records_Spec
  imports Router Users_Spec
begin

text \<open>
  The contracts of the handlers on records over the abstract store of \<open>Store_View\<close>, proved in the
  locale \<open>api_services\<close>: the database, the object store, the clock, the id source and the digest,
  each by its own laws. A reply is either what the contract says of the store, or, when calls can
  fail, \<open>Internal\<close>.
\<close>

section \<open>What a stored record promises\<close>

definition stored_wf :: "stored \<Rightarrow> bool" where
  "stored_wf s \<longleftrightarrow> st_versions s \<noteq> {#} \<and>
     (case st_hash s of None \<Rightarrow> st_state s \<noteq> PFixed | Some h \<Rightarrow> st_state s = PFixed \<and> hex64 h)"

context thing_text
begin

lemma view_wf: "repo_inv ext t \<Longrightarrow> view ext t i = Some s \<Longrightarrow> stored_wf s"
proof -
  assume inv: "repo_inv ext t" and s: "view ext t i = Some s"
  then obtain row where row: "map_of (t_record t) (uuid_to_string ext i) = Some row"
    by (auto simp: view_def)
  with repo_invD [OF inv row] s show "stored_wf s"
    using uuid_to_string_inj by (auto simp: view_def stored_wf_def record_wf_def state_hash_ok_def split: sum.splits option.splits)
qed

end

text \<open>The row a response shows of a stored record.\<close>

definition shows_row :: "persisted_row \<Rightarrow> uuid \<Rightarrow> stored \<Rightarrow> bool" where
  "shows_row row i s \<longleftrightarrow>
     (let now = pa_at (st_attribution s) in
      row_record row = \<lparr>pr_id = i, pr_state = st_state s, pr_kind = kind_to_string (st_kind s),
        pr_content_hash = st_hash s, pr_created_at = now, pr_updated_at = now\<rparr> \<and>
      mset (map version_from_persisted (row_versions row)) = st_versions s \<and>
      (\<forall>v \<in> set (row_versions row). pv_record_id v = i \<and> pv_created_at v = now) \<and>
      row_attribution row = st_attribution s)"

lemma api_kind_to_string_eq: "api_kind_to_string k = kind_to_string k"
  by (cases k) (simp_all add: api_kind_to_string_def kind_to_string_def)

lemma build_row_versions:
  "map version_from_persisted (row_versions (build_row r st h a)) = rec_versions r"
proof -
  have "version_from_persisted \<lparr>pv_id = version_uuid (ver_id v), pv_record_id = i,
         pv_body = (case ver_body v of Inline bytes \<Rightarrow> PInline bytes | BlobRef key sz \<Rightarrow> PBlobRef key sz),
         pv_created_at = n\<rparr> = v" for v :: version and i n
    by (cases v) (auto simp: version_from_persisted_def body_from_persisted_def split: body.splits)
  then show ?thesis by (simp add: build_row_def Let_def comp_def)
qed

lemma build_row_shows:
  assumes "rec_id r = i" "rec_kind r = st_kind s" "mset (rec_versions r) = st_versions s" "a = st_attribution s"
    and "st = st_state s" "h = st_hash s"
  shows "shows_row (build_row r st h a) i s"
  using assms build_row_versions [of r st h a]
  by (auto simp: shows_row_def Let_def) (auto simp: build_row_def Let_def api_kind_to_string_eq)

lemma row_of_report:
  assumes "reports rwa i s" "stored_wf s"
  obtains row where "record_with_attribution_to_row rwa = Done row" "shows_row row i s"
    "map version_from_persisted (row_versions row) = any_versions (rwa_record rwa)"
proof (cases "rwa_record rwa")
  case (AnyMutable r)
  with assms show ?thesis
    by (intro that [of "build_row r PMutable None (rwa_attribution rwa)"])
      (auto simp: record_with_attribution_to_row_def reports_def stored_wf_def build_row_versions intro!: build_row_shows split: option.splits)
next
  case (AnySnapshot r)
  with assms show ?thesis
    by (intro that [of "build_row r PSnapshot None (rwa_attribution rwa)"])
      (auto simp: record_with_attribution_to_row_def reports_def stored_wf_def build_row_versions intro!: build_row_shows split: option.splits)
next
  case (AnyFixed r)
  with assms obtain h where h: "rec_content_hash r = Some h" "st_hash s = Some (hash_to_string h)"
    by (auto simp: reports_def stored_wf_def split: option.splits)
  with AnyFixed assms show ?thesis
    by (intro that [of "build_row r PFixed (Some (hash_to_string h)) (rwa_attribution rwa)"])
      (auto simp: record_with_attribution_to_row_def reports_def stored_wf_def build_row_versions intro!: build_row_shows split: option.splits)
qed

section \<open>The services the API runs on\<close>

locale api_services = backend ext ops tables blobs + digests ext
  for ext :: "'x api_crates_scheme" and ops :: "'w world_ops"
    and tables :: "'w \<Rightarrow> tables" and blobs :: "'w \<Rightarrow> string \<Rightarrow> byte list option"
begin

lemma wp_json_row:
  assumes "reports rwa i s" "stored_wf s"
    and "\<And>row. shows_row row i s \<Longrightarrow>
      map version_from_persisted (row_versions row) = any_versions (rwa_record rwa) \<Longrightarrow> Q (Inr (RowResponse 200 None row)) w"
  shows "wp ops (json_row rwa) Q w"
proof -
  obtain row where "record_with_attribution_to_row rwa = Done row" "shows_row row i s"
    "map version_from_persisted (row_versions row) = any_versions (rwa_record rwa)"
    using row_of_report [OF assms(1,2)] .
  then show ?thesis using assms(3) by (simp add: json_row_def)
qed

lemma wp_find_or_404:
  assumes ok: "repo_ok ext (tables w)"
    and found: "\<And>row rows e s w'. tables w' = tables w \<Longrightarrow> blobs w' = blobs w \<Longrightarrow> answer ext (tables w) i row rows e \<Longrightarrow>
      view ext (tables w) i = Some s \<Longrightarrow> reports (assembled ext i row rows e) i s \<Longrightarrow> stored_wf s \<Longrightarrow>
      Q (Inr (assembled ext i row rows e)) w'"
    and missing: "\<And>w'. tables w' = tables w \<Longrightarrow> blobs w' = blobs w \<Longrightarrow> view ext (tables w) i = None \<Longrightarrow> Q (Inl NotFound) w'"
    and err: "\<And>w'. tables w' = tables w \<Longrightarrow> blobs w' = blobs w \<Longrightarrow> can_fail ops tables \<Longrightarrow> Q (Inl Internal) w'"
  shows "wp ops (find_or_404 ext i) Q w"
proof -
  have inv: "repo_inv ext (tables w)" using ok by (simp add: repo_ok_def)
  have one: "Q (Inr (assembled ext i row rows e)) w'"
    if "tables w' = tables w" "blobs w' = blobs w" and ans: "answer ext (tables w) i row rows e" for row rows e w'
  proof -
    obtain s where s: "view ext (tables w) i = Some s" "reports (assembled ext i row rows e) i s"
      using reports_assembled [OF inv ans] .
    from found [OF that s view_wf [OF inv s(1)]] show ?thesis .
  qed
  show ?thesis
    unfolding find_or_404_def wp_prog_try wp_api_call find_record_def
    by (rule wp_assemble [OF inv]) (use one missing err in \<open>simp_all add: view_None api_error_from_def\<close>)
qed

end

interpretation mem_services: api_services mem_api_crates "mem_ops f" mw_tables mem_blobs
  by unfold_locales

section \<open>Contracts\<close>

definition get_contract :: "bool \<Rightarrow> uuid \<Rightarrow> store \<Rightarrow> response \<Rightarrow> bool" where
  "get_contract F i S res \<longleftrightarrow>
     (case S i of
        None \<Rightarrow> res = Inl NotFound
      | Some s \<Rightarrow> \<exists>row. res = Inr (RowResponse 200 None row) \<and> shows_row row i s) \<or>
     F \<and> res = Inl Internal"

definition put_contract ::
  "'x api_crates_scheme \<Rightarrow> bool \<Rightarrow> uuid \<Rightarrow> body_input \<Rightarrow> store \<Rightarrow> store \<Rightarrow> response \<Rightarrow> bool" where
  "put_contract ext F i b S S' res \<longleftrightarrow>
     (case S i of
        None \<Rightarrow> S' = S \<and> (res = Inl NotFound \<or> F \<and> res = Inl Internal)
      | Some s \<Rightarrow>
          if st_state s \<noteq> PMutable
          then S' = S \<and> (res = Inl (StateConflict ''mutable'' (as_literal (st_state s))) \<or> F \<and> res = Inl Internal)
          else (case into_core_body ext b of
              Inl e \<Rightarrow> S' = S \<and> (res = Inl e \<or> F \<and> res = Inl Internal)
            | Inr core_body \<Rightarrow> \<exists>vid s'.
                s' = s\<lparr>st_versions := add_mset \<lparr>ver_id = VersionId vid, ver_body = core_body\<rparr> (st_versions s)\<rparr> \<and>
                (S' = S(i \<mapsto> s') \<and> (\<exists>row. res = Inr (RowResponse 200 None row) \<and> shows_row row i s') \<or>
                 F \<and> res = Inl Internal \<and> (S' = S \<or> S' = S(i \<mapsto> s')))))"

text \<open>\<open>i\<close> and \<open>v\<close> are the ids drawn for the record and its version.\<close>

definition post_contract ::
  "'x api_crates_scheme \<Rightarrow> bool \<Rightarrow> claims option \<Rightarrow> create_record_request \<Rightarrow> uuid \<Rightarrow> uuid \<Rightarrow> store \<Rightarrow> store \<Rightarrow> response \<Rightarrow> bool" where
  "post_contract ext F claims req i v S S' res \<longleftrightarrow>
     (case (parse_kind (cr_kind req), into_core_body ext (cr_body req)) of
        (Inl e, _) \<Rightarrow> S' = S \<and> res = Inl e
      | (Inr k, Inl e) \<Rightarrow> S' = S \<and> res = Inl e
      | (Inr k, Inr b) \<Rightarrow>
          let r = record_new i v k b;
              sub = (case claims of Some c \<Rightarrow> cl_sub c | None \<Rightarrow> ''anonymous'');
              created = (\<lambda>T. \<exists>now. T = S(i \<mapsto> saved ext literal_mutable r (''creo_user'', sub) now)) in
          if S i \<noteq> None then S' = S \<and> (res = Inl ApiAlreadyExists \<or> F \<and> res = Inl Internal)
          else created S' \<and> (\<exists>at. res = Inr (RowResponse 201 (Some (''/records/'' @ uuid_to_string ext i))
                 (build_row r PMutable None \<lparr>pa_creator = ''creo_user:'' @ sub, pa_at = at\<rparr>))) \<or>
               F \<and> res = Inl Internal \<and> (S' = S \<or> created S'))"

lemma creator_split: "split_once CHR '':'' (creator_from_claims c) = Some (''creo_user'', case c of Some c \<Rightarrow> cl_sub c | None \<Rightarrow> ''anonymous'')"
  by (cases c) (simp_all add: creator_from_claims_def)

lemma creator_text: "creator_from_claims c = ''creo_user:'' @ (case c of Some c \<Rightarrow> cl_sub c | None \<Rightarrow> ''anonymous'')"
  by (cases c) (simp_all add: creator_from_claims_def)

definition version_taken :: "'x crates_scheme \<Rightarrow> uuid \<Rightarrow> tables \<Rightarrow> bool" where
  "version_taken ext v t \<longleftrightarrow> uuid_to_string ext v \<in> fst ` set (t_version t)"

text \<open>The tails of the handlers that change a record: reading it back, and freezing it first.\<close>

abbreviation reread :: "'x api_crates_scheme \<Rightarrow> uuid \<Rightarrow> response prog" where
  "reread ext i \<equiv> prog_try (find_or_404 ext i) (\<lambda>rwa'. json_row rwa')"

abbreviation freeze :: "'x api_crates_scheme \<Rightarrow> uuid \<Rightarrow> sha256_hash \<Rightarrow> response prog" where
  "freeze ext i h \<equiv> prog_try (api_call (transition_to_fixed ext i h)) (\<lambda>_. reread ext i)"

abbreviation verify_and_freeze ::
  "'x api_crates_scheme \<Rightarrow> app_state \<Rightarrow> uuid \<Rightarrow> body \<Rightarrow> sha256_hash \<Rightarrow> response prog" where
  "verify_and_freeze ext st i b h \<equiv> prog_try (computed_hash ext st b) (\<lambda>computed.
     if computed \<noteq> h then Ret (Inl (HashMismatch (hash_to_string computed) (hash_to_string h)))
     else prog_try (copy_to_fixed ext st b h) (\<lambda>_. freeze ext i h))"

context api_services
begin

lemma get_law:
  assumes ok: "repo_ok ext (tables w)"
  shows "wp ops (get_one ext i) (\<lambda>res w'. tables w' = tables w \<and> blobs w' = blobs w \<and>
     get_contract (can_fail ops tables) i (view ext (tables w)) res) w"
  unfolding get_one_def wp_prog_try
  by (rule wp_find_or_404 [OF ok]) (auto simp: get_contract_def intro!: wp_json_row)

lemma find_chain_law:
  assumes "repo_ok ext (tables w)"
  shows "wp ops (find_or_404 ext i) (\<lambda>r w'. tables w' = tables w \<and> blobs w' = blobs w \<and>
     (case r of
        Inr rwa \<Rightarrow> \<exists>s. view ext (tables w) i = Some s \<and> reports rwa i s \<and> stored_wf s \<and>
          chain_read ext (tables w) i (any_versions (rwa_record rwa))
      | Inl e \<Rightarrow> e = NotFound \<and> view ext (tables w) i = None \<or> e = Internal \<and> can_fail ops tables)) w"
proof -
  have inv: "repo_inv ext (tables w)" using assms by (simp add: repo_ok_def)
  have "chain_read ext (tables w) i (any_versions (rwa_record (assembled ext i row rows e)))"
    if "answer ext (tables w) i row rows e" for row rows e
    using that assembled_reads(5) [OF inv that] unfolding chain_read_def answer_def by blast
  then show ?thesis by (intro wp_find_or_404 [OF assms]) auto
qed

lemma append_law:
  assumes ok: "repo_ok ext (tables w)" and w1: "tables w1 = tables w" "blobs w1 = blobs w"
    and s: "view ext (tables w) i = Some s" "st_state s = PMutable" "into_core_body ext body = Inr b"
    and F: "F \<longleftrightarrow> can_fail ops tables \<or> version_taken ext (fst (do_now_v7 ops w1)) (tables w)"
  shows "wp ops (prog_try (api_call (add_version ext i b)) (\<lambda>_. reread ext i)) (\<lambda>res w'. repo_ok ext (tables w') \<and>
     blobs w' = blobs w \<and> put_contract ext F i body (view ext (tables w)) (view ext (tables w')) res) w1"
proof -
  let ?S = "view ext (tables w)"
  have ok1: "repo_ok ext (tables w1)" and s1: "view ext (tables w1) i = Some s" using ok w1 s by simp_all
  have F1: "can_fail ops tables \<or> uuid_to_string ext (fst (do_now_v7 ops w1)) \<in> fst ` set (t_version (tables w1)) \<longleftrightarrow> F"
    using w1 F by (simp add: version_taken_def)
  show ?thesis
    unfolding wp_prog_try wp_api_call
  proof (rule wp_mono [OF add_version_law [OF ok1 s1, of b, unfolded F1]], goal_cases)
    case (1 res w2)
    then obtain vid where vid: "commits F (\<lambda>T. T = ?S(i \<mapsto> s\<lparr>st_versions := add_mset \<lparr>ver_id = VersionId vid, ver_body = b\<rparr> (st_versions s)\<rparr>))
         ?S (view ext (tables w2)) \<lparr>ver_id = VersionId vid, ver_body = b\<rparr> res"
      and ok2: "repo_ok ext (tables w2)" "blobs w2 = blobs w"
      using w1 by (auto simp: add_version_contract_def)
    let ?s = "s\<lparr>st_versions := add_mset \<lparr>ver_id = VersionId vid, ver_body = b\<rparr> (st_versions s)\<rparr>"
    show ?case
    proof (cases res)
      case (Inl e)
      then show ?thesis
        using vid s ok2 by (auto simp: commits_def put_contract_def api_error_from_def intro!: exI [of _ vid])
    next
      case (Inr v)
      with vid have v2: "view ext (tables w2) = ?S(i \<mapsto> ?s)" by (simp add: commits_def)
      show ?thesis
        unfolding Inr map_err_simps sum.case wp_prog_try
        by (rule wp_find_or_404 [OF ok2(1)])
          (use v2 s ok2 F in \<open>auto simp: put_contract_def intro!: wp_json_row exI [of _ vid]\<close>)
    qed
  qed
qed

lemma put_law:
  assumes ok: "repo_ok ext (tables w)"
  shows "wp ops (put_one ext i req) (\<lambda>res w'. repo_ok ext (tables w') \<and> blobs w' = blobs w \<and>
     put_contract ext (can_fail ops tables \<or> version_taken ext (fst (do_now_v7 ops (snd (run ops (find_or_404 ext i) w)))) (tables w))
       i (ur_body req) (view ext (tables w)) (view ext (tables w')) res) w"
proof -
  define F where "F \<longleftrightarrow> can_fail ops tables \<or> version_taken ext (fst (do_now_v7 ops (snd (run ops (find_or_404 ext i) w)))) (tables w)"
  let ?S = "view ext (tables w)"
  show ?thesis
    unfolding put_one_def F_def [symmetric] wp_prog_try
  proof (rule wp_mono [OF wp_exact [OF find_chain_law [OF ok]]], goal_cases)
    case (1 r w1)
    then have w1: "tables w1 = tables w" "blobs w1 = blobs w" "w1 = snd (run ops (find_or_404 ext i) w)" by simp_all
    show ?case
    proof (cases r)
      case (Inl e)
      with 1 ok show ?thesis
        by (auto simp: put_contract_def F_def split: option.splits sum.splits)
    next
      case (Inr rwa)
      with 1 obtain s where s: "?S i = Some s" "any_state (rwa_record rwa) = st_state s"
        by (auto simp: reports_def)
      then show ?thesis
        using w1 ok append_law [OF ok w1(1,2) s(1) _ _ F_def [unfolded w1(3) [symmetric]]] Inr
        by (cases "rwa_record rwa"; cases "into_core_body ext (ur_body req)")
          (auto simp: put_contract_def as_literal_def)
    qed
  qed
qed

end

context api_services
begin

lemma first_save_law:
  assumes ok: "repo_ok ext (tables w)" and r: "r = record_new i v k b"
  shows "wp ops (save ext literal_mutable r (creator_from_claims claims)) (\<lambda>res w'. repo_ok ext (tables w') \<and> blobs w' = blobs w \<and>
     save_contract (can_fail ops tables \<or> version_taken ext v (tables w)) ext literal_mutable r
       (''creo_user'', case claims of Some c \<Rightarrow> cl_sub c | None \<Rightarrow> ''anonymous'')
       (view ext (tables w)) (view ext (tables w')) res) w"
proof -
  have "well_formed literal_mutable r" "LITERAL literal_mutable \<noteq> PSnapshot"
    by (simp_all add: r record_new_def well_formed_def literal_mutable_def)
  moreover have "\<not> ids_free ext r (tables w) \<longleftrightarrow> version_taken ext v (tables w)"
    by (simp add: r ids_free_def record_new_def version_taken_def)
  ultimately show ?thesis
    using save_law [of w literal_mutable "creator_from_claims claims" _ r] ok creator_split by (simp only: simp_thms)
qed

lemma post_law:
  assumes ok: "repo_ok ext (tables w)" and draw: "do_now_v7 ops w = (i, w1)" "do_now_v7 ops w1 = (v, w2)"
  shows "wp ops (records_post_one ext claims req) (\<lambda>res w'. repo_ok ext (tables w') \<and> blobs w' = blobs w \<and>
     post_contract ext (can_fail ops tables \<or> version_taken ext v (tables w)) claims req i v
       (view ext (tables w)) (view ext (tables w')) res) w"
proof (cases "parse_kind (cr_kind req)")
  case (Inl e)
  then show ?thesis using ok by (simp add: records_post_one_def post_contract_def)
next
  case k: (Inr k)
  show ?thesis
  proof (cases "into_core_body ext (cr_body req)")
    case (Inl e)
    then show ?thesis using ok k by (simp add: records_post_one_def post_contract_def)
  next
    case b: (Inr b)
    let ?r = "record_new i v k b"
    let ?c = "(''creo_user'', case claims of Some c \<Rightarrow> cl_sub c | None \<Rightarrow> ''anonymous'')"
    have t: "tables w1 = tables w" "blobs w1 = blobs w" "tables w2 = tables w" "blobs w2 = blobs w"
      using draw now_v7_tables db_keeps_blobs(1) by metis+
    have r: "rec_id ?r = i"
      by (simp add: record_new_def)
    note save = first_save_law [of w2 ?r i v k b claims, unfolded t, OF ok refl]
    have id: "pr_id (row_record (build_row ?r PMutable None a)) = i" for a
      by (simp add: build_row_def Let_def r)
    show ?thesis
      unfolding records_post_one_def k b ret_try_simps wp_calls(1) draw prod.case Let_def wp_prog_try wp_api_call
    proof (rule wp_mono [OF save], goal_cases)
      case (1 res w3)
      show ?case
      proof (cases res)
        case (Inl e)
        with 1 show ?thesis
          by (auto simp: post_contract_def k b save_contract_def commits_def fails_def api_error_from_def r Let_def
              split: option.splits)
      next
        case (Inr u)
        then obtain now where now: "view ext (tables w3) = (view ext (tables w))(i \<mapsto> saved ext literal_mutable ?r ?c now)"
          "view ext (tables w) i = None" "repo_ok ext (tables w3)" "blobs w3 = blobs w"
          using 1 by (auto simp: save_contract_def commits_def fails_def r split: option.splits)
        show ?thesis
          unfolding Inr map_err_simps sum.case
          by (rule wp_utc_now) (use now in \<open>auto simp: post_contract_def k b Let_def id creator_text\<close>)
      qed
    qed
  qed
qed

end

section \<open>Fossilization\<close>

text \<open>No two versions of the record were written at one instant.\<close>

definition clock_ordered :: "uuid \<Rightarrow> tables \<Rightarrow> bool" where
  "clock_ordered i t \<longleftrightarrow> distinct (map (\<lambda>kv. vw_created_at (snd kv)) (versions_of i t))"

lemma chain_read_unique:
  assumes "clock_ordered i t" "chain_read ext t i vs" "chain_read ext t i vs'"
  shows "vs = vs'"
proof -
  obtain rows rows' where r: "mset rows = mset (map read_version (versions_of i t))" "sorted (map vr_created_at rows)"
      "vs = map version_from_persisted (chain_of ext rows)"
    and r': "mset rows' = mset (map read_version (versions_of i t))" "sorted (map vr_created_at rows')"
      "vs' = map version_from_persisted (chain_of ext rows')"
    using assms(2,3) unfolding chain_read_def by blast
  have "distinct (map vr_created_at (map read_version (versions_of i t)))"
    using assms(1) by (simp add: clock_ordered_def read_version_def comp_def)
  then have "distinct (map vr_created_at rows')"
    using r'(1) by (metis mset_eq_imp_distinct_iff mset_map)
  with r r' have "rows = rows'" using sorted_key_unique by metis
  with r r' show ?thesis by simp
qed

text \<open>The bytes a body stands for, and what a failed or finished copy may have left in the store.\<close>

definition body_bytes :: "'x api_crates_scheme \<Rightarrow> (string \<Rightarrow> byte list option) \<Rightarrow> body \<Rightarrow> byte list option" where
  "body_bytes ext B b = (case b of Inline bytes \<Rightarrow> Some bytes | BlobRef key _ \<Rightarrow> B (object_path ext key))"

definition copied ::
  "'x api_crates_scheme \<Rightarrow> body \<Rightarrow> sha256_hash \<Rightarrow> (string \<Rightarrow> byte list option) \<Rightarrow> (string \<Rightarrow> byte list option) \<Rightarrow> bool" where
  "copied ext b h B B' \<longleftrightarrow>
     B' = B \<or>
     (\<exists>key sz bytes. b = BlobRef key sz \<and> B (object_path ext key) = Some bytes \<and> sha256_of ext bytes = h \<and>
        B (object_path ext (''/fixed/'' @ hash_to_string h)) = None \<and>
        B' = B(object_path ext (''/fixed/'' @ hash_to_string h) \<mapsto> bytes))"

definition fossil :: "sha256_hash \<Rightarrow> uuid \<Rightarrow> version list \<Rightarrow> stored \<Rightarrow> stored" where
  "fossil h i vs s = s\<lparr>st_state := PFixed, st_hash := Some (hash_to_string h),
     st_versions := mset (rec_versions (fossilize i (st_kind s) vs h))\<rparr>"

text \<open>The bytes the server can read of a body, and the blobs once they are copied under \<open>/fixed/\<close>: a copy that is there
  already is left alone.\<close>

definition is_blob_ref :: "body \<Rightarrow> bool" where
  "is_blob_ref b \<longleftrightarrow> (case b of Inline _ \<Rightarrow> False | BlobRef _ _ \<Rightarrow> True)"

definition readable :: "'x api_crates_scheme \<Rightarrow> app_state \<Rightarrow> (string \<Rightarrow> byte list option) \<Rightarrow> body \<Rightarrow> byte list option" where
  "readable ext st B b = (if is_blob_ref b \<and> as_storage st = None then None else body_bytes ext B b)"

definition fixed_path :: "'x api_crates_scheme \<Rightarrow> sha256_hash \<Rightarrow> string" where
  "fixed_path ext h = object_path ext (''/fixed/'' @ hash_to_string h)"

definition fixed_copy ::
  "'x api_crates_scheme \<Rightarrow> body \<Rightarrow> sha256_hash \<Rightarrow> byte list \<Rightarrow> (string \<Rightarrow> byte list option) \<Rightarrow> (string \<Rightarrow> byte list option)" where
  "fixed_copy ext b h bytes B =
     (if is_blob_ref b \<and> B (fixed_path ext h) = None then B(fixed_path ext h \<mapsto> bytes) else B)"

text \<open>
  \<open>F\<close>: a call of the database can fail; \<open>G\<close>: one of the object store can. A trailing body that cannot be read
  (no storage configured, no such blob) is refused with 500, a digest that differs with 400. Otherwise the record is
  frozen and shown, unless a call failed: one of the object store, or one of the database before the
  transition, leaves the record as it was; one of the database later may leave it frozen, and then the copy is there.
\<close>

definition fix_contract ::
  "'x api_crates_scheme \<Rightarrow> app_state \<Rightarrow> bool \<Rightarrow> bool \<Rightarrow> uuid \<Rightarrow> sha256_hash \<Rightarrow> version list \<Rightarrow>
   store \<Rightarrow> (string \<Rightarrow> byte list option) \<Rightarrow> store \<Rightarrow> (string \<Rightarrow> byte list option) \<Rightarrow> response \<Rightarrow> bool" where
  "fix_contract ext st F G i h vs S B S' B' res \<longleftrightarrow>
     (case S i of
        None \<Rightarrow> S' = S \<and> B' = B \<and> (res = Inl NotFound \<or> F \<and> res = Inl Internal)
      | Some s \<Rightarrow>
          if st_state s = PFixed
          then S' = S \<and> B' = B \<and> (res = Inl (StateConflict ''mutable | snapshot'' ''fixed'') \<or> F \<and> res = Inl Internal)
          else
            (let b = ver_body (last vs); store_fails = (G \<and> is_blob_ref b); frozen = S(i \<mapsto> fossil h i vs s) in
             case readable ext st B b of
               None \<Rightarrow> S' = S \<and> B' = B \<and> res = Inl Internal
             | Some bytes \<Rightarrow>
                 if sha256_of ext bytes \<noteq> h
                 then S' = S \<and> B' = B \<and>
                   (res = Inl (HashMismatch (hash_to_string (sha256_of ext bytes)) (hash_to_string h)) \<or>
                    (F \<or> store_fails) \<and> res = Inl Internal)
                 else
                   B' = fixed_copy ext b h bytes B \<and> S' = frozen \<and>
                     (\<exists>row. res = Inr (RowResponse 200 None row) \<and> shows_row row i (fossil h i vs s)) \<or>
                   res = Inl Internal \<and> F \<and> B' = fixed_copy ext b h bytes B \<and> (S' = S \<or> S' = frozen) \<or>
                   res = Inl Internal \<and> (F \<or> store_fails) \<and> S' = S \<and> (B' = B \<or> B' = fixed_copy ext b h bytes B)))"

lemma fixed_copy_copied:
  "body_bytes ext B b = Some bytes \<Longrightarrow> sha256_of ext bytes = h \<Longrightarrow> copied ext b h B (fixed_copy ext b h bytes B)"
  by (auto simp: fixed_copy_def copied_def body_bytes_def is_blob_ref_def fixed_path_def split: body.splits)

context api_services
begin

lemma wp_s3_get:
  assumes "\<And>b w'. tables w' = tables w \<Longrightarrow> blobs w' = blobs w \<Longrightarrow> blobs w (object_path ext key) = Some b \<Longrightarrow> Q (Inr b) w'"
    and "\<And>e w'. tables w' = tables w \<Longrightarrow> blobs w' = blobs w \<Longrightarrow>
      blobs w (object_path ext key) = None \<or> store_can_fail ops \<Longrightarrow> Q (Inl e) w'"
  shows "wp ops (s3_get ext key) Q w"
proof (cases "do_obj_get ops (object_path ext key) w")
  case (Pair r w')
  then have "blobs w (object_path ext key) = None \<or> store_can_fail ops" if "r = Inl e" for e
    using that obj_get_missing [of "object_path ext key" w _ w'] store_can_fail.get_lost [of ops "object_path ext key" w e w'] by blast
  then show ?thesis
    using assms obj_get_blobs [OF Pair] obj_keeps_tables(2) [OF Pair] obj_get_ok Pair
    by (cases r) (auto simp: s3_get_def wp_calls)
qed

lemma wp_s3_put_if_absent:
  assumes "\<And>w'. tables w' = tables w \<Longrightarrow> blobs w (object_path ext key) = None \<Longrightarrow>
      blobs w' = (blobs w)(object_path ext key \<mapsto> b) \<Longrightarrow> Q (Inr Wrote) w'"
    and "\<And>w'. tables w' = tables w \<Longrightarrow> blobs w (object_path ext key) \<noteq> None \<Longrightarrow> blobs w' = blobs w \<Longrightarrow> Q (Inr AlreadyExists) w'"
    and "\<And>e w'. tables w' = tables w \<Longrightarrow> store_can_fail ops \<Longrightarrow> blobs w' = blobs w \<or>
      blobs w (object_path ext key) = None \<and> blobs w' = (blobs w)(object_path ext key \<mapsto> b) \<Longrightarrow> Q (Inl e) w'"
  shows "wp ops (s3_put_if_absent ext key b) Q w"
proof (cases "do_obj_put_create ops (object_path ext key) b w")
  case (Pair r w')
  note t = obj_keeps_tables(5) [OF Pair]
  show ?thesis
  proof (cases r)
    case (Inr u)
    then show ?thesis
      using assms(1) [OF t] obj_put_create_ok [of "object_path ext key" b w w'] Pair by (simp add: s3_put_if_absent_def wp_calls)
  next
    case (Inl e)
    then show ?thesis
      using assms(2) [OF t] assms(3) [OF t] obj_put_create_exists [of "object_path ext key" b w _ w']
        obj_put_create_err [of "object_path ext key" b w e w'] store_can_fail.create_lost [of ops "object_path ext key" b w e w'] Pair
      by (cases e) (simp_all add: s3_put_if_absent_def wp_calls)
  qed
qed

lemma wp_computed_hash:
  assumes "\<And>bytes w'. tables w' = tables w \<Longrightarrow> blobs w' = blobs w \<Longrightarrow> readable ext st (blobs w) b = Some bytes \<Longrightarrow>
      Q (Inr (sha256_of ext bytes)) w'"
    and "\<And>w'. tables w' = tables w \<Longrightarrow> blobs w' = blobs w \<Longrightarrow>
      readable ext st (blobs w) b = None \<or> store_can_fail ops \<and> is_blob_ref b \<Longrightarrow> Q (Inl Internal) w'"
  shows "wp ops (computed_hash ext st b) Q w"
proof (cases b)
  case (Inline bytes)
  then show ?thesis using assms(1) by (simp add: computed_hash_def readable_def is_blob_ref_def body_bytes_def)
next
  case (BlobRef key sz)
  then show ?thesis
    using assms by (cases "as_storage st")
      (auto simp: computed_hash_def readable_def is_blob_ref_def body_bytes_def intro!: wp_s3_get)
qed

lemma wp_copy_to_fixed:
  assumes read: "readable ext st (blobs w) b = Some bytes"
    and copy: "\<And>w'. tables w' = tables w \<Longrightarrow> blobs w' = fixed_copy ext b h bytes (blobs w) \<Longrightarrow> Q (Inr ()) w'"
    and failed: "\<And>w'. tables w' = tables w \<Longrightarrow> blobs w' = blobs w \<or> blobs w' = fixed_copy ext b h bytes (blobs w) \<Longrightarrow>
      is_blob_ref b \<Longrightarrow> store_can_fail ops \<Longrightarrow> Q (Inl Internal) w'"
  shows "wp ops (copy_to_fixed ext st b h) Q w"
proof (cases b)
  case (Inline bytes')
  then show ?thesis using copy by (simp add: copy_to_fixed_def fixed_copy_def is_blob_ref_def)
next
  case (BlobRef key sz)
  then obtain s where s: "as_storage st = Some s" and stored: "blobs w (object_path ext key) = Some bytes"
    using read by (auto simp: readable_def is_blob_ref_def body_bytes_def split: if_splits)
  have ref: "is_blob_ref b" using BlobRef by (simp add: is_blob_ref_def)
  note copy' = copy [unfolded fixed_copy_def fixed_path_def] and failed' = failed [OF _ _ ref, unfolded fixed_copy_def fixed_path_def]
  show ?thesis
    unfolding copy_to_fixed_def BlobRef s prod.case body.case option.case wp_prog_try wp_prog_map_err
    by (rule wp_s3_get; simp; (rule wp_s3_put_if_absent)?) (use copy' failed' ref stored in auto)
qed

lemma fix_tail_law:
  assumes ok: "repo_ok ext (tables w)" and ordered: "clock_ordered i (tables w)" "chain_read ext (tables w) i vs"
    and h: "hash_wf h" and s: "view ext (tables w) i = Some s" "st_state s \<noteq> PFixed"
    and w2: "tables w2 = tables w"
  shows "wp ops (prog_try (api_call (transition_to_fixed ext i h)) (\<lambda>_. prog_try (find_or_404 ext i) (\<lambda>rwa'. json_row rwa')))
    (\<lambda>res w'. repo_ok ext (tables w') \<and> blobs w' = blobs w2 \<and>
       (let S = view ext (tables w); S' = view ext (tables w') in
        S' = S(i \<mapsto> fossil h i vs s) \<and> (\<exists>row. res = Inr (RowResponse 200 None row) \<and> shows_row row i (fossil h i vs s)) \<or>
        can_fail ops tables \<and> res = Inl Internal \<and> (S' = S \<or> S' = S(i \<mapsto> fossil h i vs s)))) w2"
  unfolding wp_prog_try wp_api_call
proof (rule wp_mono [OF transition_law [OF _ h]], goal_cases)
  case 1
  then show ?case using ok w2 by simp
next
  case (2 res w3)
  let ?S = "view ext (tables w)"
  have c: "commits (can_fail ops tables) (\<lambda>T. T = ?S(i \<mapsto> fossil h i vs s)) ?S (view ext (tables w3)) (fossilize i (st_kind s) vs h) res"
    using 2 s w2 chain_read_unique [OF ordered(1) _ ordered(2)] by (auto simp: transition_contract_def fossil_def)
  have w3: "repo_ok ext (tables w3)" "blobs w3 = blobs w2" using 2 by simp_all
  show ?case
  proof (cases res)
    case (Inl e)
    then show ?thesis using c w3 by (auto simp: commits_def Let_def api_error_from_def)
  next
    case (Inr f)
    then have v: "view ext (tables w3) = ?S(i \<mapsto> fossil h i vs s)" using c by (simp add: commits_def)
    show ?thesis
      unfolding Inr map_err_simps sum.case wp_prog_try
      by (rule wp_find_or_404 [OF w3(1)]) (use v w3 in \<open>auto simp: Let_def intro!: wp_json_row\<close>)
  qed
qed

lemma verify_and_freeze_law:
  assumes ok: "repo_ok ext (tables w)" and ordered: "clock_ordered i (tables w)" "chain_read ext (tables w) i vs"
    and h: "hash_wf h" and w1: "tables w1 = tables w" "blobs w1 = blobs w"
    and s: "view ext (tables w) i = Some s" "st_state s \<noteq> PFixed"
  shows "wp ops (verify_and_freeze ext st i (ver_body (last vs)) h) (\<lambda>res w'. repo_ok ext (tables w') \<and>
     fix_contract ext st (can_fail ops tables) (store_can_fail ops) i h vs
       (view ext (tables w)) (blobs w) (view ext (tables w')) (blobs w') res) w1"
    (is "wp ops _ ?post w1")
  unfolding wp_prog_try [of _ "computed_hash ext st b" for b]
proof (rule wp_computed_hash, goal_cases)
  case (1 bytes w2)
  let ?b = "ver_body (last vs)"
  have read: "readable ext st (blobs w) ?b = Some bytes" using 1 w1 by simp
  show ?case
  proof (cases "sha256_of ext bytes = h")
    case False
    then show ?thesis using 1 w1 s ok read by (simp add: fix_contract_def Let_def)
  next
    case eq: True
    show ?thesis
      unfolding sum.case eq simp_thms if_False wp_prog_try
    proof (rule wp_copy_to_fixed [where bytes = bytes], goal_cases)
      case 1
      then show ?case using read \<open>blobs w2 = blobs w1\<close> w1 by simp
    next
      case c: (2 w3)
      then have w3: "tables w3 = tables w" "blobs w3 = fixed_copy ext ?b h bytes (blobs w)" using 1 w1 by simp_all
      have "wp ops (freeze ext i h) ?post w3"
        by (rule wp_mono [OF fix_tail_law [OF ok ordered h s w3(1)]])
          (use s read eq w3 in \<open>auto simp: fix_contract_def Let_def\<close>)
      then show ?case by (simp only: sum.case wp_prog_try)
    next
      case (3 w3)
      then show ?case using 1 w1 s ok eq read by (auto simp: fix_contract_def Let_def)
    qed
  qed
next
  case (2 w2)
  then show ?case using w1 s ok by (cases "readable ext st (blobs w) (ver_body (last vs))") (auto simp: fix_contract_def Let_def)
qed

lemma fix_law:
  assumes ok: "repo_ok ext (tables w)" and ordered: "clock_ordered i (tables w)" "chain_read ext (tables w) i vs"
    and parsed: "api_parse_sha256_hex ext (fr_content_hash req) = Done (Inr h)" and h: "hash_wf h"
  shows "wp ops (fix_one ext st i req) (\<lambda>res w'. repo_ok ext (tables w') \<and>
     fix_contract ext st (can_fail ops tables) (store_can_fail ops) i h vs
       (view ext (tables w)) (blobs w) (view ext (tables w')) (blobs w') res) w"
proof -
  let ?S = "view ext (tables w)"
  show ?thesis
    unfolding fix_one_def parsed of_outcome.simps prog_try_simps wp_prog_try
  proof (rule wp_mono [OF find_chain_law [OF ok]], goal_cases)
    case (1 r w1)
    show ?case
    proof (cases r)
      case (Inl e)
      with 1 ok show ?thesis by (auto simp: fix_contract_def Let_def split: option.splits)
    next
      case (Inr rwa)
      with 1 obtain s where s: "?S i = Some s" "reports rwa i s" "stored_wf s"
        and vs: "any_versions (rwa_record rwa) = vs"
        using chain_read_unique [OF ordered(1) _ ordered(2)] by auto
      then have ne: "vs \<noteq> []" by (auto simp: reports_def stored_wf_def)
      show ?thesis
      proof (cases "st_state s = PFixed")
        case True
        then show ?thesis
          using s 1 ok Inr by (cases "rwa_record rwa") (auto simp: reports_def fix_contract_def)
      next
        case False
        then show ?thesis
          using s vs ne 1 verify_and_freeze_law [OF ok ordered h _ _ s(1) False, of w1 st, unfolded wp_prog_try] Inr
          by (cases "rwa_record rwa") (auto simp: trailing_body_def reports_def)
      qed
    qed
  qed
qed

end

section \<open>Properties\<close>

text \<open>C32: \<open>GET /records/{id}\<close> answers 200 with the record as the store holds it, 404 when there is
  none, 500 only when the database can fail; it changes nothing.\<close>

theorem get_refines:
  assumes "api_services ext ops tables blobs" and "repo_ok ext (tables w)"
  shows "wp ops (get_one ext i) (\<lambda>res w'. tables w' = tables w \<and> blobs w' = blobs w \<and>
     get_contract (can_fail ops tables) i (view ext (tables w)) res) w"
  using api_services.get_law [OF assms] .

text \<open>C18: \<open>PUT /records/{id}\<close> answers 404 for a missing record, 409 for one that is not mutable, 400
  for a bad body, in this order and with nothing changed; otherwise it adds one version with the
  body of the request and shows the record that then is in the store.\<close>

theorem put_refines:
  assumes "api_services ext ops tables blobs" and "repo_ok ext (tables w)"
  shows "wp ops (put_one ext i req) (\<lambda>res w'. repo_ok ext (tables w') \<and> blobs w' = blobs w \<and>
     put_contract ext (can_fail ops tables \<or> version_taken ext (fst (do_now_v7 ops (snd (run ops (find_or_404 ext i) w)))) (tables w))
       i (ur_body req) (view ext (tables w)) (view ext (tables w')) res) w"
  using api_services.put_law [OF assms] .

text \<open>C17: \<open>POST /records\<close> answers 400 for a bad kind or body with nothing changed; otherwise it stores
  a mutable record with the one version of the request under the id it has drawn, owned by the
  token's subject, and answers 201 with its location and row.\<close>

theorem post_refines:
  assumes "api_services ext ops tables blobs" and "repo_ok ext (tables w)"
    and "do_now_v7 ops w = (i, w1)" "do_now_v7 ops w1 = (v, w2)"
  shows "wp ops (records_post_one ext claims req) (\<lambda>res w'. repo_ok ext (tables w') \<and> blobs w' = blobs w \<and>
     post_contract ext (can_fail ops tables \<or> version_taken ext v (tables w)) claims req i v
       (view ext (tables w)) (view ext (tables w')) res) w"
  using api_services.post_law [OF assms] .


section \<open>Witnesses\<close>

lemma view_mem_api [simp]: "view mem_api_crates = view mem_crates"
  by (simp add: fun_eq_iff view_def stored_version_def [abs_def] attribution_of_def)

lemma repo_ok_mem_api [simp]: "repo_ok mem_api_crates = repo_ok mem_crates"
  by (simp add: fun_eq_iff repo_ok_def repo_inv_def record_wf_def no_orphans_def)



lemma sample_ok_api: "repo_ok mem_api_crates (mw_tables sample_world)"
  by (simp add: sample_ok)

lemma get_refines_witness:
  "wp (mem_ops True) (get_one mem_api_crates 1) (\<lambda>res w'. mw_tables w' = mw_tables sample_world \<and> mem_blobs w' = mem_blobs sample_world \<and>
     get_contract (can_fail (mem_ops True) mw_tables) 1 (view mem_api_crates (mw_tables sample_world)) res) sample_world"
  by (rule get_refines [OF mem_services.api_services_axioms sample_ok_api])

lemma put_refines_witness:
  "wp (mem_ops False) (put_one mem_api_crates 1 \<lparr>ur_body = InlineB64 ''QQ==''\<rparr>)
     (\<lambda>res w'. repo_ok mem_api_crates (mw_tables w') \<and> mem_blobs w' = mem_blobs sample_world \<and>
     put_contract mem_api_crates (can_fail (mem_ops False) mw_tables \<or> version_taken mem_api_crates
         (fst (do_now_v7 (mem_ops False) (snd (run (mem_ops False) (find_or_404 mem_api_crates 1) sample_world)))) (mw_tables sample_world))
       1 (ur_body \<lparr>ur_body = InlineB64 ''QQ==''\<rparr>) (view mem_api_crates (mw_tables sample_world)) (view mem_api_crates (mw_tables w')) res) sample_world"
  by (rule put_refines [OF mem_services.api_services_axioms sample_ok_api])

lemma post_refines_witness:
  "wp (mem_ops False) (records_post_one mem_api_crates None \<lparr>cr_kind = ''log'', cr_body = InlineB64 ''QQ==''\<rparr>)
     (\<lambda>res w'. repo_ok mem_api_crates (mw_tables w') \<and> mem_blobs w' = mem_blobs empty_world \<and>
     post_contract mem_api_crates (can_fail (mem_ops False) mw_tables \<or> version_taken mem_api_crates 2 (mw_tables empty_world))
       None \<lparr>cr_kind = ''log'', cr_body = InlineB64 ''QQ==''\<rparr> 1 2
       (view mem_api_crates (mw_tables empty_world)) (view mem_api_crates (mw_tables w')) res) empty_world"
proof (rule post_refines [OF mem_services.api_services_axioms])
  show "repo_ok mem_api_crates (mw_tables empty_world)" by (simp add: empty_ok)
  show "do_now_v7 (mem_ops False) empty_world = (1, empty_world\<lparr>mw_next := 2\<rparr>)"
    "do_now_v7 (mem_ops False) (empty_world\<lparr>mw_next := 2\<rparr>) = (2, empty_world\<lparr>mw_next := 3\<rparr>)"
    by (simp_all add: mem_ops_def empty_world_def)
qed


end
