(* ===== verification/Gate_Spec.thy ===== *)
theory Gate_Spec
  imports Records_Spec
begin

text \<open>
  The two gates around the protected routes: the contract of a middleware as a locale, layers of two,
  the token gate and the scope gate as instances, and what the router lets through.
\<close>


section \<open>Middlewares\<close>

text \<open>
  A middleware either runs the service it wraps, on the request and world \<open>admits\<close> allows, or answers
  an error that \<open>refuses\<close> allows without running it.
\<close>

locale middleware =
  fixes ops :: "'w world_ops"
    and mw :: "(request \<Rightarrow> response prog) \<Rightarrow> request \<Rightarrow> response prog"
    and admits :: "request \<Rightarrow> 'w \<Rightarrow> request \<Rightarrow> 'w \<Rightarrow> bool"
    and refuses :: "request \<Rightarrow> 'w \<Rightarrow> api_error \<Rightarrow> 'w \<Rightarrow> bool"
  assumes gate: "(\<And>req' w'. admits req w req' w' \<Longrightarrow> wp ops (k req') Q w') \<Longrightarrow>
      (\<And>e w'. refuses req w e w' \<Longrightarrow> Q (Inl e) w') \<Longrightarrow> wp ops (mw k req) Q w"
begin

lemma refused:
  "(\<And>req' w'. \<not> admits req w req' w') \<Longrightarrow> wp ops (mw k req) (\<lambda>res w'. \<exists>e. res = Inl e \<and> refuses req w e w') w"
  by (rule gate) auto

end

text \<open>Layers: the outer one runs first.\<close>

locale two_layers = outer: middleware ops mw1 admits1 refuses1 + inner: middleware ops mw2 admits2 refuses2
  for ops :: "'w world_ops" and mw1 admits1 refuses1 mw2 admits2 refuses2
begin

lemma layered_gate:
  assumes "\<And>req1 w1 req' w'. admits1 req w req1 w1 \<Longrightarrow> admits2 req1 w1 req' w' \<Longrightarrow> wp ops (k req') Q w'"
    and "\<And>e w'. refuses1 req w e w' \<Longrightarrow> Q (Inl e) w'"
    and "\<And>req1 w1 e w'. admits1 req w req1 w1 \<Longrightarrow> refuses2 req1 w1 e w' \<Longrightarrow> Q (Inl e) w'"
  shows "wp ops (mw1 (mw2 k) req) Q w"
  by (rule outer.gate) (use assms in \<open>blast intro: inner.gate\<close>)+

end

sublocale two_layers \<subseteq> layered: middleware ops "\<lambda>k. mw1 (mw2 k)"
    "\<lambda>req w req' w'. \<exists>req1 w1. admits1 req w req1 w1 \<and> admits2 req1 w1 req' w'"
    "\<lambda>req w e w'. refuses1 req w e w' \<or> (\<exists>req1 w1. admits1 req w req1 w1 \<and> refuses2 req1 w1 e w')"
  by unfold_locales (rule layered_gate; blast)

section \<open>The two gates of the API\<close>

definition mcp_of :: "'x api_crates_scheme \<Rightarrow> request \<Rightarrow> string option" where
  "mcp_of ext req = Option.bind (map_of (rq_headers req) ''x-mcp-client-id'') (header_to_str ext)"

definition token_admits ::
  "'x api_crates_scheme \<Rightarrow> ('w \<Rightarrow> tables) \<Rightarrow> ('w \<Rightarrow> string \<Rightarrow> byte list option) \<Rightarrow> auth0_verifier \<Rightarrow>
   request \<Rightarrow> 'w \<Rightarrow> request \<Rightarrow> 'w \<Rightarrow> bool" where
  "token_admits ext tables blobs v req w req' w' \<longleftrightarrow>
     (\<exists>c u. bearer_claims ext v req = Some c \<and> req' = attach c u (mcp_of ext req) req \<and>
        same_but_users (tables w) (tables w') \<and> blobs w' = blobs w \<and>
        (users_ok ext (tables w) \<longrightarrow> users_ok ext (tables w') \<and> user_view ext (tables w') (cl_sub c) = Some u))"

definition token_refuses ::
  "'x api_crates_scheme \<Rightarrow> ('w \<Rightarrow> tables) \<Rightarrow> ('w \<Rightarrow> string \<Rightarrow> byte list option) \<Rightarrow> auth0_verifier \<Rightarrow>
   request \<Rightarrow> 'w \<Rightarrow> api_error \<Rightarrow> 'w \<Rightarrow> bool" where
  "token_refuses ext tables blobs v req w e w' \<longleftrightarrow>
     (if bearer_claims ext v req = None then e = Unauthorized \<and> w' = w
      else e = Internal \<and> same_but_users (tables w) (tables w') \<and> blobs w' = blobs w \<and>
        (users_ok ext (tables w) \<longrightarrow> users_ok ext (tables w')))"

definition scope_admits :: "string \<Rightarrow> request \<Rightarrow> 'w \<Rightarrow> request \<Rightarrow> 'w \<Rightarrow> bool" where
  "scope_admits scope req w req' w' \<longleftrightarrow> req' = req \<and> w' = w \<and> (\<exists>c. rq_claims req = Some c \<and> has_scope c scope)"

definition scope_refuses :: "string \<Rightarrow> request \<Rightarrow> 'w \<Rightarrow> api_error \<Rightarrow> 'w \<Rightarrow> bool" where
  "scope_refuses scope req w e w' \<longleftrightarrow> w' = w \<and>
     (case rq_claims req of
        None \<Rightarrow> e = Internal
      | Some c \<Rightarrow> \<not> has_scope c scope \<and> e = Forbidden (''scope `'' @ scope @ ''` required''))"

lemma scope_gate:
  assumes "as_auth st = Some v"
  shows "middleware ops (require_scope st scope) (scope_admits scope) (scope_refuses scope)"
  using assms
  by unfold_locales (auto simp: require_scope_def scope_admits_def scope_refuses_def ok_or_def split: option.splits)

lemma upsert_same_users:
  "run_stmt (CreateOrUser k s now) t = Some t' \<Longrightarrow> same_but_users t t'"
  by (auto simp: same_but_users_def split: if_splits)

context api_services
begin

lemma upsert_frame:
  "wp ops (upsert_or_user ext s) (\<lambda>res w'. same_but_users (tables w) (tables w') \<and> blobs w' = blobs w \<and>
     (users_ok ext (tables w) \<longrightarrow> users_ok ext (tables w') \<and>
        (\<forall>u. res = Inr u \<longrightarrow> user_view ext (tables w') s = Some u))) w"
proof (cases "users_ok ext (tables w)")
  case True
  show ?thesis
    by (rule wp_mono [OF upsert_law [OF True]]) (auto simp: upsert_contract_def split: option.splits)
next
  case False
  show ?thesis
    by (rule wp_upsert_or_user) (use False upsert_same_users in \<open>auto simp del: run_stmt.simps\<close>)
qed

lemma token_gate:
  assumes "as_auth st = Some v"
  shows "middleware ops (verify_jwt_middleware ext st) (token_admits ext tables blobs v) (token_refuses ext tables blobs v)"
proof (unfold_locales, goal_cases)
  case (1 req w k Q)
  note pass = 1(1) and stop = 1(2)
  show ?case
  proof (cases "bearer_claims ext v req")
    case None
    then show ?thesis
      using stop by (simp add: verify_jwt_middleware_eq [OF assms] token_refuses_def)
  next
    case (Some c)
    show ?thesis
      unfolding verify_jwt_middleware_eq [OF assms] Some option.case wp_prog_try wp_prog_map_err mcp_of_def [symmetric]
    proof (rule wp_mono [OF upsert_frame], goal_cases)
      case (1 res w')
      note post = this
      show ?case
      proof (cases res)
        case (Inl e)
        then show ?thesis using post stop Some by (simp add: token_refuses_def)
      next
        case (Inr u)
        then show ?thesis using post pass Some by (auto simp: token_admits_def)
      qed
    qed
  qed
qed

end

interpretation mem_token: middleware "mem_ops f" "verify_jwt_middleware mem_api_crates (app_state_with_auth v)"
    "token_admits mem_api_crates mw_tables mem_blobs v" "token_refuses mem_api_crates mw_tables mem_blobs v"
  by (rule mem_services.token_gate) (simp add: app_state_with_auth_def)

interpretation mem_gates: two_layers "mem_ops f"
    "verify_jwt_middleware mem_api_crates (app_state_with_auth v)" "token_admits mem_api_crates mw_tables mem_blobs v"
    "token_refuses mem_api_crates mw_tables mem_blobs v"
    "require_scope (app_state_with_auth v) scope" "scope_admits scope" "scope_refuses scope"
  by (intro two_layers.intro mem_token.middleware_axioms scope_gate) (simp add: app_state_with_auth_def)

section \<open>The router\<close>

text \<open>The scope each protected route asks for.\<close>

definition scope_of :: "endpoint \<Rightarrow> string" where
  "scope_of ep = (case ep of PostAsset _ \<Rightarrow> SCOPE_WRITE | _ \<Rightarrow> SCOPE_READ)"

definition authorised :: "'x api_crates_scheme \<Rightarrow> auth0_verifier \<Rightarrow> endpoint \<Rightarrow> request \<Rightarrow> bool" where
  "authorised ext v ep req \<longleftrightarrow> (\<exists>c. bearer_claims ext v req = Some c \<and> has_scope c (scope_of ep))"

lemma build_router_layers:
  "ep \<noteq> GetHealth \<Longrightarrow> build_router ext st ep =
     verify_jwt_middleware ext st (require_scope st (scope_of ep) (handler ext st ep))"
  by (cases ep)
    (simp_all add: build_router_def scope_of_def Let_def require_scope_read_def [abs_def] require_scope_write_def [abs_def])

lemma token_scope:
  assumes "token_admits ext tables blobs v req w req1 w1"
  obtains c where "bearer_claims ext v req = Some c" "rq_claims req1 = Some c"
  using assms by (auto simp: token_admits_def)

context api_services
begin

lemma gates:
  assumes "as_auth st = Some v"
  shows "two_layers ops (verify_jwt_middleware ext st) (token_admits ext tables blobs v) (token_refuses ext tables blobs v)
    (require_scope st scope) (scope_admits scope) (scope_refuses scope)"
  by (rule two_layers.intro [OF token_gate [OF assms] scope_gate [OF assms]])

lemma refused_law:
  assumes st: "as_auth st = Some v" and ep: "ep \<noteq> GetHealth" and no: "\<not> authorised ext v ep req"
  shows "wp ops (build_router ext st ep req) (\<lambda>res w'. same_but_users (tables w) (tables w') \<and> blobs w' = blobs w \<and>
     (if bearer_claims ext v req = None then res = Inl Unauthorized \<and> w' = w
      else res = Inl (Forbidden (''scope `'' @ scope_of ep @ ''` required'')) \<or> res = Inl Internal)) w"
  unfolding build_router_layers [OF ep]
proof (rule two_layers.layered_gate [OF gates [OF st]], goal_cases)
  case (1 req1 w1 req' w')
  then show ?case
    using no by (auto simp: token_admits_def scope_admits_def authorised_def)
next
  case (2 e w')
  then show ?case by (auto simp: token_refuses_def split: if_splits)
next
  case (3 req1 w1 e w')
  then show ?case by (auto simp: token_admits_def scope_refuses_def)
qed

end

lemma router_enforced:
  assumes "as_auth st = Some v" "ep \<noteq> GetHealth"
  shows "build_router ext st ep req =
     (case bearer_claims ext v req of
        None \<Rightarrow> Ret (Inl Unauthorized)
      | Some c \<Rightarrow> prog_try (prog_map_err (\<lambda>_. Internal) (upsert_or_user ext (cl_sub c))) (\<lambda>u.
          if has_scope c (scope_of ep) then handler ext st ep (attach c u (mcp_of ext req) req)
          else Ret (Inl (Forbidden (''scope `'' @ scope_of ep @ ''` required'')))))"
  using assms unfolding mcp_of_def
  by (simp add: build_router_layers verify_jwt_middleware_eq require_scope_def split: option.splits)

lemma single_scope: "cl_scope c = s \<Longrightarrow> s \<noteq> [] \<Longrightarrow> visible s \<Longrightarrow> has_scope c t \<longleftrightarrow> t = s"
  using has_scope_tokens [of "[s]" c t] by simp

lemma scopes_visible: "visible SCOPE_READ" "visible SCOPE_WRITE" "SCOPE_READ \<noteq> []" "SCOPE_WRITE \<noteq> SCOPE_READ"
  by (simp_all add: visible_def SCOPE_READ_def SCOPE_WRITE_def byte_of_def)

lemma router_open:
  assumes "as_auth st = None \<or> ep = GetHealth"
  shows "build_router ext st ep req = handler ext st ep req"
proof (cases "ep = GetHealth")
  case True
  then show ?thesis by (simp add: build_router_def Let_def)
next
  case False
  then show ?thesis using assms by (simp add: build_router_layers verify_jwt_middleware_def require_scope_def)
qed

section \<open>Properties\<close>

text \<open>C4: with authentication configured, a request to any route but the health probe that bears no
  valid token of the tenant, or one without the scope of its route, is answered 401, 403 or 500; no
  handler runs: records, versions, edges and blobs stay as they were, and without a valid token not
  a single call is made.\<close>

theorem unauthorised_requests_refused:
  assumes "api_services ext ops tables blobs" and "as_auth st = Some v" "ep \<noteq> GetHealth" "\<not> authorised ext v ep req"
  shows "wp ops (build_router ext st ep req) (\<lambda>res w'. same_but_users (tables w) (tables w') \<and> blobs w' = blobs w \<and>
     (if bearer_claims ext v req = None then res = Inl Unauthorized \<and> w' = w
      else res = Inl (Forbidden (''scope `'' @ scope_of ep @ ''` required'')) \<or> res = Inl Internal)) w"
  using api_services.refused_law [OF assms] .

text \<open>C33: the router is transparent where it should be: without authentication configured every route
  is its bare handler, the health probe always is, and an authorised request runs its handler with
  the verified claims and the user of the subject attached.\<close>

theorem router_passes:
  "(as_auth st = None \<or> ep = GetHealth \<longrightarrow> build_router ext st ep req = handler ext st ep req) \<and>
   (as_auth st = Some v \<and> ep \<noteq> GetHealth \<and> bearer_claims ext v req = Some c \<and> has_scope c (scope_of ep) \<longrightarrow>
      build_router ext st ep req =
        prog_try (prog_map_err (\<lambda>_. Internal) (upsert_or_user ext (cl_sub c)))
          (\<lambda>u. handler ext st ep (attach c u (mcp_of ext req) req)))"
  using router_open [of st ep ext req] router_enforced [of st v ep ext req] by auto

text \<open>C40: the three routes that change records ask for the read scope only: a token whose one scope
  is \<open>objectrecords:read\<close> runs their handlers.\<close>

theorem read_scope_admits_writes:
  assumes "as_auth st = Some v" "bearer_claims ext v req = Some c" "cl_scope c = SCOPE_READ"
    and "ep \<in> {PutRecord i u, PostFix i f, PostRecord r}"
  shows "\<not> has_scope c SCOPE_WRITE \<and> build_router ext st ep req =
     prog_try (prog_map_err (\<lambda>_. Internal) (upsert_or_user ext (cl_sub c)))
       (\<lambda>u. handler ext st ep (attach c u (mcp_of ext req) req))"
proof -
  have "has_scope c s \<longleftrightarrow> s = SCOPE_READ" for s
    using single_scope [OF assms(3) scopes_visible(3,1)] .
  moreover have "ep \<noteq> GetHealth" "scope_of ep = SCOPE_READ"
    using assms(4) by (auto simp: scope_of_def)
  ultimately show ?thesis using assms(1,2) scopes_visible(4) by (simp add: router_enforced)
qed

section \<open>Witnesses\<close>

definition sample_verifier :: auth0_verifier where
  "sample_verifier = \<lparr>av_jwks = ''k1'', av_audience = ''api'', av_issuer = ''iss''\<rparr>"

definition sample_claims :: "string \<Rightarrow> claims" where
  "sample_claims scope = \<lparr>cl_sub = ''ana'', cl_aud = ''api'', cl_iss = ''iss'', cl_exp = 0, cl_iat = None, cl_act = None, cl_scope = scope\<rparr>"

definition sample_request :: "string \<Rightarrow> request" where
  "sample_request scope = \<lparr>rq_headers = [(''authorization'', ''Bearer ana,'' @ scope)], rq_claims = None, rq_or_user = None, rq_mcp_client = None\<rparr>"

lemma sample_bearer:
  assumes "visible scope"
  shows "bearer_claims mem_api_crates sample_verifier (sample_request scope) = Some (sample_claims scope)"
proof -
  have header: "header_to_str mem_api_crates (''Bearer ana,'' @ scope) = Some (''Bearer '' @ (''ana,'' @ scope))"
  proof -
    have "32 \<le> byte_of c" if "33 \<le> byte_of c" for c
      using that by (simp add: word_le_nat_alt)
    then have "list_all (\<lambda>c. 32 \<le> byte_of c \<and> byte_of c < 127) scope"
      using assms by (auto simp: visible_def list_all_iff)
    moreover have "list_all (\<lambda>c. 32 \<le> byte_of c \<and> byte_of c < 127) ''Bearer ana,''" by code_simp
    ultimately have "list_all (\<lambda>c. 32 \<le> byte_of c \<and> byte_of c < 127) (''Bearer ana,'' @ scope)"
      by (simp only: list_all_append)
    then show ?thesis by (simp add: mem_api_crates_def crates.defs)
  qed
  have e: "extract_bearer mem_api_crates (sample_request scope) = Inr (''ana,'' @ scope)"
    using header by (simp add: extract_bearer_Inr sample_request_def)
  have "verify mem_api_crates sample_verifier (''ana,'' @ scope) = Inr (sample_claims scope)"
    by (simp add: verify_Inr) (simp add: mem_api_crates_def crates.defs sample_verifier_def mem_jwt_decode_def sample_claims_def)
  then show ?thesis using e unfolding bearer_claims_Some by blast
qed

lemma unauthorised_requests_refused_witness:
  "wp (mem_ops True) (build_router mem_api_crates (app_state_with_auth sample_verifier) (PostAsset [1]) (sample_request SCOPE_READ))
     (\<lambda>res w'. same_but_users (mw_tables sample_world) (mw_tables w') \<and> mem_blobs w' = mem_blobs sample_world \<and>
     (if bearer_claims mem_api_crates sample_verifier (sample_request SCOPE_READ) = None then res = Inl Unauthorized \<and> w' = sample_world
      else res = Inl (Forbidden (''scope `'' @ scope_of (PostAsset [1]) @ ''` required'')) \<or> res = Inl Internal)) sample_world"
  by (rule unauthorised_requests_refused [OF mem_services.api_services_axioms])
    (use single_scope [of "sample_claims SCOPE_READ" SCOPE_READ SCOPE_WRITE] scopes_visible in
      \<open>auto simp: app_state_with_auth_def authorised_def scope_of_def sample_bearer sample_claims_def\<close>)

lemma router_passes_witness:
  "build_router mem_api_crates app_state_new (GetRecord 1) (sample_request []) =
     handler mem_api_crates app_state_new (GetRecord 1) (sample_request [])"
  using router_passes [of app_state_new "GetRecord 1" mem_api_crates "sample_request []"]
  by (simp add: app_state_new_def)

lemma read_scope_admits_writes_witness:
  "\<not> has_scope (sample_claims SCOPE_READ) SCOPE_WRITE \<and>
   build_router mem_api_crates (app_state_with_auth sample_verifier)
     (PostRecord \<lparr>cr_kind = ''log'', cr_body = InlineB64 ''QQ==''\<rparr>) (sample_request SCOPE_READ) =
   prog_try (prog_map_err (\<lambda>_. Internal) (upsert_or_user mem_api_crates (cl_sub (sample_claims SCOPE_READ))))
     (\<lambda>u. handler mem_api_crates (app_state_with_auth sample_verifier)
        (PostRecord \<lparr>cr_kind = ''log'', cr_body = InlineB64 ''QQ==''\<rparr>)
        (attach (sample_claims SCOPE_READ) u (mcp_of mem_api_crates (sample_request SCOPE_READ)) (sample_request SCOPE_READ)))"
  by (rule read_scope_admits_writes) (auto simp: app_state_with_auth_def sample_bearer scopes_visible sample_claims_def)

end
