(* ===== verification/Service_Spec.thy ===== *)
theory Service_Spec
  imports Gate_Spec
begin

text \<open>
  Uploads, content addressing, and the invariant of the whole service: what holds of the database and
  the object store after any sequence of requests to the router, whatever tokens they bear and
  whichever calls fail on the way.
\<close>


section \<open>Uploads\<close>

definition asset_path :: "'x api_crates_scheme \<Rightarrow> byte list \<Rightarrow> string" where
  "asset_path ext b = object_path ext (''/assets/'' @ lower_hex ext (sha256 ext b))"

text \<open>\<open>G\<close>: a call of the object store can fail. Only then is there another reply than the contents determine.\<close>

definition upload_contract ::
  "'x api_crates_scheme \<Rightarrow> app_state \<Rightarrow> bool \<Rightarrow> byte list \<Rightarrow> (string \<Rightarrow> byte list option) \<Rightarrow> (string \<Rightarrow> byte list option) \<Rightarrow>
   response \<Rightarrow> bool" where
  "upload_contract ext st G b B B' res \<longleftrightarrow>
     (let hex = lower_hex ext (sha256 ext b);
          reply = (\<lambda>status out. Inr (AssetResponse status
            \<lparr>au_key = ''/assets/'' @ hex, au_size = of_nat (length b), au_sha256 = hex, au_outcome = out\<rparr>)) in
      if as_storage st = None then B' = B \<and> res = Inl Internal
      else if b = [] then B' = B \<and> res = Inl (BadRequest ''asset body must not be empty'')
      else if length b > ASSET_BODY_LIMIT then B' = B \<and> res = Inl (PayloadTooLarge (length b) ASSET_BODY_LIMIT)
      else (case B (asset_path ext b) of
          None \<Rightarrow> B' = B(asset_path ext b \<mapsto> b) \<and> res = reply 201 ''wrote'' \<or>
            G \<and> res = Inl Internal \<and> (B' = B \<or> B' = B(asset_path ext b \<mapsto> b))
        | Some _ \<Rightarrow> B' = B \<and> (res = reply 200 ''already_exists'' \<or> G \<and> res = Inl Internal)))"

context api_services
begin

lemma upload_law:
  "wp ops (assets_post_one ext st b) (\<lambda>res w'. tables w' = tables w \<and>
     upload_contract ext st (store_can_fail ops) b (blobs w) (blobs w') res) w"
proof (cases "as_storage st = None \<or> b = [] \<or> length b > ASSET_BODY_LIMIT")
  case True
  then show ?thesis
    by (auto simp: assets_post_one_def ensure_storage_def validate_asset_body_def upload_contract_def Let_def ok_or_def
        split: option.splits)
next
  case False
  then obtain s where s: "as_storage st = Some s" by auto
  have key: "object_path ext (''/assets/'' @ lower_hex ext (sha256 ext b)) = asset_path ext b"
    by (simp add: asset_path_def)
  have valid: "validate_asset_body ext b ASSET_BODY_LIMIT =
      Inr (''/assets/'' @ lower_hex ext (sha256 ext b), lower_hex ext (sha256 ext b))"
    using False by (simp add: validate_asset_body_def Let_def)
  show ?thesis
    unfolding assets_post_one_def ensure_storage_def s ok_or_simps ret_try_simps valid prod.case wp_prog_try wp_prog_map_err
    by (rule wp_s3_put_if_absent, unfold key)
      (use False s in \<open>auto simp: upload_contract_def Let_def split: option.splits\<close>)
qed

end

section \<open>Content addressing\<close>

text \<open>Every blob under a content-addressed key has the digest its key names.\<close>

definition content_ok :: "'x api_crates_scheme \<Rightarrow> (string \<Rightarrow> byte list option) \<Rightarrow> bool" where
  "content_ok ext B \<longleftrightarrow>
     (\<forall>p h b. p \<in> {''/assets/'', ''/fixed/''} \<longrightarrow> hex64 h \<longrightarrow> B (object_path ext (p @ h)) = Some b \<longrightarrow>
        lower_hex ext (sha256 ext b) = h)"

context digests
begin

lemma content_ok_put:
  assumes "content_ok ext B" "p \<in> {''/assets/'', ''/fixed/''}" "lower_hex ext (sha256 ext b) = h"
  shows "content_ok ext (B(object_path ext (p @ h) \<mapsto> b))"
proof -
  have hex: "hex64 h" using assms(3) digest_hex64 by auto
  show ?thesis
    unfolding content_ok_def
  proof (intro allI impI)
    fix q k c
    assume q: "q \<in> {''/assets/'', ''/fixed/''}" "hex64 k" "(B(object_path ext (p @ h) \<mapsto> b)) (object_path ext (q @ k)) = Some c"
    show "lower_hex ext (sha256 ext c) = k"
    proof (cases "object_path ext (q @ k) = object_path ext (p @ h)")
      case True
      with content_paths [OF q(1) assms(2) q(2) hex] q(3) assms(3) show ?thesis by auto
    next
      case False
      with q have "B (object_path ext (q @ k)) = Some c" by simp
      with q assms(1) show ?thesis unfolding content_ok_def by blast
    qed
  qed
qed

lemma upload_content: "upload_contract ext st G b B B' res \<Longrightarrow> content_ok ext B \<Longrightarrow> content_ok ext B'"
  using content_ok_put [of B "''/assets/''" b]
  by (auto simp: upload_contract_def Let_def asset_path_def split: if_splits option.splits)

lemma copied_content: "copied ext b h B B' \<Longrightarrow> content_ok ext B \<Longrightarrow> content_ok ext B'"
  using content_ok_put [of B "''/fixed/''"] lower_hex_text
  by (auto simp: copied_def sha256_of_def)

end

section \<open>Frames\<close>

text \<open>\<open>keeps ops R p\<close>: however a run of \<open>p\<close> ends, the world it leaves is related to the one it found.\<close>

definition keeps :: "'w world_ops \<Rightarrow> ('w \<Rightarrow> 'w \<Rightarrow> bool) \<Rightarrow> 'a prog \<Rightarrow> bool" where
  "keeps ops R p \<longleftrightarrow> (\<forall>w. R w (snd (run ops p w)))"

locale frame =
  fixes R :: "'w \<Rightarrow> 'w \<Rightarrow> bool"
  assumes frame_refl: "R w w" and frame_trans: "R u v \<Longrightarrow> R v w \<Longrightarrow> R u w"
begin

lemma keeps_Ret: "keeps ops R (Ret x)"
  by (simp add: keeps_def frame_refl)

lemma keeps_Panic: "keeps ops R (Panic m)"
  by (simp add: keeps_def frame_refl)

lemma keeps_bind: "keeps ops R p \<Longrightarrow> (\<And>x. keeps ops R (f x)) \<Longrightarrow> keeps ops R (prog_bind p f)"
  unfolding keeps_def run_bind
  by (auto split: prod.splits outcome.splits) (metis frame_trans snd_conv)+

lemma keeps_try: "keeps ops R p \<Longrightarrow> (\<And>x. keeps ops R (k x)) \<Longrightarrow> keeps ops R (prog_try p k)"
  unfolding prog_try_def by (rule keeps_bind) (auto simp: keeps_Ret split: sum.splits)

lemma keeps_ret_try: "(\<And>x. keeps ops R (k x)) \<Longrightarrow> keeps ops R (ret_try r k)"
  by (cases r) (auto simp: keeps_Ret)

lemma keeps_map_err: "keeps ops R p \<Longrightarrow> keeps ops R (prog_map_err f p)"
  unfolding prog_map_err_def by (rule keeps_bind) (auto simp: keeps_Ret)

lemma keeps_api_call: "keeps ops R p \<Longrightarrow> keeps ops R (api_call p)"
  unfolding api_call_def by (rule keeps_map_err)

lemma keeps_surreal_read: "keeps ops R p \<Longrightarrow> keeps ops R (surreal_read p)"
  unfolding surreal_read_def by (rule keeps_map_err)

lemma keeps_of_outcome: "keeps ops R (of_outcome r)"
  by (cases r) (simp_all add: keeps_Ret keeps_Panic)

lemmas keeps_combinators = keeps_Ret keeps_Panic keeps_bind keeps_try keeps_ret_try keeps_map_err keeps_api_call
  keeps_surreal_read keeps_of_outcome

end

text \<open>The statements that leave users and schema alone.\<close>

definition users_same :: "tables \<Rightarrow> tables \<Rightarrow> bool" where
  "users_same t t' \<longleftrightarrow> t_or_user t' = t_or_user t \<and> t_schema t' = t_schema t"

fun user_neutral :: "stmt \<Rightarrow> bool" where
  "user_neutral (Define d) = False"
| "user_neutral (CreateOrUser k s a) = False"
| "user_neutral _ = True"

lemma run_stmt_neutral: "user_neutral s \<Longrightarrow> run_stmt s t = Some t' \<Longrightarrow> users_same t t'"
  by (cases s) (auto simp: users_same_def split: if_splits)

lemma run_stmts_neutral: "list_all user_neutral ss \<Longrightarrow> run_stmts ss t = Some t' \<Longrightarrow> users_same t t'"
proof (induction ss arbitrary: t)
  case (Cons s ss)
  then obtain t1 where "run_stmt s t = Some t1" "run_stmts ss t1 = Some t'" by (auto split: option.splits)
  with Cons run_stmt_neutral [of s t t1] show ?case by (auto simp: users_same_def)
qed (simp add: users_same_def)

context api_services
begin

abbreviation same_users :: "'w \<Rightarrow> 'w \<Rightarrow> bool" where
  "same_users w w' \<equiv> users_same (tables w) (tables w')"

lemma users_frame: "frame same_users"
  by unfold_locales (auto simp: users_same_def)

lemmas users_combinators = frame.keeps_combinators [OF users_frame]

lemma keeps_step:
  assumes "\<And>w. run ops p w = (case f w of (r, w') \<Rightarrow> run ops (k r) w')"
    and "\<And>w r w'. f w = (r, w') \<Longrightarrow> same_users w w'" and "\<And>r. keeps ops same_users (k r)"
  shows "keeps ops same_users p"
  unfolding keeps_def
proof
  fix w
  obtain r w' where f: "f w = (r, w')" by (cases "f w")
  then have "same_users w w'" by (rule assms(2))
  moreover have "same_users w' (snd (run ops (k r) w'))" using assms(3) by (simp add: keeps_def)
  ultimately show "same_users w (snd (run ops p w))"
    using f assms(1) [of w] by (simp add: users_same_def)
qed

lemma same_users_refl: "tables w' = tables w \<Longrightarrow> same_users w w'"
  by (simp add: users_same_def)

lemma keeps_now_v7: "(\<And>r. keeps ops same_users (k r)) \<Longrightarrow> keeps ops same_users (NowV7 k)"
  by (rule keeps_step [where f = "do_now_v7 ops" and k = k]) (simp_all add: same_users_refl now_v7_tables)

lemma keeps_utc_now: "(\<And>r. keeps ops same_users (k r)) \<Longrightarrow> keeps ops same_users (UtcNow k)"
  by (rule keeps_step [where f = "do_utc_now ops" and k = k]) (simp_all add: same_users_refl utc_now_tables)

lemma keeps_select_record: "(\<And>r. keeps ops same_users (k r)) \<Longrightarrow> keeps ops same_users (SelectRecord a k)"
  by (rule keeps_step [where f = "do_select_record ops a" and k = k]) (simp_all add: same_users_refl select_record_tables)

lemma keeps_select_versions: "(\<And>r. keeps ops same_users (k r)) \<Longrightarrow> keeps ops same_users (SelectVersions i k)"
  by (rule keeps_step [where f = "do_select_versions ops i" and k = k]) (simp_all add: same_users_refl select_versions_tables)

lemma keeps_select_created_by: "(\<And>r. keeps ops same_users (k r)) \<Longrightarrow> keeps ops same_users (SelectCreatedBy a k)"
  by (rule keeps_step [where f = "do_select_created_by ops a" and k = k]) (simp_all add: same_users_refl select_created_by_tables)

lemma keeps_obj_get: "(\<And>r. keeps ops same_users (k r)) \<Longrightarrow> keeps ops same_users (ObjGet a k)"
  by (rule keeps_step [where f = "do_obj_get ops a" and k = k]) (simp_all add: same_users_refl obj_keeps_tables)

lemma keeps_obj_put_create: "(\<And>r. keeps ops same_users (k r)) \<Longrightarrow> keeps ops same_users (ObjPutCreate a b k)"
  by (rule keeps_step [where f = "do_obj_put_create ops a b" and k = k]) (simp_all add: same_users_refl obj_keeps_tables)

lemma keeps_query:
  assumes "atomic_stmts q = Some ss" "list_all user_neutral ss" "\<And>r. keeps ops same_users (k r)"
  shows "keeps ops same_users (Query q k)"
proof (rule keeps_step [where f = "do_query ops q" and k = k])
  show "same_users w w'" if q: "do_query ops q w = (r, w')" for w r w'
  proof (cases r)
    case (Inl e)
    then show ?thesis
      using query_lost [of q w e w', OF _ assms(1)] run_stmts_neutral [OF assms(2)] same_users_refl q by blast
  next
    case (Inr b)
    show ?thesis
    proof (cases b)
      case (Inl e)
      then show ?thesis using query_refused [of q w e w', OF _ assms(1)] same_users_refl q Inr by blast
    next
      case (Inr u)
      then show ?thesis
        using query_committed [of q w w', OF _ assms(1)] run_stmts_neutral [OF assms(2)] q \<open>r = Inr b\<close> by simp
    qed
  qed
qed (simp_all add: assms(3))

lemma keeps_transaction:
  assumes "list_all user_neutral ss"
  shows "keeps ops same_users (query_checked (Transaction ss))"
  unfolding query_checked_def by (rule keeps_query [OF _ assms]) (simp_all add: users_combinators)

lemmas keeps_calls = keeps_now_v7 keeps_utc_now keeps_select_record keeps_select_versions keeps_select_created_by
  keeps_obj_get keeps_obj_put_create keeps_transaction

lemma keeps_find: "keeps ops same_users (find_record ext i)"
  unfolding find_record_def assemble_def fetch_versions_def fetch_attribution_def
  by (auto intro!: users_combinators keeps_calls split: option.splits)

lemma keeps_save: "keeps ops same_users (save ext lit r creator)"
  unfolding save_def write_record_atomic_def Let_def
  by (auto intro!: users_combinators keeps_calls simp: list_all_iff split: prod.splits)

lemma keeps_add_version: "keeps ops same_users (add_version ext i b)"
  unfolding add_version_def by (auto intro!: users_combinators keeps_calls)

lemma keeps_transition: "keeps ops same_users (transition_to_fixed ext i h)"
  unfolding transition_to_fixed_def transition_versions_def Let_def find_record_def [symmetric]
  by (auto intro!: users_combinators keeps_calls keeps_find split: option.splits any_record.splits)

lemma keeps_s3: "keeps ops same_users (s3_get ext key)" "keeps ops same_users (s3_put_if_absent ext key b)"
  unfolding s3_get_def s3_put_if_absent_def by (auto intro!: users_combinators keeps_calls)

lemma keeps_handler: "keeps ops same_users (handler ext st ep req)"
proof -
  have find: "keeps ops same_users (find_or_404 ext i)" for i
    unfolding find_or_404_def by (intro users_combinators keeps_find)
  have row: "keeps ops same_users (json_row rwa)" for rwa
    unfolding json_row_def by (intro users_combinators)
  have hash: "keeps ops same_users (computed_hash ext st b)" for b
    unfolding computed_hash_def by (auto intro!: users_combinators keeps_s3 split: body.splits)
  have copy: "keeps ops same_users (copy_to_fixed ext st b h)" for b h
    unfolding copy_to_fixed_def by (auto intro!: users_combinators keeps_s3 split: body.splits option.splits)
  show ?thesis
    unfolding handler_def health_handler_def get_one_def put_one_def fix_one_def records_post_one_def assets_post_one_def Let_def
    by (auto intro!: users_combinators keeps_calls find row hash copy keeps_s3 keeps_save keeps_add_version keeps_transition
        split: endpoint.splits prod.splits)
qed

end

interpretation mem_frame: frame "\<lambda>w w'. users_same (mw_tables w) (mw_tables w')"
  by unfold_locales (auto simp: users_same_def)

section \<open>The invariant of the service\<close>

definition service_ok ::
  "'x api_crates_scheme \<Rightarrow> ('w \<Rightarrow> tables) \<Rightarrow> ('w \<Rightarrow> string \<Rightarrow> byte list option) \<Rightarrow> 'w \<Rightarrow> bool" where
  "service_ok ext tables blobs w \<longleftrightarrow>
     repo_ok ext (tables w) \<and> users_ok ext (tables w) \<and> content_ok ext (blobs w)"

text \<open>The worlds a sequence of requests leads to, from an empty database with the schema applied and an
  empty bucket. The application state may change between requests, as it does over a restart.\<close>

definition fresh_service :: "('w \<Rightarrow> tables) \<Rightarrow> ('w \<Rightarrow> string \<Rightarrow> byte list option) \<Rightarrow> 'w \<Rightarrow> bool" where
  "fresh_service tables blobs w \<longleftrightarrow>
     (\<exists>schema. unique_sub_index \<in> set schema \<and> tables w = empty_tables\<lparr>t_schema := schema\<rparr>) \<and> blobs w = Map.empty"

inductive served ::
  "'x api_crates_scheme \<Rightarrow> 'w world_ops \<Rightarrow> ('w \<Rightarrow> tables) \<Rightarrow> ('w \<Rightarrow> string \<Rightarrow> byte list option) \<Rightarrow> 'w \<Rightarrow> bool"
  for ext :: "'x api_crates_scheme" and ops :: "'w world_ops" and tables :: "'w \<Rightarrow> tables"
    and blobs :: "'w \<Rightarrow> string \<Rightarrow> byte list option" where
  fresh: "fresh_service tables blobs w \<Longrightarrow> served ext ops tables blobs w"
| request: "served ext ops tables blobs w \<Longrightarrow> run ops (build_router ext st ep req) w = (out, w') \<Longrightarrow>
    served ext ops tables blobs w'"

text \<open>What no request undoes: a record stays with its kind, its attribution and its version ids, its
  state only ever moves to fixed, a fixed record stays as it is, and a blob stays as it is.\<close>

definition persists :: "stored \<Rightarrow> stored \<Rightarrow> bool" where
  "persists s s' \<longleftrightarrow> st_kind s' = st_kind s \<and> st_attribution s' = st_attribution s \<and>
     image_mset ver_id (st_versions s) \<subseteq># image_mset ver_id (st_versions s') \<and>
     (st_state s' = st_state s \<or> st_state s' = PFixed)"

definition develops :: "stored \<Rightarrow> stored \<Rightarrow> bool" where
  "develops s s' \<longleftrightarrow> persists s s' \<and> (st_state s = PFixed \<longrightarrow> s' = s)"

text \<open>Every stored record is still there, related to what it was.\<close>

definition kept :: "(stored \<Rightarrow> stored \<Rightarrow> bool) \<Rightarrow> store \<Rightarrow> store \<Rightarrow> bool" where
  "kept P S S' \<longleftrightarrow> (\<forall>i. S i \<noteq> None \<longrightarrow> S' i \<noteq> None \<and> P (the (S i)) (the (S' i)))"

lemma persists_frame: "frame persists"
  by unfold_locales (auto simp: persists_def dest: subset_mset.order_trans)

lemma develops_frame: "frame develops"
  by unfold_locales (auto simp: develops_def persists_def dest: subset_mset.order_trans)

lemma kept_frame: "frame P \<Longrightarrow> frame (kept P)"
  unfolding frame_def kept_def by (metis (no_types, lifting))

lemma kept_refl [simp]: "kept persists S S" "kept develops S S"
  using frame.frame_refl [OF kept_frame [OF persists_frame]] frame.frame_refl [OF kept_frame [OF develops_frame]] .

lemmas kept_trans = frame.frame_trans [OF kept_frame [OF persists_frame]] frame.frame_trans [OF kept_frame [OF develops_frame]]

lemma kept_update: "(\<And>s. S i = Some s \<Longrightarrow> develops s s') \<Longrightarrow> kept develops S (S(i \<mapsto> s'))"
  by (auto simp: kept_def develops_def persists_def)

lemma develops_add_version:
  "st_state s \<noteq> PFixed \<Longrightarrow> develops s (s\<lparr>st_versions := add_mset v (st_versions s)\<rparr>)"
  by (simp add: develops_def persists_def)

lemma develops_fix:
  assumes "st_state s \<noteq> PFixed" "mset vs = st_versions s"
  shows "develops s (s\<lparr>st_state := PFixed, st_hash := h', st_versions := mset (rec_versions (fossilize i k vs h))\<rparr>)"
proof -
  have "image_mset ver_id (mset (rec_versions (fossilize i k vs h))) = image_mset ver_id (st_versions s)"
    by (simp only: mset_map [symmetric] fossilize_version_ids) (simp add: assms(2) [symmetric])
  with assms(1) show ?thesis by (simp add: develops_def persists_def)
qed

lemma put_develops: "put_contract ext F i b S S' res \<Longrightarrow> kept develops S S'"
  by (auto simp: put_contract_def split: option.splits if_splits sum.splits
      intro!: kept_update develops_add_version)

lemma post_develops: "post_contract ext F claims req i v S S' res \<Longrightarrow> kept develops S S'"
  by (auto simp: post_contract_def Let_def split: if_splits sum.splits prod.splits intro!: kept_update)

lemma transition_develops: "transition_contract C F i h S S' res \<Longrightarrow> kept develops S S'"
  by (auto simp: transition_contract_def commits_def split: option.splits if_splits
      intro!: kept_update develops_fix)

lemma copied_grows: "copied ext b h B B' \<Longrightarrow> B \<subseteq>\<^sub>m B'"
  by (auto simp: copied_def map_le_def)

lemma upload_grows: "upload_contract ext st G b B B' res \<Longrightarrow> B \<subseteq>\<^sub>m B'"
  by (auto simp: upload_contract_def Let_def map_le_def split: if_splits option.splits)

definition advances ::
  "'x crates_scheme \<Rightarrow> ('w \<Rightarrow> tables) \<Rightarrow> ('w \<Rightarrow> string \<Rightarrow> byte list option) \<Rightarrow> 'w \<Rightarrow> 'w \<Rightarrow> bool" where
  "advances ext tables blobs w w' \<longleftrightarrow> kept develops (view ext (tables w)) (view ext (tables w')) \<and> blobs w \<subseteq>\<^sub>m blobs w'"

lemma advances_frame: "frame (advances ext tables blobs)"
  by unfold_locales (auto simp: advances_def intro: kept_trans map_le_trans)

lemma advances_same: "view ext (tables w') = view ext (tables w) \<Longrightarrow> blobs w' = blobs w \<Longrightarrow> advances ext tables blobs w w'"
  by (simp add: advances_def)

context api_services
begin

text \<open>Freezing keeps the invariant and advances, also where the text of the hash is not parsed.\<close>

text \<open>What a handler that started in the good world \<open>w\<close> has brought about when the world is \<open>w'\<close>.\<close>

definition carried :: "'w \<Rightarrow> 'w \<Rightarrow> bool" where
  "carried w w' \<longleftrightarrow> repo_ok ext (tables w') \<and> content_ok ext (blobs w') \<and> advances ext tables blobs w w'"

lemma carried_same: "carried w w1 \<Longrightarrow> tables w2 = tables w1 \<Longrightarrow> blobs w2 = blobs w1 \<Longrightarrow> carried w w2"
  by (simp add: carried_def advances_def)

lemma reread_carried:
  assumes "carried w w1"
  shows "wp ops (reread ext i) (\<lambda>res. carried w) w1"
  unfolding wp_prog_try
  by (rule wp_find_or_404) (use assms carried_same [OF assms] in \<open>auto simp: carried_def intro!: wp_json_row\<close>)

lemma freeze_carried:
  assumes w1: "carried w w1" and h: "hash_wf h"
  shows "wp ops (freeze ext i h) (\<lambda>res. carried w) w1"
proof -
  have ok1: "repo_ok ext (tables w1)" using w1 by (simp add: carried_def)
  have "carried w w2" if "repo_ok ext (tables w2)" "blobs w2 = blobs w1"
    "kept develops (view ext (tables w1)) (view ext (tables w2))" for w2
    using w1 that by (auto simp: carried_def advances_def intro: kept_trans)
  then show ?thesis
    unfolding wp_prog_try [of _ "api_call p" for p] wp_api_call
  proof (intro wp_mono [OF transition_law [OF ok1 h]], goal_cases)
    case (1 res w2)
    then have "carried w w2" using transition_develops by blast
    then show ?case using reread_carried by (cases "map_err api_error_from res") (simp_all del: wp_prog_try)
  qed
qed

lemma verify_and_freeze_carried:
  assumes w1: "carried w w1" and h: "hash_wf h"
  shows "wp ops (verify_and_freeze ext st i b h) (\<lambda>res. carried w) w1"
  unfolding wp_prog_try [of _ "computed_hash ext st b"]
proof (rule wp_computed_hash, goal_cases)
  case (1 bytes w2)
  then have w2: "carried w w2" using carried_same [OF w1] by simp
  have bytes: "body_bytes ext (blobs w2) b = Some bytes" using 1 by (simp add: readable_def split: if_splits)
  have next_inv: "carried w w3" if "tables w3 = tables w2" "copied ext b h (blobs w2) (blobs w3)" for w3
    using w2 that copied_content [OF that(2)] copied_grows [OF that(2)]
    by (auto simp: carried_def advances_def intro: map_le_trans)
  have "wp ops (prog_try (copy_to_fixed ext st b h) (\<lambda>_. freeze ext i h)) (\<lambda>res. carried w) w2"
    if "sha256_of ext bytes = h"
  proof -
    have copied: "copied ext b h (blobs w2) (blobs w2)" "copied ext b h (blobs w2) (fixed_copy ext b h bytes (blobs w2))"
      using fixed_copy_copied [OF bytes that] by (simp_all add: copied_def)
    show ?thesis
      unfolding wp_prog_try [of _ "copy_to_fixed ext st b h"]
      by (rule wp_copy_to_fixed [of st w2 b bytes])
        (use 1 copied freeze_carried [OF _ h] next_inv in \<open>auto\<close>)
  qed
  then show ?case using 1 w2 by auto
next
  case (2 w2)
  then show ?case using carried_same [OF w1] by simp
qed

lemma fix_frame_law:
  assumes ok: "repo_ok ext (tables w)" and content: "content_ok ext (blobs w)"
    and parsed: "api_parse_sha256_hex ext (fr_content_hash req) = Done r"
  shows "wp ops (fix_one ext st i req) (\<lambda>res w'. repo_ok ext (tables w') \<and> content_ok ext (blobs w') \<and>
     advances ext tables blobs w w') w"
  unfolding carried_def [symmetric]
proof (cases r)
  case (Inl e)
  then show "wp ops (fix_one ext st i req) (\<lambda>res. carried w) w"
    using ok content by (simp add: fix_one_def parsed advances_same carried_def)
next
  case (Inr h)
  have h: "hash_wf h" using parsed Inr api_parse_length by blast
  have start: "carried w w" using ok content by (simp add: advances_same carried_def)
  show "wp ops (fix_one ext st i req) (\<lambda>res. carried w) w"
    unfolding fix_one_def parsed Inr of_outcome.simps prog_try_simps wp_prog_try [of _ "find_or_404 ext i"]
    by (rule wp_find_or_404 [OF ok])
      (use carried_same [OF start] verify_and_freeze_carried [OF _ h] in \<open>auto simp: trailing_body_def split: any_record.splits\<close>)
qed

lemma handler_ok:
  assumes ok: "service_ok ext tables blobs w" and run: "run ops (handler ext st ep req) w = (out, w')"
  shows "service_ok ext tables blobs w' \<and> advances ext tables blobs w w'"
proof -
  have parts: "repo_ok ext (tables w)" "users_ok ext (tables w)" "content_ok ext (blobs w)"
    using ok by (simp_all add: service_ok_def)
  have "same_users w w'" using keeps_handler [of st ep req] run unfolding keeps_def by (metis snd_conv)
  then have users: "users_ok ext (tables w')" using parts(2) by (simp add: users_same_def users_ok_def)
  have "repo_ok ext (tables w') \<and> content_ok ext (blobs w') \<and> advances ext tables blobs w w'"
  proof (cases ep)
    case GetHealth
    then show ?thesis using run parts by (simp add: handler_def health_handler_def advances_same)
  next
    case (GetRecord i)
    then have "run ops (get_one ext i) w = (out, w')" using run by (simp add: handler_def)
    from wp_after [OF get_law [OF parts(1)] this] show ?thesis using parts by (metis advances_same)
  next
    case (PutRecord i body)
    then have "run ops (put_one ext i body) w = (out, w')" using run by (simp add: handler_def)
    from wp_after [OF put_law [OF parts(1)] this] show ?thesis
      unfolding advances_def using parts by (metis put_develops map_le_refl)
  next
    case (PostFix i body)
    then have fixed_run: "run ops (fix_one ext st i body) w = (out, w')" using run by (simp add: handler_def)
    show ?thesis
    proof (cases "api_parse_sha256_hex ext (fr_content_hash body)")
      case (Done r)
      from wp_after [OF fix_frame_law [OF parts(1,3) Done] fixed_run] show ?thesis by metis
    next
      case (Panicked m)
      then show ?thesis using fixed_run parts by (simp add: fix_one_def prog_try_def advances_same)
    qed
  next
    case (PostRecord body)
    then have post: "run ops (records_post_one ext (rq_claims req) body) w = (out, w')" using run by (simp add: handler_def)
    obtain i w1 where d1: "do_now_v7 ops w = (i, w1)" by (cases "do_now_v7 ops w")
    obtain v w2 where d2: "do_now_v7 ops w1 = (v, w2)" by (cases "do_now_v7 ops w1")
    from wp_after [OF post_law [OF parts(1) d1 d2] post] show ?thesis
      unfolding advances_def using parts by (metis post_develops map_le_refl)
  next
    case (PostAsset b)
    then have "run ops (assets_post_one ext st b) w = (out, w')" using run by (simp add: handler_def)
    from wp_after [OF upload_law this] show ?thesis
      unfolding advances_def using parts by (metis upload_content upload_grows kept_refl)
  qed
  with users show ?thesis by (simp add: service_ok_def)
qed

lemma router_ok:
  assumes ok: "service_ok ext tables blobs w" and run: "run ops (build_router ext st ep req) w = (out, w')"
  shows "service_ok ext tables blobs w' \<and> advances ext tables blobs w w'"
proof (cases "as_auth st = None \<or> ep = GetHealth")
  case True
  from handler_ok [OF ok] run router_open [OF True] show ?thesis by metis
next
  case False
  then obtain v where st: "as_auth st = Some v" and ep: "ep \<noteq> GetHealth" by auto
  show ?thesis
  proof (cases "bearer_claims ext v req")
    case None
    then show ?thesis using run ok by (simp add: router_enforced [OF st ep] advances_same)
  next
    case (Some c)
    obtain res w1 where user: "run ops (upsert_or_user ext (cl_sub c)) w = (Done res, w1)"
      and w1: "same_but_users (tables w) (tables w1)" "blobs w1 = blobs w" "users_ok ext (tables w) \<longrightarrow> users_ok ext (tables w1)"
      by (rule wp_runE [OF upsert_frame]) blast
    have ok1: "service_ok ext tables blobs w1" and step: "advances ext tables blobs w w1"
      using ok w1 by (simp_all add: service_ok_def advances_same same_but_users_repo [OF w1(1)])
    have "service_ok ext tables blobs w2 \<and> advances ext tables blobs w w2"
      if "run ops (handler ext st ep req') w1 = (out', w2)" for req' out' w2
      using handler_ok [OF ok1 that] frame.frame_trans [where R = "advances ext tables blobs", OF advances_frame step] by blast
    with run Some user ok1 step show ?thesis
      by (auto simp: router_enforced [OF st ep] prog_try_def prog_map_err_def run_bind split: sum.splits if_splits)
  qed
qed

lemma fresh_service_ok: "fresh_service tables blobs w \<Longrightarrow> service_ok ext tables blobs w"
  using repo_ok_start by (auto simp: fresh_service_def service_ok_def users_ok_def content_ok_def empty_tables_def)

lemma served_ok: "served ext ops tables blobs w \<Longrightarrow> service_ok ext tables blobs w"
proof (induction rule: served.induct)
  case (fresh w)
  then show ?case by (rule fresh_service_ok)
next
  case (request w st ep req out w')
  then show ?case using router_ok by blast
qed
lemma handler_answers:
  assumes ok: "service_ok ext tables blobs w"
    and hash: "\<And>i f m. ep = PostFix i f \<Longrightarrow> api_parse_sha256_hex ext (fr_content_hash f) \<noteq> Panicked m"
  shows "wp ops (handler ext st ep req) (\<lambda>_ _. True) w"
proof -
  have parts: "repo_ok ext (tables w)" "content_ok ext (blobs w)" using ok by (simp_all add: service_ok_def)
  show ?thesis
  proof (cases ep)
    case GetHealth
    then show ?thesis by (simp add: handler_def health_handler_def)
  next
    case (GetRecord i)
    then show ?thesis using wp_mono [OF get_law [OF parts(1)]] by (simp add: handler_def)
  next
    case (PutRecord i body)
    then show ?thesis using wp_mono [OF put_law [OF parts(1)]] by (simp add: handler_def)
  next
    case (PostFix i body)
    with hash obtain r where "api_parse_sha256_hex ext (fr_content_hash body) = Done r" by (metis outcome.exhaust)
    from wp_mono [OF fix_frame_law [OF parts this]] PostFix show ?thesis by (simp add: handler_def)
  next
    case (PostRecord body)
    obtain i w1 where d1: "do_now_v7 ops w = (i, w1)" by (cases "do_now_v7 ops w")
    obtain v w2 where d2: "do_now_v7 ops w1 = (v, w2)" by (cases "do_now_v7 ops w1")
    from wp_mono [OF post_law [OF parts(1) d1 d2]] PostRecord show ?thesis by (simp add: handler_def)
  next
    case (PostAsset b)
    then show ?thesis using wp_mono [OF upload_law] by (simp add: handler_def)
  qed
qed

lemma router_answers:
  assumes ok: "service_ok ext tables blobs w"
    and hash: "\<And>i f m. ep = PostFix i f \<Longrightarrow> api_parse_sha256_hex ext (fr_content_hash f) \<noteq> Panicked m"
  shows "wp ops (build_router ext st ep req) (\<lambda>_ _. True) w"
proof (cases "as_auth st = None \<or> ep = GetHealth")
  case True
  show ?thesis unfolding router_open [OF True] by (rule handler_answers [OF ok]) (use hash in blast)
next
  case False
  then obtain v where st: "as_auth st = Some v" and ep: "ep \<noteq> GetHealth" by auto
  show ?thesis
  proof (cases "bearer_claims ext v req")
    case None
    then show ?thesis by (simp add: router_enforced [OF st ep])
  next
    case (Some c)
    show ?thesis
      unfolding router_enforced [OF st ep] Some option.case wp_prog_try wp_prog_map_err
    proof (rule wp_mono [OF upsert_frame], goal_cases)
      case (1 res w1)
      then have "service_ok ext tables blobs w1"
        using ok by (auto simp: service_ok_def same_but_users_repo)
      from handler_answers [OF this] hash show ?case by (auto split: sum.splits)
    qed
  qed
qed

end


section \<open>Properties\<close>

text \<open>C9: an upload with storage configured stores the bytes under the key of their digest exactly when
  nothing is there (201), leaves an existing blob as it is (200), and refuses an empty body (400) and one
  over the limit (413) without a write; the database is not touched, and a failing call answers 500
  with the blob either written or not.\<close>

theorem upload_refines:
  assumes "api_services ext ops tables blobs"
  shows "wp ops (assets_post_one ext st b) (\<lambda>res w'. tables w' = tables w \<and>
     upload_contract ext st (store_can_fail ops) b (blobs w) (blobs w') res) w"
  using api_services.upload_law [OF assms] .

text \<open>C1: in every world that requests lead to, from an empty database with the schema applied and an
  empty bucket, and whichever calls failed on the way, the tables satisfy the invariant of the
  repository, no two users share a subject, and every blob under a content-addressed key has the digest
  its key names.\<close>

theorem service_invariant:
  assumes "api_services ext ops tables blobs" and "served ext ops tables blobs w"
  shows "service_ok ext tables blobs w"
  using api_services.served_ok [OF assms] .

text \<open>C2: no request loses or rewrites what is stored: whatever its route, its token, its body and the
  failures on the way, every record stays, with its kind, its attribution and the ids of its versions,
  its state only moves to fixed, a fixed record stays exactly as it is, and so does every blob. It
  holds also for a request that panics.\<close>

theorem requests_only_advance:
  assumes "api_services ext ops tables blobs" and "service_ok ext tables blobs w"
    and "run ops (build_router ext st ep req) w = (out, w')"
  shows "kept develops (view ext (tables w)) (view ext (tables w')) \<and> blobs w \<subseteq>\<^sub>m blobs w'"
  using api_services.router_ok [OF assms] by (simp add: advances_def)

text \<open>Every request is answered: the router's code returns a response in every world the service
  reaches, whatever fails, unless the hash of a freeze request makes the parser panic.\<close>

lemma requests_answered:
  assumes "api_services ext ops tables blobs" and "service_ok ext tables blobs w"
    and "\<And>i f m. ep = PostFix i f \<Longrightarrow> api_parse_sha256_hex ext (fr_content_hash f) \<noteq> Panicked m"
  shows "\<exists>res w'. run ops (build_router ext st ep req) w = (Done res, w')"
  by (rule wp_runE [OF api_services.router_answers [OF assms]]) blast+

section \<open>Witnesses\<close>

abbreviation storage_state :: app_state where
  "storage_state \<equiv> app_state_with_storage S3CompatStorage app_state_new"

lemma upload_refines_witness:
  "wp (mem_ops True) (assets_post_one mem_api_crates storage_state [1, 2]) (\<lambda>res w'. mw_tables w' = mw_tables users_world \<and>
     upload_contract mem_api_crates storage_state (store_can_fail (mem_ops True)) [1, 2] (mem_blobs users_world) (mem_blobs w') res) users_world"
  by (rule upload_refines [OF mem_services.api_services_axioms])

lemma users_world_served: "served mem_api_crates ops mw_tables mem_blobs users_world"
  by (rule served.fresh)
    (auto simp: fresh_service_def users_world_def empty_tables_def empty_world_def mem_blobs_def fun_eq_iff)

definition sample_upload :: request where
  "sample_upload = \<lparr>rq_headers = [], rq_claims = None, rq_or_user = None, rq_mcp_client = None\<rparr>"

lemma run_collapse: "run ops p w = (fst (run ops p w), snd (run ops p w))"
  by simp

lemma service_invariant_witness:
  "service_ok mem_api_crates mw_tables mem_blobs
     (snd (run (mem_ops True) (build_router mem_api_crates app_state_new (PostAsset [1, 2]) sample_upload) users_world))"
  by (rule service_invariant [OF mem_services.api_services_axioms
        served.request [OF users_world_served run_collapse]])

definition record_world :: mem_world where
  "record_world = sample_world\<lparr>mw_tables := sample_tables\<lparr>t_schema := [unique_sub_index]\<rparr>\<rparr>"

lemma repo_ok_schema: "repo_ok ext (t\<lparr>t_schema := s\<rparr>) = repo_ok ext t"
  by (simp add: repo_ok_def repo_inv_def record_wf_def no_orphans_def versions_of_def edges_to_def)

lemma record_world_ok: "service_ok mem_api_crates mw_tables mem_blobs record_world"
proof -
  have "repo_ok mem_crates (mw_tables record_world)"
    using sample_ok by (simp add: record_world_def sample_world_def repo_ok_schema)
  then show ?thesis
    by (simp add: service_ok_def users_ok_def content_ok_def record_world_def sample_world_def sample_tables_def
        written_def empty_tables_def Let_def empty_world_def mem_blobs_def)
qed

lemma requests_only_advance_witness:
  "kept develops (view mem_api_crates (mw_tables record_world))
     (view mem_api_crates (mw_tables (snd (run (mem_ops True)
        (build_router mem_api_crates app_state_new (PutRecord 1 \<lparr>ur_body = InlineB64 ''QQ==''\<rparr>) sample_upload) record_world)))) \<and>
   mem_blobs record_world \<subseteq>\<^sub>m mem_blobs (snd (run (mem_ops True)
        (build_router mem_api_crates app_state_new (PutRecord 1 \<lparr>ur_body = InlineB64 ''QQ==''\<rparr>) sample_upload) record_world))"
  by (rule requests_only_advance [OF mem_services.api_services_axioms record_world_ok run_collapse])

lemma requests_answered_witness:
  "\<exists>res w'. run (mem_ops True) (build_router mem_api_crates app_state_new (GetRecord 1) sample_upload) record_world = (Done res, w')"
  by (rule requests_answered [OF mem_services.api_services_axioms record_world_ok]) simp

text \<open>C35: an empty body and one over 10 MiB are refused before any call is made; a body that is accepted is
  reported with its exact size, which the 64-bit field holds without wrap-around, and under a key of fixed length
  that its digest names.\<close>

theorem upload_bounded:
  assumes "digests ext"
  shows "(b = [] \<or> 10485760 < length b \<longrightarrow> (\<exists>e. run ops (assets_post_one ext st b) w = (Done (Inl e), w))) \<and>
     (run ops (assets_post_one ext st b) w = (Done (Inr (AssetResponse status a)), w') \<longrightarrow>
        0 < unat (au_size a) \<and> unat (au_size a) = length b \<and> unat (au_size a) \<le> 10485760 \<and>
        length (au_sha256 a) = 64 \<and> au_key a = ''/assets/'' @ au_sha256 a)"
proof -
  have limit: "ASSET_BODY_LIMIT = 10485760" by (simp add: ASSET_BODY_LIMIT_def)
  have hex: "length (lower_hex ext (sha256 ext b)) = 64"
    using digests.digest_hex64 [OF assms] by (simp add: hex64_def)
  have refused: "\<exists>e. run ops (assets_post_one ext st b) w = (Done (Inl e), w)" if "b = [] \<or> 10485760 < length b"
    using that by (cases "as_storage st")
      (auto simp: assets_post_one_def ensure_storage_def validate_asset_body_def limit ret_try_def ok_or_def)
  have answer: "unat (au_size a) = length b \<and> au_sha256 a = lower_hex ext (sha256 ext b) \<and> au_key a = ''/assets/'' @ au_sha256 a"
    if run: "run ops (assets_post_one ext st b) w = (Done (Inr (AssetResponse status a)), w')" and size: "\<not> (b = [] \<or> 10485760 < length b)"
  proof -
    have "unat (of_nat (length b) :: u64) = length b" using size by (simp add: unat_of_nat)
    with run size show ?thesis
      by (auto simp: assets_post_one_def ensure_storage_def validate_asset_body_def limit Let_def ret_try_def prog_try_def
          prog_map_err_def run_bind split: option.splits sum.splits prod.splits outcome.splits)
  qed
  show ?thesis
    using refused answer hex by (cases "b = [] \<or> 10485760 < length b") auto
qed

lemma upload_bounded_witness:
  "\<exists>e. run (mem_ops True) (assets_post_one mem_api_crates app_state_new []) empty_world = (Done (Inl e), empty_world)"
  using upload_bounded [OF mem_digests.digests_axioms, of "[]" "mem_ops True" app_state_new empty_world] by blast

end
