(* ===== verification/Interleaving.thy ===== *)
theory Interleaving
  imports Service_Spec
begin

text \<open>
  Requests in flight together: the calls of several programs interleaved in any order, and a logic
  for what each program does to the world whatever the others do meanwhile along a given relation.
\<close>


section \<open>Single calls\<close>

text \<open>One call of a program: the rest of it and the world after the call.\<close>

primrec step_prog :: "'w world_ops \<Rightarrow> 'a prog \<Rightarrow> 'w \<Rightarrow> ('a prog \<times> 'w) option" where
  "step_prog ops (Ret x) = (\<lambda>w. None)"
| "step_prog ops (Panic m) = (\<lambda>w. None)"
| "step_prog ops (NowV7 k) = (\<lambda>w. Some (apfst k (do_now_v7 ops w)))"
| "step_prog ops (UtcNow k) = (\<lambda>w. Some (apfst k (do_utc_now ops w)))"
| "step_prog ops (SurrealConnect a k) = (\<lambda>w. Some (apfst k (do_connect ops a w)))"
| "step_prog ops (SurrealSignin a b k) = (\<lambda>w. Some (apfst k (do_signin ops a b w)))"
| "step_prog ops (SurrealUse a b k) = (\<lambda>w. Some (apfst k (do_use ops a b w)))"
| "step_prog ops (Query q k) = (\<lambda>w. Some (apfst k (do_query ops q w)))"
| "step_prog ops (SelectRecord a k) = (\<lambda>w. Some (apfst k (do_select_record ops a w)))"
| "step_prog ops (SelectVersions a k) = (\<lambda>w. Some (apfst k (do_select_versions ops a w)))"
| "step_prog ops (SelectCreatedBy a k) = (\<lambda>w. Some (apfst k (do_select_created_by ops a w)))"
| "step_prog ops (SelectCreatedIn a b k) = (\<lambda>w. Some (apfst k (do_select_created_in ops a b w)))"
| "step_prog ops (SelectOrUser a k) = (\<lambda>w. Some (apfst k (do_select_or_user ops a w)))"
| "step_prog ops (ObjPut a b k) = (\<lambda>w. Some (apfst k (do_obj_put ops a b w)))"
| "step_prog ops (ObjGet a k) = (\<lambda>w. Some (apfst k (do_obj_get ops a w)))"
| "step_prog ops (ObjHead a k) = (\<lambda>w. Some (apfst k (do_obj_head ops a w)))"
| "step_prog ops (ObjDelete a k) = (\<lambda>w. Some (apfst k (do_obj_delete ops a w)))"
| "step_prog ops (ObjPutCreate a b k) = (\<lambda>w. Some (apfst k (do_obj_put_create ops a b w)))"
| "step_prog ops (ObjSign v a t k) = (\<lambda>w. Some (apfst k (do_obj_sign ops v a t w)))"
| "step_prog ops (ObjMultipart a k) = (\<lambda>w. Some (apfst k (do_obj_multipart ops a w)))"
| "step_prog ops (ObjPutPart n b k) = (\<lambda>w. Some (apfst k (do_obj_put_part ops n b w)))"
| "step_prog ops (ObjComplete n k) = (\<lambda>w. Some (apfst k (do_obj_complete ops n w)))"
| "step_prog ops (S3Build c k) = (\<lambda>w. Some (apfst k (do_s3_build ops c w)))"
| "step_prog ops (HttpGetText a k) = (\<lambda>w. Some (apfst k (do_http_get ops a w)))"

lemma step_bind:
  "(\<nexists>x. p = Ret x) \<Longrightarrow> step_prog ops (prog_bind p f) w = map_option (apfst (\<lambda>p'. prog_bind p' f)) (step_prog ops p w)"
  by (cases p) (simp_all add: prod.map_comp comp_def apfst_def map_prod_def split: prod.splits)

text \<open>A run is its calls, one after the other.\<close>

lemma run_step:
  "run ops p w = (case step_prog ops p w of
     Some (p', w') \<Rightarrow> run ops p' w'
   | None \<Rightarrow> (case p of Ret x \<Rightarrow> (Done x, w) | Panic m \<Rightarrow> (Panicked m, w) | _ \<Rightarrow> run ops p w))"
  by (cases p) (simp_all split: prod.splits)

fun run_calls :: "'w world_ops \<Rightarrow> nat \<Rightarrow> 'a prog \<times> 'w \<Rightarrow> 'a prog \<times> 'w" where
  "run_calls ops 0 c = c"
| "run_calls ops (Suc n) (p, w) = (case step_prog ops p w of None \<Rightarrow> (p, w) | Some c \<Rightarrow> run_calls ops n c)"

definition halted :: "'a outcome \<Rightarrow> 'a prog" where
  "halted out = (case out of Done x \<Rightarrow> Ret x | Panicked m \<Rightarrow> Panic m)"

lemma calls_next:
  "step_prog ops p w = Some (p', w') \<Longrightarrow> \<exists>n. run_calls ops n (p', w') = c \<Longrightarrow> \<exists>n. run_calls ops n (p, w) = c"
  by (metis run_calls.simps(2) option.case(2))

lemma run_is_calls: "\<exists>n. run_calls ops n (p, w) = (halted (fst (run ops p w)), snd (run ops p w))"
proof (induction p arbitrary: w)
  case (Ret x)
  then show ?case by (intro exI [of _ 0]) (simp add: halted_def)
next
  case (Panic m)
  then show ?case by (intro exI [of _ 0]) (simp add: halted_def)
qed (simp split: prod.splits, intro allI impI, rule calls_next, simp, simp)+

section \<open>Reasoning under interference\<close>

text \<open>
  \<open>rg ops R Q p w\<close>: from \<open>w\<close> on, as long as the world between two calls of \<open>p\<close> changes along \<open>R\<close>
  only, each call of \<open>p\<close> changes it along \<open>R\<close> too, and a result satisfies \<open>Q\<close> from then on.
\<close>

inductive rg :: "'w world_ops \<Rightarrow> ('w \<Rightarrow> 'w \<Rightarrow> bool) \<Rightarrow> ('a \<Rightarrow> 'w \<Rightarrow> bool) \<Rightarrow> 'a prog \<Rightarrow> 'w \<Rightarrow> bool"
  for ops :: "'w world_ops" and R :: "'w \<Rightarrow> 'w \<Rightarrow> bool" and Q :: "'a \<Rightarrow> 'w \<Rightarrow> bool" where
  guarded: "\<forall>x w1. p = Ret x \<longrightarrow> R w w1 \<longrightarrow> Q x w1 \<Longrightarrow>
    \<forall>w1 p' w2. R w w1 \<longrightarrow> step_prog ops p w1 = Some (p', w2) \<longrightarrow> R w1 w2 \<and> rg ops R Q p' w2 \<Longrightarrow>
    rg ops R Q p w"

definition on_ok :: "('a \<Rightarrow> 'w \<Rightarrow> bool) \<Rightarrow> 'e + 'a \<Rightarrow> 'w \<Rightarrow> bool" where
  "on_ok P r w \<longleftrightarrow> (case r of Inl e \<Rightarrow> True | Inr x \<Rightarrow> P x w)"

inductive_simps rg_simps: "rg ops R Q p w"
inductive_simps rg_Ret_simps: "rg ops R Q (Ret x) w"

context frame
begin

lemma rg_Ret: "(\<And>w1. R w w1 \<Longrightarrow> Q x w1) \<Longrightarrow> rg ops R Q (Ret x) w"
  by (simp add: rg_Ret_simps)

lemma rg_Panic: "rg ops R Q (Panic m) w"
  by (simp add: rg_simps [of _ _ _ "Panic m"])

lemma rg_call:
  "(\<And>x. p \<noteq> Ret x) \<Longrightarrow> (\<And>w1 p' w2. R w w1 \<Longrightarrow> step_prog ops p w1 = Some (p', w2) \<Longrightarrow> R w1 w2 \<and> rg ops R Q p' w2) \<Longrightarrow>
   rg ops R Q p w"
  by (rule guarded) auto

lemma rg_stable: "rg ops R Q p w \<Longrightarrow> R w w1 \<Longrightarrow> rg ops R Q p w1"
  by (erule rg.cases) (rule guarded; blast intro: frame_trans)

lemma rg_mono:
  assumes "rg ops R Q p w" "\<And>x w1. R w w1 \<Longrightarrow> Q x w1 \<Longrightarrow> Q' x w1"
  shows "rg ops R Q' p w"
  using assms
proof (induction rule: rg.induct)
  case (guarded p w)
  have "R w1 w2 \<and> rg ops R Q' p' w2" if s: "R w w1" "step_prog ops p w1 = Some (p', w2)" for w1 p' w2
  proof -
    have "R w1 w2" "(\<forall>x w3. R w2 w3 \<longrightarrow> Q x w3 \<longrightarrow> Q' x w3) \<longrightarrow> rg ops R Q' p' w2"
      using guarded.IH s by blast+
    with s guarded.prems show ?thesis by (meson frame_trans)
  qed
  with guarded.hyps guarded.prems show ?case by (intro rg.guarded) blast+
qed

lemma rg_bind:
  assumes "rg ops R (\<lambda>x. rg ops R Q (f x)) p w"
  shows "rg ops R Q (prog_bind p f) w"
  using assms
proof (induction rule: rg.induct)
  case (guarded p w)
  show ?case
  proof (cases "\<exists>x. p = Ret x")
    case True
    then show ?thesis using guarded.hyps frame_refl by auto
  next
    case False
    show ?thesis
    proof (rule rg_call, goal_cases)
      case (1 x)
      then show ?case using False by (cases p) auto
    next
      case (2 w1 p' w2)
      then obtain p0 where "p' = prog_bind p0 f" "step_prog ops p w1 = Some (p0, w2)"
        using step_bind [of p ops f w1] False by auto
      with 2 guarded.IH show ?case by blast
    qed
  qed
qed

lemma rg_closed: "rg ops R Q p w \<Longrightarrow> rg ops R (\<lambda>x w1. \<forall>w2. R w1 w2 \<longrightarrow> Q x w2) p w"
proof (induction rule: rg.induct)
  case (guarded p w)
  then show ?case by (intro rg.guarded) (blast intro: frame_trans)+
qed

text \<open>Results with an error: the condition is on the values.\<close>

lemma rg_try:
  assumes "rg ops R (on_ok (\<lambda>x. rg ops R (on_ok P) (k x))) p w"
  shows "rg ops R (on_ok P) (prog_try p k) w"
  unfolding prog_try_def
  by (rule rg_bind, rule rg_mono [OF assms]) (auto intro: rg_Ret simp: on_ok_def split: sum.splits)

lemma rg_ret_try: "(\<And>x. r = Inr x \<Longrightarrow> rg ops R (on_ok P) (k x) w) \<Longrightarrow> rg ops R (on_ok P) (ret_try r k) w"
  by (cases r) (auto intro: rg_Ret simp: on_ok_def)

lemma rg_map_err:
  assumes "rg ops R (on_ok P) p w"
  shows "rg ops R (on_ok P) (prog_map_err f p) w"
  unfolding prog_map_err_def
proof (rule rg_bind, rule rg_mono [OF rg_closed [OF assms]], goal_cases)
  case (1 r w1)
  then show ?case by (cases r) (auto intro!: rg_Ret simp: on_ok_def)
qed

lemma rg_error: "rg ops R (on_ok P) (Ret (Inl e)) w"
  by (rule rg_Ret) (simp add: on_ok_def)

lemma rg_value: "(\<And>w1. R w w1 \<Longrightarrow> P x w1) \<Longrightarrow> rg ops R (on_ok P) (Ret (Inr x)) w"
  by (rule rg_Ret) (simp add: on_ok_def)

lemma rg_weaken: "rg ops R Q p w \<Longrightarrow> rg ops R (\<lambda>_ _. True) p w"
  by (rule rg_mono) simp_all

end

section \<open>Pools of requests\<close>

text \<open>The requests in flight: any may make its next call, and a new one may arrive at any time, with
  whatever application state its server has.\<close>

inductive pool_step :: "'x api_crates_scheme \<Rightarrow> 'w world_ops \<Rightarrow> response prog list \<times> 'w \<Rightarrow> response prog list \<times> 'w \<Rightarrow> bool"
  for ext :: "'x api_crates_scheme" and ops :: "'w world_ops" where
  arrive: "pool_step ext ops (ps, w) (ps @ [build_router ext st ep req], w)"
| call: "i < length ps \<Longrightarrow> step_prog ops (ps ! i) w = Some (p', w') \<Longrightarrow> pool_step ext ops (ps, w) (ps[i := p'], w')"

text \<open>The same, with arrivals on the endpoints of a class \<open>A\<close> only.\<close>

inductive pool_step_for ::
  "'x api_crates_scheme \<Rightarrow> 'w world_ops \<Rightarrow> (endpoint \<Rightarrow> bool) \<Rightarrow> response prog list \<times> 'w \<Rightarrow> response prog list \<times> 'w \<Rightarrow> bool"
  for ext :: "'x api_crates_scheme" and ops :: "'w world_ops" and A :: "endpoint \<Rightarrow> bool" where
  arrive: "A ep \<Longrightarrow> pool_step_for ext ops A (ps, w) (ps @ [build_router ext st ep req], w)"
| call: "i < length ps \<Longrightarrow> step_prog ops (ps ! i) w = Some (p', w') \<Longrightarrow> pool_step_for ext ops A (ps, w) (ps[i := p'], w')"

lemma pool_step_for_all: "pool_step ext ops = pool_step_for ext ops (\<lambda>_. True)"
  by (auto simp: fun_eq_iff pool_step.simps pool_step_for.simps)

definition pool_safe :: "'w world_ops \<Rightarrow> ('w \<Rightarrow> 'w \<Rightarrow> bool) \<Rightarrow> 'a prog list \<times> 'w \<Rightarrow> bool" where
  "pool_safe ops R c \<longleftrightarrow> list_all (\<lambda>p. rg ops R (\<lambda>_ _. True) p (snd c)) (fst c)"

context frame
begin

lemma pool_safe_step:
  assumes "pool_step_for ext ops A c c'" "pool_safe ops R c"
    and "\<And>st ep req. A ep \<Longrightarrow> rg ops R (\<lambda>_ _. True) (build_router ext st ep req) (snd c)"
  shows "R (snd c) (snd c') \<and> pool_safe ops R c'"
  using assms(1)
proof (cases rule: pool_step_for.cases)
  case (arrive ep ps w st req)
  then show ?thesis using assms(2,3) by (simp add: pool_safe_def frame_refl)
next
  case (call i ps w p' w')
  then have i: "rg ops R (\<lambda>_ _. True) (ps ! i) w" using assms(2) by (simp add: pool_safe_def list_all_length)
  then have "R w w' \<and> rg ops R (\<lambda>_ _. True) p' w'"
    using call frame_refl by (metis rg.cases)
  then show ?thesis
    using call assms(2) by (auto simp: pool_safe_def list_all_length nth_list_update intro: rg_stable)
qed

lemma pool_safe_steps:
  assumes "(pool_step_for ext ops A)\<^sup>*\<^sup>* c c'" "pool_safe ops R c"
    and arrivals: "\<And>w st ep req. R (snd c) w \<Longrightarrow> A ep \<Longrightarrow> rg ops R (\<lambda>_ _. True) (build_router ext st ep req) w"
  shows "R (snd c) (snd c') \<and> pool_safe ops R c'"
  using assms(1,2)
proof (induction rule: rtranclp_induct)
  case base
  then show ?case by (simp add: frame_refl)
next
  case (step c1 c2)
  then show ?case using pool_safe_step [of ext ops A c1 c2] arrivals frame_trans by metis
qed

end

end
