(* ===== verification/Concurrency.thy ===== *)
theory Concurrency
  imports Interleaving
begin

text \<open>
  The service under interference: what stays true when any number of requests is in flight and their
  calls come in any order, and what does not.
\<close>

section \<open>The transactions\<close>

definition tables_ok :: "'x crates_scheme \<Rightarrow> tables \<Rightarrow> bool" where
  "tables_ok ext t \<longleftrightarrow> repo_ok ext t \<and> users_ok ext t"

text \<open>A transaction keeps the invariant and every stored record, and leaves those of a set \<open>K\<close> as they are: the
  records that no request in flight writes.\<close>

definition undisturbed :: "uuid set \<Rightarrow> store \<Rightarrow> store \<Rightarrow> bool" where
  "undisturbed K S S' \<longleftrightarrow> kept persists S S' \<and> (\<forall>i \<in> K. S i \<noteq> None \<longrightarrow> S' i = S i)"

definition sound_change :: "'x crates_scheme \<Rightarrow> uuid set \<Rightarrow> tables \<Rightarrow> tables \<Rightarrow> bool" where
  "sound_change ext K t t' \<longleftrightarrow> tables_ok ext t' \<and> undisturbed K (view ext t) (view ext t')"

lemma undisturbed_update:
  "(\<And>s. S i = Some s \<Longrightarrow> i \<notin> K \<and> persists s s') \<Longrightarrow> undisturbed K S (S(i \<mapsto> s'))"
  by (auto simp: undisturbed_def kept_def persists_def)

lemma undisturbed_refl [simp]: "undisturbed K S S"
  by (simp add: undisturbed_def kept_def persists_def)

lemma undisturbed_trans: "undisturbed K S T \<Longrightarrow> undisturbed K T U \<Longrightarrow> undisturbed K S U"
  unfolding undisturbed_def by (metis kept_trans)

lemma undisturbed_there: "undisturbed K S S' \<Longrightarrow> S i \<noteq> None \<Longrightarrow> S' i \<noteq> None"
  by (simp add: undisturbed_def kept_def)

lemma users_ok_tables:
  "users_ok ext (written ext row c t) = users_ok ext t"
  "users_ok ext (appended_tables vid vrow rid now t) = users_ok ext t"
  "users_ok ext (fixed_tables rid hash now vid' b t) = users_ok ext t"
  by (simp_all add: users_ok_def written_def appended_tables_def fixed_tables_def Let_def)

context backend
begin

lemma written_sound:
  assumes "tables_ok ext t" "write_free ext (record_to_persisted_row lit r cr now) t" "well_formed lit r"
  shows "sound_change ext K t (written ext (record_to_persisted_row lit r cr now) c t)"
proof -
  let ?row = "record_to_persisted_row lit r cr now"
  have ok: "repo_ok ext t" using assms(1) by (simp add: tables_ok_def)
  have "view ext t (rec_id r) = None" using assms(2) by (simp add: view_None write_free_def map_of_notin)
  then have "undisturbed K (view ext t) (view ext (written ext ?row c t))"
    unfolding view_written_saved [OF text_laws ok assms(2)] by (intro undisturbed_update) simp
  moreover have "repo_ok ext (written ext ?row c t)"
    using repo_ok_written [OF ok assms(2) row_valid_of_record [OF assms(3)]] by simp
  ultimately show ?thesis
    using assms(1) by (simp add: sound_change_def tables_ok_def users_ok_tables)
qed

lemma appended_sound:
  assumes "tables_ok ext t" "view ext t i \<noteq> None" "uuid_to_string ext vid \<notin> fst ` set (t_version t)" "i \<notin> K"
  shows "sound_change ext K t (appended_tables (uuid_to_string ext vid)
     \<lparr>vw_record_id = i, vw_body = b, vw_created_at = n\<rparr> (uuid_to_string ext i) now t)" (is "sound_change ext K t ?t")
proof -
  obtain s where s: "view ext t i = Some s" using assms(2) by auto
  have "undisturbed K (view ext t) (view ext ?t)"
    unfolding view_appended [OF s] using s assms(4) by (intro undisturbed_update) (simp add: persists_def)
  moreover have "repo_ok ext ?t" using repo_ok_appended [OF _ s assms(3)] assms(1) by (simp add: tables_ok_def)
  ultimately show ?thesis
    using assms(1) by (simp add: sound_change_def tables_ok_def users_ok_tables)
qed

lemma fixed_sound:
  assumes "tables_ok ext t" "view ext t i = Some s" "VersionId vid \<in># image_mset ver_id (st_versions s)" "hex64 hash" "i \<notin> K"
  shows "sound_change ext K t (fixed_tables (uuid_to_string ext i) hash now (uuid_to_string ext vid) b t)" (is "sound_change ext K t ?t")
proof -
  have ok: "repo_ok ext t" and inv: "repo_inv ext t" using assms(1) by (simp_all add: tables_ok_def repo_ok_def)
  have "st_versions s = mset (map (stored_version ext) (versions_of i t))"
    using assms(2) by (auto simp: view_def split: sum.splits option.splits)
  with assms(3) obtain kv where kv: "kv \<in> set (versions_of i t)" "the (uuid_parse_str ext (fst kv)) = vid"
    by (auto simp: stored_version_def)
  then obtain u where "fst kv = uuid_to_string ext u"
    using inv by (auto simp: repo_inv_def versions_of_def)
  with kv obtain v where v: "(uuid_to_string ext vid, v) \<in> set (versions_of i t)"
    by (metis uuid_parse_to_string option.sel prod.collapse)
  let ?old = "stored_version ext (uuid_to_string ext vid, v)"
  have mem: "?old \<in># st_versions s" and id: "ver_id ?old = VersionId vid"
    using imageI [OF v, of "stored_version ext"] \<open>st_versions s = _\<close> by (simp_all add: stored_version_def uuid_parse_to_string)
  have view: "view ext ?t = (view ext t)(i \<mapsto> s\<lparr>st_state := PFixed, st_hash := Some hash,
      st_versions := add_mset \<lparr>ver_id = VersionId vid, ver_body = body_from_persisted b\<rparr> (st_versions s - {#?old#})\<rparr>)"
    by (rule view_fixed [OF inv assms(2) v])
  have "image_mset ver_id (st_versions s) = add_mset (VersionId vid) (image_mset ver_id (st_versions s - {#?old#}))"
    using mem id by (metis image_mset_add_mset insert_DiffM)
  then have kept: "undisturbed K (view ext t) (view ext ?t)"
    unfolding view using assms(2,5) by (intro undisturbed_update) (simp add: persists_def)
  moreover have "no_orphans ext ?t"
    by (rule no_orphans_mono [of ext t])
      (use ok view versions_of_fixed in \<open>auto simp: repo_ok_def versions_of_body_update map_entry_def\<close>)
  ultimately show ?thesis
    using assms(1,4) inv by (simp add: sound_change_def tables_ok_def users_ok_tables repo_ok_def repo_inv_fixed)
qed

lemma created_sound:
  assumes "tables_ok ext t" "run_stmt (CreateOrUser (uuid_to_string ext u) sub now) t = Some t'"
  shows "sound_change ext K t t'"
proof -
  have same: "same_but_users t t'" using upsert_same_users [OF assms(2)] .
  have "t_schema t' = t_schema t" "t_or_user t' = t_or_user t @ [(uuid_to_string ext u, sub, now)]"
    "unique_sub_index \<in> set (t_schema t) \<Longrightarrow> sub \<notin> (\<lambda>r. fst (snd r)) ` set (t_or_user t)"
    using assms(2) by (auto simp: comp_def split: if_splits)
  then have "users_ok ext t'"
    using assms(1) unfolding tables_ok_def users_ok_def by fastforce
  then show ?thesis
    using assms(1) by (simp add: sound_change_def tables_ok_def same_but_users_repo [OF same] undisturbed_refl)
qed

end

section \<open>The calls under interference\<close>

text \<open>The stored record that a request may change: a new one is not stored yet.\<close>

definition writes :: "endpoint \<Rightarrow> uuid set" where
  "writes ep = (case ep of PutRecord i _ \<Rightarrow> {i} | PostFix i _ \<Rightarrow> {i} | _ \<Rightarrow> {})"

definition later ::
  "'x api_crates_scheme \<Rightarrow> ('w \<Rightarrow> tables) \<Rightarrow> ('w \<Rightarrow> string \<Rightarrow> byte list option) \<Rightarrow> uuid set \<Rightarrow> 'w \<Rightarrow> 'w \<Rightarrow> bool" where
  "later ext tables blobs K w w' \<longleftrightarrow> tables_ok ext (tables w') \<and> content_ok ext (blobs w') \<and>
     undisturbed K (view ext (tables w)) (view ext (tables w')) \<and> blobs w \<subseteq>\<^sub>m blobs w'"

text \<open>What every request relies on, and what it guarantees the others.\<close>

definition serves ::
  "'x api_crates_scheme \<Rightarrow> ('w \<Rightarrow> tables) \<Rightarrow> ('w \<Rightarrow> string \<Rightarrow> byte list option) \<Rightarrow> uuid set \<Rightarrow> 'w \<Rightarrow> 'w \<Rightarrow> bool" where
  "serves ext tables blobs K w w' \<longleftrightarrow>
     (service_ok ext tables blobs w \<longrightarrow> later ext tables blobs K w w')"

lemma serves_frame: "frame (serves ext tables blobs K)"
  by unfold_locales (auto simp: serves_def later_def service_ok_def tables_ok_def intro: undisturbed_trans map_le_trans undisturbed_refl)

lemma serves_later: "service_ok ext tables blobs w \<Longrightarrow> serves ext tables blobs K w w' \<longleftrightarrow> later ext tables blobs K w w'"
  by (simp add: serves_def)

lemma later_sound: "later ext tables blobs K w w' \<Longrightarrow> service_ok ext tables blobs w'"
  by (simp add: later_def service_ok_def tables_ok_def)

lemma later_same:
  "later ext tables blobs K w w1 \<Longrightarrow> tables w2 = tables w1 \<Longrightarrow> blobs w2 = blobs w1 \<Longrightarrow> later ext tables blobs K w w2"
  by (simp add: later_def)

lemma later_trans: "later ext tables blobs K u v \<Longrightarrow> later ext tables blobs K v w \<Longrightarrow> later ext tables blobs K u w"
  unfolding later_def by (blast intro: undisturbed_trans map_le_trans)

context api_services
begin

abbreviation later_world :: "uuid set \<Rightarrow> 'w \<Rightarrow> 'w \<Rightarrow> bool" where
  "later_world \<equiv> later ext tables blobs"

abbreviation safe :: "uuid set \<Rightarrow> ('e + 'a) prog \<Rightarrow> ('a \<Rightarrow> 'w \<Rightarrow> bool) \<Rightarrow> 'w \<Rightarrow> bool" where
  "safe K p P w \<equiv> rg ops (serves ext tables blobs K) (on_ok P) p w"

lemmas safe_rules = frame.rg_try [OF serves_frame] frame.rg_ret_try [OF serves_frame] frame.rg_map_err [OF serves_frame]
  frame.rg_error [OF serves_frame]

lemmas safe_Panic = frame.rg_Panic [OF serves_frame]

lemma safe_value:
  "service_ok ext tables blobs w \<Longrightarrow> (\<And>w1. later_world K w w1 \<Longrightarrow> P x w1) \<Longrightarrow> safe K (Ret (Inr x)) P w"
  by (rule frame.rg_value [OF serves_frame]) (simp add: serves_later)

text \<open>A call that changes neither tables nor blobs.\<close>

lemma safe_call:
  assumes sound: "service_ok ext tables blobs w" and p: "\<And>x. p \<noteq> Ret x"
    and step: "\<And>w1. step_prog ops p w1 = Some (case f w1 of (r, w2) \<Rightarrow> (k r, w2))"
    and change: "\<And>w1 r w2. later_world K w w1 \<Longrightarrow> f w1 = (r, w2) \<Longrightarrow> later_world K w1 w2"
    and rest: "\<And>w1 r w2. later_world K w w1 \<Longrightarrow> f w1 = (r, w2) \<Longrightarrow> later_world K w w2 \<Longrightarrow> rg ops (serves ext tables blobs K) Q (k r) w2"
  shows "rg ops (serves ext tables blobs K) Q p w"
proof (rule frame.rg_call [OF serves_frame p], goal_cases)
  case (1 w1 p' w2)
  then have w1: "later_world K w w1" using sound by (simp add: serves_later)
  obtain r where r: "f w1 = (r, w2)" "p' = k r" using 1(2) step [of w1] by (auto split: prod.splits)
  then have "later_world K w1 w2" using change w1 by blast
  then show ?case
    using r rest [OF w1 r(1)] later_trans [OF w1] serves_later [OF later_sound [OF w1]] by blast
qed

lemma safe_quiet:
  assumes "service_ok ext tables blobs w" "\<And>x. p \<noteq> Ret x"
    and "\<And>w1. step_prog ops p w1 = Some (case f w1 of (r, w2) \<Rightarrow> (k r, w2))"
    and quiet: "\<And>w1 r w2. f w1 = (r, w2) \<Longrightarrow> tables w2 = tables w1 \<and> blobs w2 = blobs w1"
    and rest: "\<And>w1 r w2. later_world K w w2 \<Longrightarrow> f w1 = (r, w2) \<Longrightarrow> tables w2 = tables w1 \<Longrightarrow> blobs w2 = blobs w1 \<Longrightarrow>
      rg ops (serves ext tables blobs K) Q (k r) w2"
  shows "rg ops (serves ext tables blobs K) Q p w"
  by (rule safe_call [OF assms(1-3)])
    (use quiet rest in \<open>auto simp: later_def dest!: quiet\<close>)

lemma safe_now_v7:
  assumes "service_ok ext tables blobs w" "\<And>u w1. later_world K w w1 \<Longrightarrow> rg ops (serves ext tables blobs K) Q (k u) w1"
  shows "rg ops (serves ext tables blobs K) Q (NowV7 k) w"
  by (rule safe_quiet [OF assms(1), where f = "do_now_v7 ops" and k = k])
    (use assms now_v7_tables db_keeps_blobs in \<open>auto split: prod.splits\<close>)

lemma safe_utc_now:
  assumes "service_ok ext tables blobs w" "\<And>u w1. later_world K w w1 \<Longrightarrow> rg ops (serves ext tables blobs K) Q (k u) w1"
  shows "rg ops (serves ext tables blobs K) Q (UtcNow k) w"
  by (rule safe_quiet [OF assms(1), where f = "do_utc_now ops" and k = k])
    (use assms utc_now_tables db_keeps_blobs in \<open>auto split: prod.splits\<close>)

lemma safe_select_record:
  assumes "service_ok ext tables blobs w"
    and "\<And>r w1. later_world K w w1 \<Longrightarrow> (\<And>x. r = Inr x \<Longrightarrow> x = map_of (t_record (tables w1)) a) \<Longrightarrow>
      rg ops (serves ext tables blobs K) Q (k r) w1"
  shows "rg ops (serves ext tables blobs K) Q (SelectRecord a k) w"
  by (rule safe_quiet [OF assms(1), where f = "do_select_record ops a" and k = k])
    (use assms select_record_tables select_record_reply db_keeps_blobs in \<open>auto split: prod.splits\<close>)

lemma safe_select_versions:
  assumes "service_ok ext tables blobs w"
    and "\<And>r w1. later_world K w w1 \<Longrightarrow> (\<And>rows. r = Inr rows \<Longrightarrow> mset rows = mset (map read_version (versions_of i (tables w1)))) \<Longrightarrow>
      rg ops (serves ext tables blobs K) Q (k r) w1"
  shows "rg ops (serves ext tables blobs K) Q (SelectVersions i k) w"
  by (rule safe_quiet [OF assms(1), where f = "do_select_versions ops i" and k = k])
    (use assms select_versions_tables select_versions_reply db_keeps_blobs in \<open>auto split: prod.splits\<close>)

lemma safe_select_created_by:
  assumes "service_ok ext tables blobs w" "\<And>u w1. later_world K w w1 \<Longrightarrow> rg ops (serves ext tables blobs K) Q (k u) w1"
  shows "rg ops (serves ext tables blobs K) Q (SelectCreatedBy a k) w"
  by (rule safe_quiet [OF assms(1), where f = "do_select_created_by ops a" and k = k])
    (use assms select_created_by_tables db_keeps_blobs in \<open>auto split: prod.splits\<close>)

lemma safe_select_or_user:
  assumes "service_ok ext tables blobs w" "\<And>u w1. later_world K w w1 \<Longrightarrow> rg ops (serves ext tables blobs K) Q (k u) w1"
  shows "rg ops (serves ext tables blobs K) Q (SelectOrUser a k) w"
  by (rule safe_quiet [OF assms(1), where f = "do_select_or_user ops a" and k = k])
    (use assms select_or_user_tables db_keeps_blobs in \<open>auto split: prod.splits\<close>)

lemma safe_obj_get:
  assumes "service_ok ext tables blobs w"
    and "\<And>r w1. later_world K w w1 \<Longrightarrow> (\<And>b. r = Inr b \<Longrightarrow> blobs w1 p = Some b) \<Longrightarrow> rg ops (serves ext tables blobs K) Q (k r) w1"
  shows "rg ops (serves ext tables blobs K) Q (ObjGet p k) w"
  by (rule safe_quiet [OF assms(1), where f = "do_obj_get ops p" and k = k])
    (use assms obj_get_blobs obj_get_ok obj_keeps_tables in \<open>auto split: prod.splits\<close>)

lemma safe_obj_put_create:
  assumes "service_ok ext tables blobs w"
    and content: "\<And>w1. later_world K w w1 \<Longrightarrow> content_ok ext (blobs w1) \<Longrightarrow> content_ok ext ((blobs w1)(p \<mapsto> b))"
    and "\<And>r w1. later_world K w w1 \<Longrightarrow> rg ops (serves ext tables blobs K) Q (k r) w1"
  shows "rg ops (serves ext tables blobs K) Q (ObjPutCreate p b k) w"
proof (rule safe_call [OF assms(1), where f = "do_obj_put_create ops p b" and k = k], goal_cases)
  case (3 w1 r w2)
  have "blobs w2 = blobs w1 \<or> blobs w1 p = None \<and> blobs w2 = (blobs w1)(p \<mapsto> b)"
    using 3(2) obj_put_create_ok obj_put_create_err by (cases r) auto
  moreover have "tables w2 = tables w1" by (rule obj_keeps_tables(5) [OF 3(2)])
  ultimately show ?case using 3(1) content [OF 3(1)] by (auto simp: later_def map_le_def)
qed (use assms(3) in \<open>auto split: prod.splits\<close>)

lemma safe_query:
  assumes "service_ok ext tables blobs w" "atomic_stmts q = Some ss"
    and sound: "\<And>w1 t'. later_world K w w1 \<Longrightarrow> run_stmts ss (tables w1) = Some t' \<Longrightarrow> sound_change ext K (tables w1) t'"
    and "\<And>r w1. later_world K w w1 \<Longrightarrow> rg ops (serves ext tables blobs K) Q (k r) w1"
  shows "rg ops (serves ext tables blobs K) Q (Query q k) w"
proof (rule safe_call [OF assms(1), where f = "do_query ops q" and k = k], goal_cases)
  case (3 w1 r w2)
  have "tables w2 = tables w1 \<or> run_stmts ss (tables w1) = Some (tables w2)"
    using 3(2) query_lost [OF _ assms(2)] query_refused [OF _ assms(2)] query_committed [OF _ assms(2)]
    by (cases r rule: sum.exhaust; cases "projr r") auto
  moreover have "blobs w2 = blobs w1" by (rule db_keeps_blobs(3) [OF 3(2)])
  ultimately show ?case using 3(1) sound [OF 3(1)] by (auto simp: later_def sound_change_def)
qed (use assms(4) in \<open>auto split: prod.splits\<close>)

lemma any_ok: "on_ok (\<lambda>_ _. True) r w"
  by (simp add: on_ok_def split: sum.splits)

lemma safe_mono: "safe K p P w \<Longrightarrow> (\<And>x w1. P x w1 \<Longrightarrow> P' x w1) \<Longrightarrow> safe K p P' w"
  by (erule frame.rg_mono [OF serves_frame]) (auto simp: on_ok_def split: sum.splits)

text \<open>The value, and that the world it is returned in is still sound and later.\<close>

lemma safe_later:
  assumes "service_ok ext tables blobs w" "safe K p P w"
  shows "safe K p (\<lambda>x w1. P x w1 \<and> later_world K w w1) w"
  by (rule frame.rg_mono [OF serves_frame assms(2)])
    (auto simp: on_ok_def serves_later [OF assms(1)] split: sum.splits)

lemma safe_try:
  assumes sound: "service_ok ext tables blobs w" and p: "safe K p P w"
    and k: "\<And>x w1. P x w1 \<Longrightarrow> later_world K w w1 \<Longrightarrow> service_ok ext tables blobs w1 \<Longrightarrow> safe K (k x) P' w1"
  shows "safe K (prog_try p k) P' w"
  by (rule safe_rules(1), rule safe_mono [OF safe_later [OF sound p]])
    (elim conjE, rule k, assumption+, erule later_sound)

lemma safe_api_call: "safe K p P w \<Longrightarrow> safe K (api_call p) P w"
  unfolding api_call_def by (rule safe_rules(3))

lemma safe_surreal_read: "safe K p P w \<Longrightarrow> safe K (surreal_read p) P w"
  unfolding surreal_read_def by (rule safe_rules(3))

lemma safe_done: "safe K (Ret r) (\<lambda>_ _. True) w"
  by (rule frame.rg_Ret [OF serves_frame]) (rule any_ok)

lemma safe_query_checked:
  assumes "service_ok ext tables blobs w" "atomic_stmts q = Some ss"
    and "\<And>w1 t'. later_world K w w1 \<Longrightarrow> run_stmts ss (tables w1) = Some t' \<Longrightarrow> sound_change ext K (tables w1) t'"
  shows "safe K (query_checked q) (\<lambda>_ _. True) w"
  unfolding query_checked_def by (rule safe_query [OF assms]) (assumption | rule safe_done)+

lemma safe_find_or_user: "service_ok ext tables blobs w \<Longrightarrow> safe K (find_or_user_by_sub ext s) (\<lambda>_ _. True) w"
  unfolding find_or_user_by_sub_def
  by (rule safe_try [where P = "\<lambda>_ _. True"])
    (auto intro: safe_surreal_read safe_select_or_user safe_done)

lemma later_tables_ok: "later_world K w w1 \<Longrightarrow> tables_ok ext (tables w1)"
  by (simp add: later_def)

lemma safe_create_user:
  assumes "service_ok ext tables blobs w" "\<And>r w1. later_world K w w1 \<Longrightarrow> rg ops (serves ext tables blobs K) Q (k r) w1"
  shows "rg ops (serves ext tables blobs K) Q (Query (Statements [CreateOrUser (uuid_to_string ext u) s now]) k) w"
proof (rule safe_query [OF assms(1) atomic_stmts.simps(2)], goal_cases)
  case (1 w1 t')
  from 1(2) have "run_stmt (CreateOrUser (uuid_to_string ext u) s now) (tables w1) = Some t'"
    by (simp del: run_stmt.simps split: option.splits)
  then show ?case using created_sound later_tables_ok [OF 1(1)] by blast
next
  case (2 r w1)
  then show ?case by (rule assms(2))
qed

lemma safe_upsert:
  assumes "service_ok ext tables blobs w"
  shows "safe K (upsert_or_user ext s) (\<lambda>_ _. True) w"
  unfolding upsert_or_user_def
proof (rule safe_try [OF assms safe_find_or_user [OF assms]], goal_cases)
  case (1 found w1)
  have create: "safe K (prog_try (surreal_read (Query (Statements [CreateOrUser (uuid_to_string ext u) s now]) Ret))
      (\<lambda>result. case result of
           Inr _ \<Rightarrow> Ret (Inr \<lparr>or_id = u, or_auth0_sub = s, or_created_at = now\<rparr>)
         | Inl _ \<Rightarrow>
             prog_try (find_or_user_by_sub ext s) (\<lambda>again.
             Ret (ok_or (MalformedHash (reselect_missed_message ext s)) again)))) (\<lambda>_ _. True) w2"
    if w2: "service_ok ext tables blobs w2" for u now w2
  proof (rule safe_try [OF w2, where P = "\<lambda>_ _. True"], goal_cases)
    case 1
    show ?case by (rule safe_surreal_read, rule safe_create_user [OF w2]) (rule safe_done)
  next
    case (2 result w3)
    then show ?case
      by (cases result) (auto intro!: safe_done safe_try [OF _ safe_find_or_user])
  qed
  show ?case
  proof (cases found)
    case None
    show ?thesis
      unfolding None option.case
      by (rule safe_now_v7 [OF 1(3)], rule safe_utc_now, erule later_sound, rule create, erule later_sound)
  next
    case (Some u)
    show ?thesis unfolding Some option.case by (rule safe_done)
  qed
qed

text \<open>Versions that were read of a record are its versions from then on.\<close>

definition held :: "tables \<Rightarrow> uuid \<Rightarrow> version list \<Rightarrow> bool" where
  "held t i vs \<longleftrightarrow> (\<exists>s. view ext t i = Some s \<and> (\<forall>v \<in> set vs. ver_id v \<in># image_mset ver_id (st_versions s)))"

lemma held_later:
  assumes "held (tables w) i vs" "later_world K w w1"
  shows "held (tables w1) i vs"
proof -
  obtain s where s: "view ext (tables w) i = Some s" "\<forall>v \<in> set vs. ver_id v \<in># image_mset ver_id (st_versions s)"
    using assms(1) by (auto simp: held_def)
  obtain s1 where s1: "view ext (tables w1) i = Some s1" "persists s s1"
    using assms(2) s(1) by (force simp: later_def undisturbed_def kept_def)
  then have "image_mset ver_id (st_versions s) \<subseteq># image_mset ver_id (st_versions s1)" by (simp add: persists_def)
  with s(2) have "\<forall>v \<in> set vs. ver_id v \<in># image_mset ver_id (st_versions s1)"
    by (meson mset_subset_eqD)
  with s1(1) show ?thesis unfolding held_def by blast
qed

lemma held_read:
  assumes "tables_ok ext t" "view ext t i \<noteq> None" "mset rows = mset (map read_version (versions_of i t))"
    and "collect_results (map (version_row_into_persisted ext) rows) = Inr vs"
  shows "held t i (map version_from_persisted vs)"
proof -
  obtain s where s: "view ext t i = Some s" using assms(2) by auto
  have "set rows = read_version ` set (versions_of i t)" using mset_eq_setD [OF assms(3)] by simp
  then have "set rows \<subseteq> read_version ` set (t_version t)" by (auto simp: versions_of_def)
  with assms(1,4) have "vs = chain_of ext rows"
    using collect_chain [of t rows] by (simp add: tables_ok_def repo_ok_def)
  then have "mset (map version_from_persisted vs) = st_versions s"
    using mset_chain [OF assms(3)] s by (auto simp: view_def split: sum.splits option.splits)
  then have "set_mset (st_versions s) = set (map version_from_persisted vs)" by (metis set_mset_mset)
  then show ?thesis using s by (auto simp: held_def)
qed

lemma safe_fetch_versions:
  assumes "service_ok ext tables blobs w" "view ext (tables w) i \<noteq> None"
  shows "safe K (fetch_versions ext i) (\<lambda>vs w1. held (tables w1) i (map version_from_persisted vs)) w"
proof -
  have read: "safe K (surreal_read (SelectVersions i Ret)) (\<lambda>rows w1. \<forall>vs.
      collect_results (map (version_row_into_persisted ext) rows) = Inr vs \<longrightarrow> held (tables w1) i (map version_from_persisted vs)) w"
  proof (rule safe_surreal_read, rule safe_select_versions [OF assms(1)], goal_cases)
    case (1 r w1)
    have "view ext (tables w1) i \<noteq> None" using 1(1) assms(2) by (simp add: later_def undisturbed_def kept_def)
    then have "held (tables w2) i (map version_from_persisted vs)"
      if "r = Inr rows" "collect_results (map (version_row_into_persisted ext) rows) = Inr vs" "later_world K w1 w2" for rows vs w2
      using 1 held_read [OF later_tables_ok [OF 1(1)]] held_later that by blast
    then show ?case
      by (cases r) (auto intro!: safe_rules(4) safe_value later_sound [OF 1(1)])
  qed
  show ?thesis
    unfolding fetch_versions_def
  proof (rule safe_try [OF assms(1) read], goal_cases)
    case (1 rows w1)
    then show ?case
      using held_later
      by (cases "collect_results (map (version_row_into_persisted ext) rows)")
        (auto intro!: safe_rules(4) safe_value)
  qed
qed

lemma safe_fetch_attribution:
  "service_ok ext tables blobs w \<Longrightarrow> safe K (fetch_attribution ext i) (\<lambda>_ _. True) w"
  unfolding fetch_attribution_def
  by (rule safe_try [where P = "\<lambda>_ _. True"]) (auto intro: safe_surreal_read safe_select_created_by safe_done)

lemma safe_assemble:
  assumes "service_ok ext tables blobs w"
  shows "safe K (assemble ext i) (\<lambda>found w1. \<forall>rwa. found = Some rwa \<longrightarrow> held (tables w1) i (any_versions (rwa_record rwa))) w"
proof -
  have there: "safe K (surreal_read (SelectRecord (uuid_to_string ext i) Ret))
      (\<lambda>row w1. row \<noteq> None \<longrightarrow> view ext (tables w1) i \<noteq> None) w"
  proof (rule safe_surreal_read, rule safe_select_record [OF assms], goal_cases)
    case (1 r w1)
    show ?case
    proof (cases r)
      case (Inl e)
      then show ?thesis by (simp add: safe_rules(4))
    next
      case (Inr x)
      have "x \<noteq> None \<longrightarrow> view ext (tables w2) i \<noteq> None" if "later_world K w1 w2" for w2
        using 1(2) [OF Inr] that by (auto simp: later_def undisturbed_def kept_def view_None)
      then show ?thesis unfolding Inr by (rule safe_value [OF later_sound [OF 1(1)]])
    qed
  qed
  show ?thesis
    unfolding assemble_def
  proof (rule safe_try [OF assms there], goal_cases)
    case (1 row w1)
    note sound = 1(3)
    show ?case
    proof (cases row)
      case None
      then show ?thesis by (simp add: safe_value [OF sound])
    next
      case (Some r)
      then have "view ext (tables w1) i \<noteq> None" using 1(1) by simp
      note vs = safe_fetch_versions [OF sound this]
      show ?thesis
        unfolding Some option.case
      proof (rule safe_rules(2), rule safe_try [OF sound vs], rule safe_try [where P = "\<lambda>_ _. True"], goal_cases)
        case (2 p vs w2)
        then show ?case by (intro safe_fetch_attribution)
      next
        case (3 p vs w2 a w3)
        have "held (tables w3) i (map version_from_persisted vs)" using held_later 3(2,6) by blast
        then show ?case
          using held_later 3(7)
          by (auto intro!: safe_rules(2) safe_value simp: persisted_row_to_any_Inr row_to_any_reads)
      qed
    qed
  qed
qed

lemma safe_save:
  assumes "service_ok ext tables blobs w" "well_formed lit r"
  shows "safe K (save ext lit r creator) (\<lambda>_ _. True) w"
proof -
  have commit: "safe K (write_record_atomic ext (record_to_persisted_row lit r creator now)) (\<lambda>_ _. True) w1"
    if w1: "service_ok ext tables blobs w1" for now w1
  proof (cases "split_once CHR '':'' creator")
    case None
    show ?thesis
      unfolding write_record_atomic_def parse_thing_literal_def row_of_record None ok_or_simps ret_try_simps
      by (rule safe_rules(4))
  next
    case (Some c)
    obtain ct ci where c: "c = (ct, ci)" by (cases c)
    show ?thesis
      unfolding write_record_atomic_def parse_thing_literal_def row_of_record Some ok_or_simps ret_try_simps c prod.case Let_def
    proof (rule safe_query_checked [OF w1 atomic_stmts.simps(1)], goal_cases)
      case (1 w2 t')
      then show ?case
        using written_sound [OF later_tables_ok [OF 1(1)] _ assms(2)]
          run_write_record [of ext "record_to_persisted_row lit r creator now" ct ci "tables w2"]
        by (simp del: append.simps split: if_splits)
    qed
  qed
  show ?thesis
  proof (cases "LITERAL lit = PSnapshot")
    case True
    then show ?thesis by (simp add: save_def safe_rules(4))
  next
    case False
    show ?thesis
      unfolding save_def if_not_P [OF False] Let_def
      by (rule safe_utc_now [OF assms(1)], rule safe_try [where P = "\<lambda>_ _. True"])
        (auto intro!: safe_rules(4) commit safe_surreal_read safe_select_record safe_done dest: later_sound)
  qed
qed

lemma safe_add_version:
  assumes "service_ok ext tables blobs w" "view ext (tables w) i \<noteq> None" "i \<notin> K"
  shows "safe K (add_version ext i b) (\<lambda>_ _. True) w"
proof -
  have commit: "safe K (query_checked (Transaction
         [CreateVersion (uuid_to_string ext vid) \<lparr>vw_record_id = i, vw_body = body_to_persisted b, vw_created_at = now\<rparr>,
          UpdateRecordUpdatedAt (uuid_to_string ext i) now])) (\<lambda>_ _. True) w1"
    if "service_ok ext tables blobs w1" "view ext (tables w1) i \<noteq> None" for vid now w1
  proof (rule safe_query_checked [OF that(1) atomic_stmts.simps(1)], goal_cases)
    case (1 w2 t')
    have "view ext (tables w2) i \<noteq> None" using 1(1) that(2) by (simp add: later_def undisturbed_def kept_def)
    then show ?case
      using 1(2) appended_sound [OF later_tables_ok [OF 1(1)]] assms(3) unfolding run_append_iff by blast
  qed
  have there: "view ext (tables w2) i \<noteq> None" if "later_world K w w1" "later_world K w1 w2" for w1 w2
    using later_trans [OF that] assms(2) by (simp add: later_def undisturbed_def kept_def)
  show ?thesis
    unfolding add_version_def
    by (rule safe_now_v7 [OF assms(1)], rule safe_utc_now, erule later_sound, rule safe_try [OF _ commit])
      (auto intro: safe_done later_sound dest!: there)
qed

lemma safe_transition:
  assumes "service_ok ext tables blobs w" "hash_wf h" "i \<notin> K"
  shows "safe K (transition_to_fixed ext i h) (\<lambda>_ _. True) w"
proof -
  have change: "safe K (transition_versions ext i h k vs) (\<lambda>_ _. True) w1"
    if w1: "service_ok ext tables blobs w1" "held (tables w1) i vs" for k vs w1
  proof (cases "vs = []")
    case True
    then show ?thesis by (simp add: transition_versions_def rewrite_trailing_def Let_def safe_rules(4))
  next
    case False
    note last = rewrite_trailing_facts [OF False]
    have "safe K (query_checked (Transaction [UpdateRecordFixed (uuid_to_string ext i) (hash_to_string h) now,
           UpdateVersionBody (uuid_to_string ext (version_uuid (ver_id (last vs)))) b])) (\<lambda>_ _. True) w2"
      if w2: "later_world K w1 w2" for now b w2
    proof (rule safe_query_checked [OF later_sound [OF w2] atomic_stmts.simps(1)], goal_cases)
      case (1 w3 t')
      then have "held (tables w3) i vs" using held_later that(1) w1(2) by blast
      then obtain s where s: "view ext (tables w3) i = Some s" "ver_id (last vs) \<in># image_mset ver_id (st_versions s)"
        using False by (auto simp: held_def)
      then have id: "VersionId (version_uuid (ver_id (last vs))) \<in># image_mset ver_id (st_versions s)" by simp
      from 1(2) show ?case
        unfolding run_transition_iff(1)
        using fixed_sound [OF later_tables_ok [OF 1(1)] s(1) id hash_to_string_hex64 [OF assms(2)] assms(3)] by simp
    qed
    then show ?thesis
      using last(2,3)
      by (auto simp: transition_versions_def Let_def simp del: rg_Ret_simps
          intro!: safe_utc_now [OF w1(1)] safe_done safe_try [where P = "\<lambda>_ _. True"] dest: later_sound)
  qed
  show ?thesis
    unfolding transition_to_fixed_def
  proof (rule safe_try [OF assms(1) safe_assemble [OF assms(1)]], goal_cases)
    case (1 found w1)
    show ?case
    proof (cases found)
      case None
      then show ?thesis by (simp add: safe_rules(4))
    next
      case (Some rwa)
      then show ?thesis
        using 1 change by (cases "rwa_record rwa") (auto intro: safe_rules(4))
    qed
  qed
qed

lemma safe_s3_get:
  assumes "service_ok ext tables blobs w"
  shows "safe K (s3_get ext key) (\<lambda>b w1. blobs w1 (object_path ext key) = Some b) w"
  unfolding s3_get_def
proof (rule safe_rules(3), rule safe_obj_get [OF assms], goal_cases)
  case (1 r w1)
  then show ?case
    by (cases r) (auto intro!: safe_rules(4) safe_value later_sound [OF 1(1)] simp: later_def map_le_def dom_def)
qed

lemma safe_s3_put:
  assumes "service_ok ext tables blobs w" "p \<in> {''/assets/'', ''/fixed/''}"
  shows "safe K (s3_put_if_absent ext (p @ lower_hex ext (sha256 ext b)) b) (\<lambda>_ _. True) w"
  unfolding s3_put_if_absent_def
  by (rule safe_obj_put_create [OF assms(1)]) (use content_ok_put [OF _ assms(2)] safe_done in blast)+

lemma safe_of_outcome: "(\<And>x. r = Done x \<Longrightarrow> safe K (Ret x) P w) \<Longrightarrow> safe K (of_outcome r) P w"
  by (cases r) (simp_all add: safe_Panic)

lemma safe_find_or_404:
  assumes "service_ok ext tables blobs w"
  shows "safe K (find_or_404 ext i) (\<lambda>rwa w1. held (tables w1) i (any_versions (rwa_record rwa))) w"
  unfolding find_or_404_def find_record_def
proof (rule safe_try [OF assms safe_api_call [OF safe_assemble [OF assms]]], goal_cases)
  case (1 found w1)
  then show ?case
    using held_later by (cases found) (auto intro!: safe_rules(4) safe_value simp: ok_or_def)
qed

lemma safe_json_row: "safe K (json_row rwa) (\<lambda>_ _. True) w"
  unfolding json_row_def
  by (rule frame.rg_bind [OF serves_frame])
    (cases "record_with_attribution_to_row rwa"; auto intro: safe_done frame.rg_Panic [OF serves_frame] frame.rg_Ret [OF serves_frame])

lemma held_there: "held t i vs \<Longrightarrow> view ext t i \<noteq> None"
  by (auto simp: held_def)

lemma safe_reread:
  assumes "service_ok ext tables blobs w"
  shows "safe K (prog_try (find_or_404 ext i) (\<lambda>rwa. json_row rwa)) (\<lambda>_ _. True) w"
  by (rule safe_try [OF assms safe_find_or_404 [OF assms]]) (rule safe_json_row)

lemma safe_put_one:
  assumes "service_ok ext tables blobs w" "i \<notin> K"
  shows "safe K (put_one ext i req) (\<lambda>_ _. True) w"
  unfolding put_one_def
proof (rule safe_try [OF assms(1) safe_find_or_404 [OF assms(1)]], goal_cases)
  case (1 rwa w1)
  show ?case
    by (intro safe_rules(2) safe_try [OF 1(3) safe_api_call [OF safe_add_version [OF 1(3) held_there [OF 1(1)] assms(2)]]] safe_reread)
qed

lemma well_formed_new: "well_formed literal_mutable (record_new i v k b)"
  by (simp add: well_formed_def record_new_def literal_mutable_def)

lemma safe_post_one:
  assumes "service_ok ext tables blobs w"
  shows "safe K (records_post_one ext claims req) (\<lambda>_ _. True) w"
proof -
  have create: "safe K (prog_try (api_call (save ext literal_mutable (record_new i vid k b) creator))
      (\<lambda>_. UtcNow (\<lambda>now. Ret (Inr (row now))))) (\<lambda>_ _. True) w1"
    if "service_ok ext tables blobs w1" for i vid k b creator row w1
    by (rule safe_try [OF that safe_api_call [OF safe_save [OF that well_formed_new]]])
      (rule safe_utc_now, assumption, rule safe_done)
  show ?thesis
    unfolding records_post_one_def Let_def
    by (intro safe_rules(2), rule safe_now_v7 [OF assms], rule safe_now_v7, erule later_sound, rule create,
        erule later_sound)
qed

text \<open>A blob that was read stays as it is, so the bytes that are copied are those whose digest was checked.\<close>

definition verified_blob :: "'w \<Rightarrow> body \<Rightarrow> sha256_hash \<Rightarrow> bool" where
  "verified_blob w b h \<longleftrightarrow> (\<forall>key sz. b = BlobRef key sz \<longrightarrow>
     (\<exists>bytes. blobs w (object_path ext key) = Some bytes \<and> sha256_of ext bytes = h))"

lemma blob_later: "blobs w p = Some b \<Longrightarrow> later_world K w w1 \<Longrightarrow> blobs w1 p = Some b"
  by (auto simp: later_def map_le_def dom_def)

lemma safe_computed_hash:
  assumes "service_ok ext tables blobs w"
  shows "safe K (computed_hash ext st b) (\<lambda>c w1. verified_blob w1 b c) w"
proof (cases b)
  case (Inline bytes)
  then show ?thesis by (simp add: computed_hash_def safe_value [OF assms] verified_blob_def)
next
  case (BlobRef key sz)
  show ?thesis
    unfolding computed_hash_def BlobRef body.case
  proof (rule safe_rules(2), rule safe_try [OF assms safe_rules(3) [OF safe_s3_get [OF assms]]], goal_cases)
    case (1 s bytes w1)
    then show ?case by (intro safe_value [OF 1(4)]) (simp add: verified_blob_def blob_later [OF 1(2)])
  qed
qed

lemma safe_copy_to_fixed:
  assumes "service_ok ext tables blobs w" "verified_blob w b h"
  shows "safe K (copy_to_fixed ext st b h) (\<lambda>_ _. True) w"
proof (cases "\<exists>key sz s. b = BlobRef key sz \<and> as_storage st = Some s")
  case True
  then obtain key sz s where b: "b = BlobRef key sz" "as_storage st = Some s" by blast
  show ?thesis
    unfolding copy_to_fixed_def b prod.case body.case option.case
  proof (rule safe_try [OF assms(1) safe_rules(3) [OF safe_s3_get [OF assms(1)]]], goal_cases)
    case (1 bytes w1)
    have "sha256_of ext bytes = h"
      using assms(2) 1(1) blob_later [OF _ 1(2)] b by (fastforce simp: verified_blob_def)
    then have h: "hash_to_string h = lower_hex ext (sha256 ext bytes)" by (auto simp: lower_hex_text sha256_of_def)
    have "safe K (s3_put_if_absent ext (''/fixed/'' @ hash_to_string h) bytes) (\<lambda>_ _. True) w1"
      unfolding h by (rule safe_s3_put [OF 1(3)]) simp
    then show ?case by (intro safe_try [OF 1(3) safe_rules(3)]) (simp_all add: safe_done)
  qed
next
  case False
  then show ?thesis by (auto simp: copy_to_fixed_def safe_done split: body.splits option.splits)
qed

lemma safe_fix_one:
  assumes "service_ok ext tables blobs w" "i \<notin> K"
  shows "safe K (fix_one ext st i req) (\<lambda>_ _. True) w"
proof (cases "api_parse_sha256_hex ext (fr_content_hash req)")
  case (Panicked m)
  then show ?thesis by (simp add: fix_one_def prog_try_def safe_Panic)
next
  case (Done r)
  show ?thesis
  proof (cases r)
    case (Inl e)
    then show ?thesis by (simp add: fix_one_def Done safe_rules(4))
  next
    case (Inr h)
    have h: "hash_wf h" using Done Inr api_parse_length by blast
    show ?thesis
      unfolding fix_one_def Done Inr of_outcome.simps prog_try_simps
    proof (rule safe_try [OF assms(1) safe_find_or_404 [OF assms(1)]], rule safe_rules(2),
        rule safe_try [OF _ safe_computed_hash], goal_cases)
      case (3 rwa w1 b c w2)
      show ?case
      proof (cases "c = h")
        case True
        have "safe K (prog_try (copy_to_fixed ext st b h) (\<lambda>_. prog_try (api_call (transition_to_fixed ext i h))
            (\<lambda>_. prog_try (find_or_404 ext i) (\<lambda>rwa'. json_row rwa')))) (\<lambda>_ _. True) w2"
          using 3 True h assms(2)
          by (intro safe_try [OF _ safe_copy_to_fixed] safe_try [OF _ safe_api_call [OF safe_transition]] safe_reread) auto
        then show ?thesis using True by simp
      next
        case False
        then show ?thesis by (simp add: safe_rules(4))
      qed
    qed
  qed
qed

lemma safe_upload:
  assumes "service_ok ext tables blobs w"
  shows "safe K (assets_post_one ext st b) (\<lambda>_ _. True) w"
proof -
  have "safe K (s3_put_if_absent ext key b) (\<lambda>_ _. True) w"
    if "validate_asset_body ext b ASSET_BODY_LIMIT = Inr (key, hex)" for key hex
    using that safe_s3_put [OF assms, where p = "''/assets/''" and b = b]
    by (auto simp: validate_asset_body_def Let_def split: if_splits)
  then show ?thesis
    unfolding assets_post_one_def
    by (auto intro!: safe_rules(2) safe_try [OF assms safe_rules(3)] safe_done)
qed

lemma safe_handler:
  assumes "service_ok ext tables blobs w" "writes ep \<inter> K = {}"
  shows "safe K (handler ext st ep req) (\<lambda>_ _. True) w"
  using assms safe_reread safe_put_one safe_post_one safe_fix_one safe_upload
  by (cases ep) (auto simp: writes_def handler_def health_handler_def get_one_def intro: safe_done)

lemma safe_router:
  assumes "service_ok ext tables blobs w" "writes ep \<inter> K = {}"
  shows "safe K (build_router ext st ep req) (\<lambda>_ _. True) w"
proof (cases "as_auth st = None \<or> ep = GetHealth")
  case True
  show ?thesis unfolding router_open [OF True] by (rule safe_handler [OF assms])
next
  case False
  then obtain v where st: "as_auth st = Some v" and ep: "ep \<noteq> GetHealth" by auto
  show ?thesis
  proof (cases "bearer_claims ext v req")
    case None
    then show ?thesis by (simp add: router_enforced [OF st ep] safe_rules(4))
  next
    case (Some c)
    show ?thesis
      unfolding router_enforced [OF st ep] Some option.case
    proof (rule safe_try [OF assms(1) safe_rules(3) [OF safe_upsert [OF assms(1)]]], goal_cases)
      case (1 u w1)
      then show ?case using safe_handler [OF 1(3) assms(2)] by (simp add: safe_rules(4))
    qed
  qed
qed

lemma interleaved_law:
  assumes "service_ok ext tables blobs w" "(pool_step_for ext ops (\<lambda>ep. writes ep \<inter> K = {}))\<^sup>*\<^sup>* ([], w) (ps, w')"
  shows "later_world K w w'"
proof -
  have "serves ext tables blobs K (snd ([] :: response prog list, w)) (snd (ps, w')) \<and> pool_safe ops (serves ext tables blobs K) (ps, w')"
  proof (rule frame.pool_safe_steps [OF serves_frame assms(2)], goal_cases)
    case 1
    show ?case by (simp add: pool_safe_def)
  next
    case (2 w1 st ep req)
    then have "service_ok ext tables blobs w1" using assms(1) serves_later later_sound by fastforce
    from safe_router [OF this 2(2)] show ?case by (rule frame.rg_weaken [OF serves_frame])
  qed
  then show ?thesis using assms(1) by (simp add: serves_later)
qed

end

interpretation mem_serves: frame "serves mem_api_crates mw_tables mem_blobs K"
  by (rule serves_frame)

end
