(* ===== verification/Interleaving_Spec.thy ===== *)
theory Interleaving_Spec
  imports Concurrency
begin

text \<open>
  The properties of requests in flight together: the invariant and what persists under every
  interleaving, the race between a put and a freeze, and the sequential histories as interleavings.
\<close>

section \<open>Schedules\<close>

lemma run_try:
  "run ops p w = (Done (Inr x), w') \<Longrightarrow> run ops (prog_try p k) w = run ops (k x) w'"
  by (simp add: prog_try_def run_bind)

lemma run_api_call: "run ops p w = (Done (Inr x), w') \<Longrightarrow> run ops (api_call p) w = (Done (Inr x), w')"
  by (simp add: api_call_def prog_map_err_def run_bind)

text \<open>A schedule that runs the first half of a put, a whole freeze, and the second half of the put.\<close>

lemma calls_in_pool_for:
  assumes "run_calls ops n (p, w) = (p', w')" "i < length ps" "ps ! i = prog_bind p f"
  shows "(pool_step_for ext ops A)\<^sup>*\<^sup>* (ps, w) (ps[i := prog_bind p' f], w')"
  using assms
proof (induction n arbitrary: p w ps)
  case 0
  then show ?case by (metis Pair_inject list_update_id rtranclp.rtrancl_refl run_calls.simps(1))
next
  case (Suc n)
  show ?case
  proof (cases "step_prog ops p w")
    case None
    then show ?thesis using Suc.prems by (metis Pair_inject list_update_id option.case(1) rtranclp.rtrancl_refl run_calls.simps(2))
  next
    case (Some c)
    obtain p1 w1 where c: "c = (p1, w1)" by (cases c)
    have "\<nexists>x. p = Ret x" using Some by auto
    then have "step_prog ops (ps ! i) w = Some (prog_bind p1 f, w1)"
      using Suc.prems(3) Some c by (simp add: step_bind)
    then have "pool_step_for ext ops A (ps, w) (ps[i := prog_bind p1 f], w1)"
      using Suc.prems(2) by (intro pool_step_for.call)
    moreover have "(pool_step_for ext ops A)\<^sup>*\<^sup>* (ps[i := prog_bind p1 f], w1) (ps[i := prog_bind p1 f, i := prog_bind p' f], w')"
      by (rule Suc.IH) (use Suc.prems Some c in auto)
    ultimately show ?thesis by (simp add: converse_rtranclp_into_rtranclp)
  qed
qed

lemmas calls_in_pool = calls_in_pool_for [where A = "\<lambda>_. True", folded pool_step_for_all]

lemma run_in_pool:
  assumes "run ops p w = (Done x, w')" "i < length ps" "ps ! i = prog_bind p f"
  shows "(pool_step ext ops)\<^sup>*\<^sup>* (ps, w) (ps[i := f x], w')"
proof -
  obtain n where "run_calls ops n (p, w) = (Ret x, w')"
    using run_is_calls [of ops p w] assms(1) by (auto simp: halted_def)
  from calls_in_pool [OF this assms(2,3)] show ?thesis by simp
qed

lemma bind_Ret [simp]: "prog_bind p Ret = p"
  by (induction p) (simp_all)

lemma halt_in_pool_for:
  assumes "run ops p w = (out, w')" "i < length ps" "ps ! i = p"
  shows "(pool_step_for ext ops A)\<^sup>*\<^sup>* (ps, w) (ps[i := halted out], w')"
proof -
  obtain n where "run_calls ops n (p, w) = (halted out, w')"
    using run_is_calls [of ops p w] assms(1) by auto
  from calls_in_pool_for [OF this assms(2), of Ret] assms(3) show ?thesis by simp
qed

lemmas halt_in_pool = halt_in_pool_for [where A = "\<lambda>_. True", folded pool_step_for_all]

context api_services
begin

lemma find_keeps:
  assumes "service_ok ext tables blobs w" "run ops (find_or_404 ext i) w = (Done r, w1)"
  shows "service_ok ext tables blobs w1"
proof -
  have "repo_ok ext (tables w)" using assms(1) by (simp add: service_ok_def)
  from wp_run [OF find_chain_law [OF this] assms(2)] assms(1) show ?thesis by (simp add: service_ok_def)
qed

lemma race_law:
  assumes ok: "service_ok ext tables blobs w"
    and check: "run ops (find_or_404 ext i) w = (Done (Inr rwa), w1)" "rwa_record rwa = AnyMutable r"
    and body: "into_core_body ext (ur_body (u :: update_record_request)) = Inr core"
    and freeze: "run ops (build_router ext st (PostFix i f) req) w1 = (Done reply, w2)" "view ext (tables w2) i = Some s"
    and add: "run ops (add_version ext i core) w2 = (Done (Inr v), w3)"
  shows "\<exists>ps. (pool_step ext ops)\<^sup>*\<^sup>* ([], w) (ps, w3)"
    and "view ext (tables w3) i = Some (s\<lparr>st_versions := add_mset v (st_versions s)\<rparr>)"
proof -
  let ?put = "build_router ext app_state_new (PutRecord i u) req"
  let ?fix = "build_router ext st (PostFix i f) req"
  let ?after = "\<lambda>res. case res of Inl e \<Rightarrow> Ret (Inl e)
     | Inr _ \<Rightarrow> prog_try (find_or_404 ext i) (\<lambda>rwa'. json_row rwa')"
  let ?k = "\<lambda>rwa. ret_try (case rwa_record rwa of
         AnyMutable _ \<Rightarrow> Inr ()
       | AnySnapshot _ \<Rightarrow> Inl (StateConflict ''mutable'' ''snapshot'')
       | AnyFixed _ \<Rightarrow> Inl (StateConflict ''mutable'' ''fixed'')) (\<lambda>_.
     ret_try (into_core_body ext (ur_body u)) (\<lambda>core_body.
     prog_try (api_call (add_version ext i core_body)) (\<lambda>_.
     prog_try (find_or_404 ext i) (\<lambda>rwa'. json_row rwa'))))"
  have "?put = prog_try (find_or_404 ext i) ?k"
    by (simp add: router_open app_state_new_def handler_def put_one_def)
  then have put: "?put = prog_bind (find_or_404 ext i) (\<lambda>found. case found of Inl e \<Rightarrow> Ret (Inl e) | Inr rwa \<Rightarrow> ?k rwa)"
    (is "_ = prog_bind _ ?K") by (simp only: prog_try_def [of _ ?k])
  have checked: "?K (Inr rwa) = prog_try (api_call (add_version ext i core)) (\<lambda>_. prog_try (find_or_404 ext i) (\<lambda>rwa'. json_row rwa'))"
    by (simp add: check(2) body)
  have rest: "prog_try (api_call (add_version ext i core)) (\<lambda>_. prog_try (find_or_404 ext i) (\<lambda>rwa'. json_row rwa')) =
      prog_bind (api_call (add_version ext i core)) ?after"
    by (simp only: prog_try_def [of _ "\<lambda>_. prog_try (find_or_404 ext i) (\<lambda>rwa'. json_row rwa')"])
  have arrive: "(pool_step ext ops)\<^sup>*\<^sup>* ([], w) ([?put, ?fix], w)"
    using pool_step.arrive [of ext ops "[]" w app_state_new "PutRecord i u" req]
      pool_step.arrive [of ext ops "[?put]" w st "PostFix i f" req]
    by (simp add: converse_rtranclp_into_rtranclp)
  have half: "(pool_step ext ops)\<^sup>*\<^sup>* ([?put, ?fix], w)
      ([prog_try (api_call (add_version ext i core)) (\<lambda>_. prog_try (find_or_404 ext i) (\<lambda>rwa'. json_row rwa')), ?fix], w1)"
    using run_in_pool [OF check(1), of 0 "[?put, ?fix]" ?K ext, unfolded checked] put by simp
  have whole: "(pool_step ext ops)\<^sup>*\<^sup>* ([p, ?fix], w1) ([p, Ret reply], w2)" for p
    using run_in_pool [OF freeze(1), of 1 "[p, ?fix]" Ret] by simp
  have last: "(pool_step ext ops)\<^sup>*\<^sup>* ([prog_bind (api_call (add_version ext i core)) ?after, q], w2) ([?after (Inr v), q], w3)" for q
    using run_in_pool [OF run_api_call [OF add], of 0 "[prog_bind (api_call (add_version ext i core)) ?after, q]" ?after] by simp
  show "\<exists>ps. (pool_step ext ops)\<^sup>*\<^sup>* ([], w) (ps, w3)"
    using arrive half [unfolded rest] whole last by (blast intro: rtranclp_trans)
  have "service_ok ext tables blobs w2"
    using router_ok [OF find_keeps [OF ok check(1)] freeze(1)] by blast
  then have ok2: "repo_ok ext (tables w2)" by (simp add: service_ok_def)
  from wp_run [OF add_version_law [OF ok2 freeze(2)] add]
  show "view ext (tables w3) i = Some (s\<lparr>st_versions := add_mset v (st_versions s)\<rparr>)"
    by (auto simp: add_version_contract_def commits_def)
qed

end

section \<open>Properties\<close>

text \<open>C3: with any number of requests in flight, whatever their routes, tokens and bodies, their calls
  interleaved in any order and any of them failing, the invariant of the service holds at every
  moment, and nothing stored is lost: records keep their kind, attribution and version ids, a state
  only moves to fixed, and a blob once written stays as it is.\<close>

theorem interleaved_requests_keep_invariant:
  assumes "api_services ext ops tables blobs" and "service_ok ext tables blobs w"
    and "(pool_step ext ops)\<^sup>*\<^sup>* ([], w) (ps, w')"
  shows "service_ok ext tables blobs w' \<and> kept persists (view ext (tables w)) (view ext (tables w')) \<and> blobs w \<subseteq>\<^sub>m blobs w'"
  using api_services.interleaved_law [OF assms(1,2), of "{}"] assms(3)
  by (simp add: pool_step_for_all later_def undisturbed_def tables_ok_def service_ok_def)

text \<open>C11: that a fixed record stays as it is does not survive interleaving: a put that has checked the
  state appends its version also when the record is frozen before it does, so the trailing version of
  a fixed record need not be the one its hash was verified against.\<close>

theorem put_lands_on_fixed_record:
  assumes "api_services ext ops tables blobs" and "service_ok ext tables blobs w"
    and "run ops (find_or_404 ext i) w = (Done (Inr rwa), w1)" "rwa_record rwa = AnyMutable r"
    and "into_core_body ext (ur_body (u :: update_record_request)) = Inr core"
    and "run ops (build_router ext st (PostFix i f) req) w1 = (Done reply, w2)"
    and "view ext (tables w2) i = Some s" "st_state s = PFixed"
    and "run ops (add_version ext i core) w2 = (Done (Inr v), w3)"
  shows "(\<exists>ps. (pool_step ext ops)\<^sup>*\<^sup>* ([], w) (ps, w3)) \<and>
     view ext (tables w3) i = Some (s\<lparr>st_versions := add_mset v (st_versions s)\<rparr>) \<and>
     \<not> kept develops (view ext (tables w2)) (view ext (tables w3))"
proof -
  note race = api_services.race_law [OF assms(1-7,9)]
  have "s\<lparr>st_versions := add_mset v (st_versions s)\<rparr> \<noteq> s" by (cases s) simp
  then have "\<not> kept develops (view ext (tables w2)) (view ext (tables w3))"
    using race(2) assms(7,8) unfolding kept_def develops_def by (metis option.distinct(1) option.sel)
  with race show ?thesis by blast
qed

text \<open>Every sequential history of requests is one of the interleavings: any world that requests
  served one after the other lead to is reached in the pool, from the same fresh start and by the same
  calls, also where a handler panics.\<close>

lemma histories_are_interleavings:
  assumes "served ext ops tables blobs w"
  shows "\<exists>w0 ps. fresh_service tables blobs w0 \<and> (pool_step ext ops)\<^sup>*\<^sup>* ([], w0) (ps, w)"
  using assms
proof (induction rule: served.induct)
  case (fresh w)
  then show ?case by blast
next
  case (request w st ep req out w')
  then obtain w0 ps where w0: "fresh_service tables blobs w0" and steps: "(pool_step ext ops)\<^sup>*\<^sup>* ([], w0) (ps, w)"
    by blast
  note steps
  also have "pool_step ext ops (ps, w) (ps @ [build_router ext st ep req], w)" by (rule pool_step.arrive)
  also have "(pool_step ext ops)\<^sup>*\<^sup>* (ps @ [build_router ext st ep req], w) (ps @ [halted out], w')"
    using halt_in_pool [OF request.hyps(2), of "length ps" "ps @ [build_router ext st ep req]"] by simp
  finally show ?case using w0 by blast
qed

section \<open>Witnesses\<close>

lemma record_world_tables: "mw_tables record_world =
   \<lparr>t_schema = [unique_sub_index],
    t_record = [(uuid_to_string mem_crates 1, \<lparr>rr_state = ''mutable'', rr_kind = ''log'', rr_content_hash = None, rr_created_at = 5, rr_updated_at = 5\<rparr>)],
    t_version = [(uuid_to_string mem_crates 2, \<lparr>vw_record_id = 1, vw_body = PInline [7], vw_created_at = 5\<rparr>)],
    t_created_by = [\<lparr>cb_in = (''creo_user'', ''ana''), cb_out = uuid_to_string mem_crates 1, cb_at = 5\<rparr>],
    t_snapshot_of = [], t_or_user = []\<rparr>"
  by (simp add: record_world_def sample_tables_def written_def Let_def sample_record_def record_new_def
      record_to_persisted_row_def version_to_persisted_def version_row_from_persisted_def body_to_persisted_def empty_tables_def
      record_row_from_persisted_def kind_to_string_def as_literal_def literal_mutable_def)

lemma record_world_faults: "mw_faults record_world = []" "mw_next record_world = 3" "mw_clock record_world = 6"
  by (simp_all add: record_world_def sample_world_def empty_world_def)

lemma call0: "mw_faults w = [] \<Longrightarrow> mem_call f e g w = g w"
  by (simp add: mem_call_def)

lemma strip_ana: "strip_thing_backticks (thing_to_string mem_crates (''creo_user'', ''ana'')) = ''creo_user:ana''"
  by (subst mem_text.strip_thing) simp_all

lemmas find_defs = find_or_404_def find_record_def assemble_def api_call_def surreal_read_def prog_map_err_def prog_try_def
  fetch_versions_def fetch_attribution_def

lemma find_in_record_world: "run (mem_ops False) (find_or_404 mem_api_crates 1) record_world =
   (Done (Inr \<lparr>rwa_record = AnyMutable sample_record, rwa_attribution = \<lparr>pa_creator = ''creo_user:ana'', pa_at = 5\<rparr>\<rparr>), record_world)"
  unfolding find_defs
  by (simp add: run_bind mem_ops_simps call0 record_world_faults record_world_tables record_row_into_persisted_def from_literal_def
      versions_of_def read_version_def edges_to_def version_row_into_persisted_def strip_ana kind_from_string_def
      mem_text.uuid_parse_to_string persisted_row_to_any_def try_from_defs Let_def sample_record_def record_new_def version_from_persisted_def body_from_persisted_def)

definition seven :: sha256_hash where
  "seven = sha256_of mem_api_crates [7]"

definition fixed_world :: mem_world where
  "fixed_world = record_world\<lparr>mw_tables := fixed_tables (uuid_to_string mem_crates 1) (hash_to_string seven) 6
     (uuid_to_string mem_crates 2) (PInline [7]) (mw_tables record_world), mw_clock := 7\<rparr>"

lemma fixed_world_tables: "mw_tables fixed_world =
   \<lparr>t_schema = [unique_sub_index],
    t_record = [(uuid_to_string mem_crates 1, \<lparr>rr_state = ''fixed'', rr_kind = ''log'', rr_content_hash = Some (hash_to_string seven), rr_created_at = 5, rr_updated_at = 6\<rparr>)],
    t_version = [(uuid_to_string mem_crates 2, \<lparr>vw_record_id = 1, vw_body = PInline [7], vw_created_at = 5\<rparr>)],
    t_created_by = [\<lparr>cb_in = (''creo_user'', ''ana''), cb_out = uuid_to_string mem_crates 1, cb_at = 5\<rparr>],
    t_snapshot_of = [], t_or_user = []\<rparr>"
  by (simp add: fixed_world_def fixed_tables_def record_world_tables map_entry_Cons)

lemma fixed_world_faults: "mw_faults fixed_world = []" "mw_next fixed_world = 3" "mw_clock fixed_world = 7"
  by (simp_all add: fixed_world_def record_world_faults)

lemma seven_wf: "hash_wf seven"
  by (simp add: seven_def sha256_of_def hash_wf_def)

lemma seven_parsed: "api_parse_sha256_hex mem_api_crates (hash_to_string seven) = Done (Inr seven)"
  using seven_wf by (simp add: api_parse_hash)

text \<open>The whole service on the two worlds, evaluated with the keys left symbolic.\<close>

lemmas eval_defs = run_bind mem_ops_simps call0 record_row_into_persisted_def from_literal_def
  versions_of_def read_version_def edges_to_def version_row_into_persisted_def strip_ana kind_from_string_def
  mem_text.uuid_parse_to_string persisted_row_to_any_def try_from_defs Let_def version_from_persisted_def body_from_persisted_def

lemma freeze_in_record_world: "run (mem_ops False) (transition_versions mem_api_crates 1 seven Log
     [\<lparr>ver_id = VersionId 2, ver_body = Inline [7]\<rparr>]) record_world =
  (Done (Inr (mutable_fix sample_record seven)), fixed_world)"
proof -
  have "fixed_from_parts 1 Log seven [\<lparr>ver_id = VersionId 2, ver_body = Inline [7]\<rparr>] = mutable_fix sample_record seven"
    by (simp add: fixed_from_parts_def mutable_fix_def fossilize_def sample_record_def record_new_def)
  then show ?thesis
    unfolding transition_versions_def prog_try_def query_checked_def
    by (simp add: eval_defs rewrite_trailing_def record_world_faults mem_query_def run_transition body_to_persisted_def
        fixed_world_def del: run_stmts.simps)
qed

lemma transition_in_record_world: "run (mem_ops False) (transition_to_fixed mem_api_crates 1 seven) record_world =
  (Done (Inr (mutable_fix sample_record seven)), fixed_world)"
  unfolding transition_to_fixed_def find_defs
  by (simp add: eval_defs record_world_faults record_world_tables freeze_in_record_world)

lemma parse_seven: "Convert.parse_sha256_hex (hash_to_string seven) = Inr (hash_bytes seven)"
  by (rule parse_sha256_hex_hash [OF seven_wf])

lemma find_in_fixed_world: "run (mem_ops False) (find_or_404 mem_api_crates 1) fixed_world =
   (Done (Inr \<lparr>rwa_record = AnyFixed (mutable_fix sample_record seven),
      rwa_attribution = \<lparr>pa_creator = ''creo_user:ana'', pa_at = 5\<rparr>\<rparr>), fixed_world)"
  unfolding find_defs
  by (simp add: eval_defs fixed_world_faults fixed_world_tables parse_seven mutable_fix_def fossilize_def
      sample_record_def record_new_def ok_or_def)

lemma freeze_served: "run (mem_ops False) (build_router mem_api_crates app_state_new
     (PostFix 1 \<lparr>fr_content_hash = hash_to_string seven\<rparr>) sample_upload) record_world =
   (Done (Inr (RowResponse 200 None (build_row (mutable_fix sample_record seven) PFixed (Some (hash_to_string seven))
      \<lparr>pa_creator = ''creo_user:ana'', pa_at = 5\<rparr>))), fixed_world)"
proof -
  have row: "run (mem_ops False) (prog_try (find_or_404 mem_api_crates 1) (\<lambda>rwa'. json_row rwa')) fixed_world =
     (Done (Inr (RowResponse 200 None (build_row (mutable_fix sample_record seven) PFixed (Some (hash_to_string seven))
      \<lparr>pa_creator = ''creo_user:ana'', pa_at = 5\<rparr>))), fixed_world)"
    by (simp add: run_try [OF find_in_fixed_world] json_row_def record_with_attribution_to_row_def mutable_fix_def)
  have body: "trailing_body (rec_versions sample_record) = Inr (Inline [7])"
    by (simp add: trailing_body_def sample_record_def record_new_def)
  have open_state: "as_auth app_state_new = None \<or> (PostFix 1 \<lparr>fr_content_hash = hash_to_string seven\<rparr>) = GetHealth"
    by (simp add: app_state_new_def)
  show ?thesis
    unfolding router_open [OF open_state]
    by (simp add: handler_def fix_one_def seven_parsed run_try [OF find_in_record_world] body computed_hash_def
        seven_def [symmetric] copy_to_fixed_def run_try [OF run_api_call [OF transition_in_record_world]] row)
qed

lemma version_added: "\<exists>v w3. run (mem_ops False) (add_version mem_api_crates 1 (Inline [65])) fixed_world = (Done (Inr v), w3)"
  unfolding add_version_def prog_try_def query_checked_def
  by (simp add: eval_defs fixed_world_faults mem_query_def run_append fixed_world_tables mem_text.uuid_to_string_inj
      del: run_stmts.simps)


definition fixed_sample :: stored where
  "fixed_sample = \<lparr>st_state = PFixed, st_kind = Log, st_hash = Some (hash_to_string seven),
     st_versions = {#\<lparr>ver_id = VersionId 2, ver_body = Inline [7]\<rparr>#},
     st_attribution = \<lparr>pa_creator = ''creo_user:ana'', pa_at = 5\<rparr>\<rparr>"

lemma fixed_sample_view: "view mem_api_crates (mw_tables fixed_world) 1 = Some fixed_sample"
  by (simp add: view_def fixed_world_tables fixed_sample_def edges_to_def versions_of_def stored_version_def
      from_literal_def kind_from_string_def body_from_persisted_def attribution_of_def strip_ana mem_text.uuid_parse_to_string)

lemma freeze_interleaved: "\<exists>ps. (pool_step mem_api_crates (mem_ops False))\<^sup>*\<^sup>* ([], record_world) (ps, fixed_world)"
proof -
  let ?fix = "build_router mem_api_crates app_state_new (PostFix 1 \<lparr>fr_content_hash = hash_to_string seven\<rparr>) sample_upload"
  have "pool_step mem_api_crates (mem_ops False) ([], record_world) ([?fix], record_world)"
    using pool_step.arrive [of mem_api_crates "mem_ops False" "[]"] by simp
  then show ?thesis
    using halt_in_pool [OF freeze_served, of 0 "[?fix]"] by (fastforce intro: converse_rtranclp_into_rtranclp)
qed

lemma interleaved_requests_keep_invariant_witness:
  "service_ok mem_api_crates mw_tables mem_blobs fixed_world \<and>
   kept persists (view mem_api_crates (mw_tables record_world)) (view mem_api_crates (mw_tables fixed_world)) \<and>
   mem_blobs record_world \<subseteq>\<^sub>m mem_blobs fixed_world"
proof -
  obtain ps where "(pool_step mem_api_crates (mem_ops False))\<^sup>*\<^sup>* ([], record_world) (ps, fixed_world)"
    using freeze_interleaved by blast
  from interleaved_requests_keep_invariant [OF mem_services.api_services_axioms record_world_ok this] show ?thesis .
qed

lemma put_lands_on_fixed_record_witness:
  "\<exists>v w3. (\<exists>ps. (pool_step mem_api_crates (mem_ops False))\<^sup>*\<^sup>* ([], record_world) (ps, w3)) \<and>
     view mem_api_crates (mw_tables w3) 1 =
       Some (fixed_sample\<lparr>st_versions := add_mset v (st_versions fixed_sample)\<rparr>) \<and>
     \<not> kept develops (view mem_api_crates (mw_tables fixed_world)) (view mem_api_crates (mw_tables w3))"
proof -
  obtain v w3 where add: "run (mem_ops False) (add_version mem_api_crates 1 (Inline [65])) fixed_world = (Done (Inr v), w3)"
    using version_added by blast
  have "into_core_body mem_api_crates (ur_body \<lparr>ur_body = InlineB64 ''A''\<rparr>) = Inr (Inline [65])"
    by (simp add: into_core_body_def mem_api_crates_def crates.defs byte_of_def)
  from put_lands_on_fixed_record [OF mem_services.api_services_axioms record_world_ok find_in_record_world _ this
      freeze_served fixed_sample_view _ add]
  show ?thesis by (fastforce simp: fixed_sample_def)
qed

lemma histories_are_interleavings_witness:
  "\<exists>w0 ps. fresh_service mw_tables mem_blobs w0 \<and> (pool_step mem_api_crates (mem_ops True))\<^sup>*\<^sup>* ([], w0)
     (ps, snd (run (mem_ops True) (build_router mem_api_crates app_state_new (PostAsset [1, 2]) sample_upload) users_world))"
  by (rule histories_are_interleavings [OF served.request [OF users_world_served run_collapse]])

end
