(* ===== verification/Progress.thy ===== *)
theory Progress
  imports Interleaving_Spec
begin

text \<open>
  Progress: how many calls a request makes at most, whatever the services reply, and what that says of
  schedules of requests in flight together. No law of the services is used here.
\<close>

section \<open>What a call may lead to\<close>

text \<open>The programs one call later, whatever the reply is.\<close>

primrec replies :: "'a prog \<Rightarrow> 'a prog set" where
  "replies (Ret x) = {}"
| "replies (Panic m) = {}"
| "replies (NowV7 k) = range k"
| "replies (UtcNow k) = range k"
| "replies (SurrealConnect a k) = range k"
| "replies (SurrealSignin a b k) = range k"
| "replies (SurrealUse a b k) = range k"
| "replies (Query q k) = range k"
| "replies (SelectRecord a k) = range k"
| "replies (SelectVersions a k) = range k"
| "replies (SelectCreatedBy a k) = range k"
| "replies (SelectCreatedIn a b k) = range k"
| "replies (SelectOrUser a k) = range k"
| "replies (ObjPut a b k) = range k"
| "replies (ObjGet a k) = range k"
| "replies (ObjHead a k) = range k"
| "replies (ObjDelete a k) = range k"
| "replies (ObjPutCreate a b k) = range k"
| "replies (ObjSign v a t k) = range k"
| "replies (ObjMultipart a k) = range k"
| "replies (ObjPutPart n b k) = range k"
| "replies (ObjComplete n k) = range k"
| "replies (S3Build c k) = range k"
| "replies (HttpGetText a k) = range k"

text \<open>\<open>ends n Q p\<close>: after at most \<open>n\<close> calls, whatever their replies, \<open>p\<close> has halted with an outcome in \<open>Q\<close>.\<close>

primrec ends :: "nat \<Rightarrow> ('a outcome \<Rightarrow> bool) \<Rightarrow> 'a prog \<Rightarrow> bool" where
  "ends 0 Q p \<longleftrightarrow> (\<exists>out. p = halted out \<and> Q out)"
| "ends (Suc n) Q p \<longleftrightarrow>
     (\<exists>out. p = halted out \<and> Q out) \<or> replies p \<noteq> {} \<and> (\<forall>p' \<in> replies p. ends n Q p')"

lemma halted_simps: "halted (Done x) = Ret x" "halted (Panicked m) = Panic m"
  by (simp_all add: halted_def)

lemma halted_eq [simp]:
  "Ret x = halted out \<longleftrightarrow> out = Done x" "Panic m = halted out \<longleftrightarrow> out = Panicked m"
  by (cases out; auto simp: halted_def)+

lemma halted_replies: "replies p = {} \<longleftrightarrow> (\<exists>out. p = halted out)"
  by (cases p) (auto simp: halted_def split: outcome.splits intro: exI [of _ "Done x" for x] exI [of _ "Panicked m" for m])

lemma ends_halted [simp]: "ends n Q (Ret x) \<longleftrightarrow> Q (Done x)" "ends n Q (Panic m) \<longleftrightarrow> Q (Panicked m)"
  by (cases n; simp)+

lemma ends_reply: "replies p \<noteq> {} \<Longrightarrow> ends (Suc n) Q p \<longleftrightarrow> (\<forall>p' \<in> replies p. ends n Q p')"
  using halted_replies [of p] by auto

lemma step_replies: "step_prog ops p w = Some (p', w') \<Longrightarrow> p' \<in> replies p"
  by (cases p) (auto simp: apfst_def map_prod_def split: prod.splits)

lemma step_None: "step_prog ops p w = None \<longleftrightarrow> replies p = {}"
  by (cases p) simp_all

lemma ends_mono: "ends m Q p \<Longrightarrow> m \<le> n \<Longrightarrow> (\<And>out. Q out \<Longrightarrow> Q' out) \<Longrightarrow> ends n Q' p"
proof (induction n arbitrary: m p)
  case (Suc n)
  then show ?case by (cases m) auto
qed auto

lemma replies_bind: "replies p \<noteq> {} \<Longrightarrow> replies (prog_bind p f) = (\<lambda>p'. prog_bind p' f) ` replies p"
  by (cases p) (auto simp: image_image)

lemma ends_bind:
  assumes "ends m (\<lambda>out. case out of Done x \<Rightarrow> ends n Q (f x) | Panicked e \<Rightarrow> Q (Panicked e)) p"
  shows "ends (m + n) Q (prog_bind p f)"
  using assms
proof (induction m arbitrary: p)
  case 0
  then obtain out where "p = halted out" "case out of Done x \<Rightarrow> ends n Q (f x) | Panicked e \<Rightarrow> Q (Panicked e)" by auto
  then show ?case by (cases out) (simp_all add: halted_def)
next
  case (Suc m)
  show ?case
  proof (cases "replies p = {}")
    case True
    then obtain out where "p = halted out" by (auto simp: halted_replies)
    with Suc.prems show ?thesis
    proof (cases out)
      case (Done x)
      then have "ends n Q (f x)" using Suc.prems \<open>p = halted out\<close> by (simp add: halted_simps del: ends.simps)
      then have "ends (Suc m + n) Q (f x)" by (rule ends_mono) simp_all
      then show ?thesis using Done \<open>p = halted out\<close> by (simp add: halted_simps del: ends.simps)
    qed (simp add: halted_simps del: ends.simps)
  next
    case False
    then have "\<forall>p' \<in> replies p. ends (m + n) Q (prog_bind p' f)"
      using Suc by (auto simp: ends_reply simp del: ends.simps)
    then show ?thesis using False by (simp add: ends_reply replies_bind del: ends.simps)
  qed
qed


text \<open>\<open>settles M P\<close>: a value that satisfies \<open>P\<close>, any error, or one of the panics in \<open>M\<close>.\<close>

definition settles :: "string set \<Rightarrow> ('a \<Rightarrow> bool) \<Rightarrow> ('e + 'a) outcome \<Rightarrow> bool" where
  "settles M P out \<longleftrightarrow>
     (case out of Done (Inl e) \<Rightarrow> True | Done (Inr x) \<Rightarrow> P x | Panicked m \<Rightarrow> m \<in> M)"

lemma settles_simps [simp]:
  "settles M P (Done (Inl e))" "settles M P (Done (Inr x)) = P x" "settles M P (Panicked m) \<longleftrightarrow> m \<in> M"
  by (simp_all add: settles_def)

lemma settles_True: "settles M (\<lambda>_. True) out \<longleftrightarrow> (\<forall>m. out = Panicked m \<longrightarrow> m \<in> M)"
  by (auto simp: settles_def split: outcome.splits sum.splits)

lemma ends_call: "replies p \<noteq> {} \<Longrightarrow> (\<And>p'. p' \<in> replies p \<Longrightarrow> ends n Q p') \<Longrightarrow> Suc n \<le> N \<Longrightarrow> ends N Q p"
  by (rule ends_mono [of "Suc n" Q]) (simp_all add: ends_reply del: ends.simps)

lemma ends_try:
  assumes "ends m (settles M A) p" "\<And>x. A x \<Longrightarrow> ends n (settles M P) (k x)" "m + n \<le> N"
  shows "ends N (settles M P) (prog_try p k)"
proof -
  have "ends m (\<lambda>out. case out of
      Done r \<Rightarrow> ends n (settles M P) (case r of Inl e \<Rightarrow> Ret (Inl e) | Inr x \<Rightarrow> k x)
    | Panicked e \<Rightarrow> settles M P (Panicked e)) p"
    using assms(1) by (rule ends_mono) (auto simp: settles_def assms(2) split: outcome.splits sum.splits)
  from ends_bind [OF this] show ?thesis
    unfolding prog_try_def by (rule ends_mono) (use assms(3) in simp_all)
qed

lemma ends_ret_try:
  assumes "\<And>x. r = Inr x \<Longrightarrow> ends n (settles M P) (k x)"
  shows "ends n (settles M P) (ret_try r k)"
  using assms by (cases r) simp_all

lemma ends_map_err:
  assumes "ends n (settles M P) p"
  shows "ends n (settles M P) (prog_map_err f p)"
proof -
  have "ends n (\<lambda>out. case out of Done r \<Rightarrow> ends 0 (settles M P) (Ret (map_err f r)) | Panicked e \<Rightarrow> settles M P (Panicked e)) p"
    using assms by (rule ends_mono) (auto simp: settles_def split: outcome.splits sum.splits)
  from ends_bind [OF this] show ?thesis by (simp add: prog_map_err_def del: ends.simps)
qed

lemma ends_weaken:
  assumes "ends m (settles M A) p" "\<And>x. A x \<Longrightarrow> P x" "m \<le> n"
  shows "ends n (settles M P) p"
  by (rule ends_mono [OF assms(1,3)]) (auto simp: settles_def assms(2) split: outcome.splits sum.splits)

lemma ends_one:
  assumes "replies p \<noteq> {}" "\<And>p'. p' \<in> replies p \<Longrightarrow> \<exists>r. p' = Ret r"
  shows "ends 1 (settles M (\<lambda>_. True)) p"
proof (rule ends_call [where n = 0, OF assms(1)])
  fix p' assume "p' \<in> replies p"
  then obtain r where "p' = Ret r" using assms(2) by blast
  then show "ends 0 (settles M (\<lambda>_. True)) p'" by (cases r) (simp_all del: ends.simps)
qed simp

lemma ends_value: "P x \<Longrightarrow> ends n (settles M P) (Ret (Inr x))"
  by simp

lemma ends_error: "ends n (settles M P) (Ret (Inl e))"
  by simp

section \<open>The repository\<close>

text \<open>A record that the API can show: \<open>record_with_attribution_to_row\<close> does not panic on it.\<close>

definition printable :: "any_record \<Rightarrow> bool" where
  "printable any \<longleftrightarrow> (\<forall>r. any = AnyFixed r \<longrightarrow> rec_content_hash r \<noteq> None)"

lemma any_printable:
  assumes "persisted_row_to_any row = Inr any"
  shows "printable any"
  unfolding printable_def
proof (intro allI impI)
  fix r assume r: "any = AnyFixed r"
  have v: "row_valid row" "any = row_to_any row" using assms by (simp_all add: persisted_row_to_any_Inr)
  with r have "pr_state (row_record row) = PFixed"
    using row_to_any_reads(1) [OF v(1)] by (metis any_state.simps(3))
  with v(1) have "pr_content_hash (row_record row) \<noteq> None" by (auto simp: row_valid_def split: option.splits)
  then show "rec_content_hash r \<noteq> None"
    using row_to_any_reads(4) [OF v(1)] r v(2) by (metis any_hash.simps(3) option.map_disc_iff)
qed

lemma surreal_read_ends:
  "ends 1 (settles M (\<lambda>_. True)) (surreal_read (SelectRecord k Ret))"
  "ends 1 (settles M (\<lambda>_. True)) (surreal_read (SelectVersions i Ret))"
  "ends 1 (settles M (\<lambda>_. True)) (surreal_read (SelectCreatedBy k Ret))"
  "ends 1 (settles M (\<lambda>_. True)) (surreal_read (SelectOrUser k Ret))"
  "ends 1 (settles M (\<lambda>_. True)) (surreal_read (Query q Ret))"
  unfolding surreal_read_def by (rule ends_map_err, rule ends_one; auto)+

lemma query_checked_ends: "ends 1 (settles M (\<lambda>_. True)) (query_checked q)"
  unfolding query_checked_def by (rule ends_one) auto

lemma ends_clock: "(\<And>x. ends n Q (k x)) \<Longrightarrow> Suc n \<le> N \<Longrightarrow> ends N Q (UtcNow k)"
  by (rule ends_call) auto

lemma ends_id: "(\<And>x. ends n Q (k x)) \<Longrightarrow> Suc n \<le> N \<Longrightarrow> ends N Q (NowV7 k)"
  by (rule ends_call) auto

lemma ends_ret: "ends n (settles M (\<lambda>_. True)) (Ret r)"
  by (cases r) simp_all

lemma fetch_versions_ends: "ends 1 (settles M (\<lambda>_. True)) (fetch_versions ext i)"
  unfolding fetch_versions_def by (rule ends_try [OF surreal_read_ends(2) ends_ret [of 0]]) simp

lemma fetch_attribution_ends: "ends 1 (settles M (\<lambda>_. True)) (fetch_attribution ext i)"
  unfolding fetch_attribution_def by (rule ends_try [OF surreal_read_ends(3) ends_ret [of 0]]) simp

lemma assemble_ends: "ends 3 (settles M (\<lambda>found. \<forall>rwa. found = Some rwa \<longrightarrow> printable (rwa_record rwa))) (assemble ext i)"
  (is "ends 3 ?Q _")
proof -
  have rest: "ends 2 ?Q (ret_try r (\<lambda>pr. prog_try (fetch_versions ext i) (\<lambda>vs. prog_try (fetch_attribution ext i) (\<lambda>a.
      ret_try (ok_or e a) (\<lambda>a. ret_try (persisted_row_to_any (row pr vs a)) (\<lambda>any.
      Ret (Inr (Some \<lparr>rwa_record = any, rwa_attribution = a\<rparr>))))))))" for r e row
    by (intro ends_ret_try ends_try [where n = 1, OF fetch_versions_ends] ends_try [where n = 0, OF fetch_attribution_ends] ends_value)
      (auto intro: any_printable)
  show ?thesis
    unfolding assemble_def
    by (rule ends_try [where n = 2, OF surreal_read_ends(1)]) (auto split: option.splits intro: rest ends_value)
qed

lemma find_ends: "ends 3 (settles M (\<lambda>found. \<forall>rwa. found = Some rwa \<longrightarrow> printable (rwa_record rwa))) (find_record ext i)"
  unfolding find_record_def by (rule assemble_ends)

lemma write_record_ends: "ends 1 (settles M (\<lambda>_. True)) (write_record_atomic ext row)"
  unfolding write_record_atomic_def Let_def
  by (rule ends_ret_try) (simp add: query_checked_ends split: prod.splits del: ends.simps One_nat_def)

lemma save_ends: "ends 3 (settles M (\<lambda>_. True)) (save ext lit r creator)"
proof -
  have "ends 2 (settles M (\<lambda>_. True)) (prog_try (surreal_read (SelectRecord k Ret)) (\<lambda>existing.
        if existing \<noteq> None then Ret (Inl (DbAlreadyExists i)) else write_record_atomic ext row))" for k i row
    by (rule ends_try [where n = 1, OF surreal_read_ends(1)]) (auto intro: write_record_ends ends_error simp del: One_nat_def)
  then show ?thesis
    unfolding save_def Let_def by (auto intro!: ends_clock [where n = 2] simp del: ends.simps)
qed

lemma add_version_ends: "ends 3 (settles M (\<lambda>_. True)) (add_version ext i b)"
  unfolding add_version_def
  by (rule ends_id [where n = 2], rule ends_clock [where n = 1], rule ends_try [OF query_checked_ends ends_value [of _ _ 0]])
    simp_all

lemma transition_ends: "ends 5 (settles M (\<lambda>_. True)) (transition_to_fixed ext i h)"
proof -
  have "ends 2 (settles M (\<lambda>_. True)) (transition_versions ext i h k vs)" for k vs
  proof -
    have "ends 2 (settles M (\<lambda>_. True)) (UtcNow (\<lambda>now. prog_try (query_checked (q now)) (\<lambda>_. Ret (Inr x))))"
      for q and x :: "fixed orecord"
      by (rule ends_clock [where n = 1], rule ends_try [OF query_checked_ends ends_value [of _ _ 0]]) simp_all
    then show ?thesis unfolding transition_versions_def Let_def by (auto intro: ends_error simp del: ends.simps)
  qed
  then show ?thesis
    unfolding transition_to_fixed_def
    by (intro ends_try [where n = 2, OF assemble_ends]) (auto split: option.splits any_record.splits intro: ends_error simp del: ends.simps)
qed

lemma find_or_user_ends: "ends 1 (settles M (\<lambda>_. True)) (find_or_user_by_sub ext s)"
  unfolding find_or_user_by_sub_def by (rule ends_try [OF surreal_read_ends(4) ends_ret [of 0]]) simp

lemma upsert_ends: "ends 5 (settles M (\<lambda>_. True)) (upsert_or_user ext s)"
proof -
  have again: "ends 1 (settles M (\<lambda>_. True)) (prog_try (find_or_user_by_sub ext s) (\<lambda>again. Ret (ok_or e again)))" for e
    by (rule ends_try [OF find_or_user_ends ends_ret [of 0]]) simp
  have "ends 4 (settles M (\<lambda>_. True)) (NowV7 (\<lambda>u. UtcNow (\<lambda>now. prog_try (surreal_read (Query (q u now) Ret)) (\<lambda>result.
      case result of Inr _ \<Rightarrow> Ret (Inr (x u now))
      | Inl _ \<Rightarrow> prog_try (find_or_user_by_sub ext s) (\<lambda>again. Ret (ok_or e again))))))" for q x e
    by (rule ends_id [where n = 3], rule ends_clock [where n = 2], rule ends_try [where n = 1, OF surreal_read_ends(5)])
      (auto split: sum.splits intro: again ends_value simp del: ends.simps One_nat_def)
  then show ?thesis
    unfolding upsert_or_user_def
    by (intro ends_try [where n = 4, OF find_or_user_ends]) (auto split: option.splits intro: ends_value simp del: ends.simps)
qed

section \<open>The handlers\<close>

lemma api_call_ends: "ends n (settles M P) p \<Longrightarrow> ends n (settles M P) (api_call p)"
  unfolding api_call_def by (rule ends_map_err)

lemma s3_ends:
  "ends 1 (settles M (\<lambda>_. True)) (s3_get ext key)"
  "ends 1 (settles M (\<lambda>_. True)) (s3_put_if_absent ext key b)"
proof -
  show "ends 1 (settles M (\<lambda>_. True)) (s3_get ext key)"
    unfolding s3_get_def by (rule ends_map_err, rule ends_one) auto
  show "ends 1 (settles M (\<lambda>_. True)) (s3_put_if_absent ext key b)"
    unfolding s3_put_if_absent_def by (rule ends_one) auto
qed

lemma find_or_404_ends: "ends 3 (settles M (\<lambda>rwa. printable (rwa_record rwa))) (find_or_404 ext i)"
proof -
  have "ends 0 (settles M (\<lambda>rwa. printable (rwa_record rwa))) (Ret (ok_or NotFound found))"
    if "\<forall>rwa. found = Some rwa \<longrightarrow> printable (rwa_record rwa)" for found :: "record_with_attribution option"
    using that by (cases found) (simp_all del: ends.simps)
  then show ?thesis
    unfolding find_or_404_def by (intro ends_try [OF api_call_ends [OF find_ends], where n = 0]) auto
qed

lemma json_row_ends:
  assumes "printable (rwa_record rwa)"
  shows "ends 0 (settles M (\<lambda>_. True)) (json_row rwa)"
proof -
  obtain row where "record_with_attribution_to_row rwa = Done row"
    using assms by (cases "rwa_record rwa") (auto simp: printable_def record_with_attribution_to_row_def Let_def)
  then show ?thesis by (simp add: json_row_def del: ends.simps)
qed

lemma reread_ends: "ends 3 (settles M (\<lambda>_. True)) (reread ext i)"
  by (rule ends_try [OF find_or_404_ends json_row_ends]) simp_all

lemma freeze_ends: "ends 8 (settles M (\<lambda>_. True)) (freeze ext i h)"
  by (rule ends_try [OF api_call_ends [OF transition_ends] reread_ends]) simp

lemma verify_and_freeze_ends: "ends 11 (settles M (\<lambda>_. True)) (verify_and_freeze ext st i b h)"
proof -
  have digest: "ends 1 (settles M (\<lambda>_. True)) (computed_hash ext st b)"
    unfolding computed_hash_def
    by (auto split: body.splits intro!: ends_ret_try ends_value ends_try [OF ends_map_err [OF s3_ends(1)] ends_value [where n = 0]]
        simp del: ends.simps One_nat_def)
  have copy: "ends 2 (settles M (\<lambda>_. True)) (copy_to_fixed ext st b h)"
    unfolding copy_to_fixed_def
    by (auto split: body.splits option.splits simp del: ends.simps One_nat_def
        intro!: ends_value ends_try [where n = 1, OF ends_map_err [OF s3_ends(1)]]
          ends_try [OF ends_map_err [OF s3_ends(2)] ends_value [where n = 0]])
  have "ends 10 (settles M (\<lambda>_. True)) (if computed \<noteq> h then Ret (Inl e) else prog_try (copy_to_fixed ext st b h) (\<lambda>_. freeze ext i h))"
    for computed e
    by (auto intro: ends_error ends_try [OF copy freeze_ends] simp del: ends.simps)
  then show ?thesis by (rule ends_try [OF digest]) simp
qed

lemma fix_ends:
  assumes "\<And>m. api_parse_sha256_hex ext (fr_content_hash req) = Panicked m \<Longrightarrow> m \<in> M"
  shows "ends 14 (settles M (\<lambda>_. True)) (fix_one ext st i req)"
proof -
  have parse: "ends 0 (settles M (\<lambda>_. True)) (of_outcome (api_parse_sha256_hex ext (fr_content_hash req)))"
    using assms
    by (cases "api_parse_sha256_hex ext (fr_content_hash req)") (simp_all add: settles_True del: ends.simps)
  have "ends 14 (settles M (\<lambda>_. True)) (prog_try (find_or_404 ext i) (\<lambda>rwa.
     ret_try (last_of rwa) (\<lambda>b. verify_and_freeze ext st i b h)))" for h and last_of :: "_ \<Rightarrow> api_error + body"
    by (rule ends_try [OF find_or_404_ends ends_ret_try [OF verify_and_freeze_ends]]) simp
  then show ?thesis
    unfolding fix_one_def by (rule ends_try [OF parse]) simp
qed

lemma put_ends: "ends 9 (settles M (\<lambda>_. True)) (put_one ext i req)"
  unfolding put_one_def
  by (rule ends_try [where n = 6, OF find_or_404_ends])
    (intro ends_ret_try ends_try [OF api_call_ends [OF add_version_ends] reread_ends], simp_all del: ends.simps)

lemma post_ends: "ends 6 (settles M (\<lambda>_. True)) (records_post_one ext claims req)"
proof -
  have "ends 4 (settles M (\<lambda>_. True)) (prog_try (api_call (save ext literal_mutable r creator)) (\<lambda>_. UtcNow (\<lambda>now. Ret (Inr (f now)))))"
    for r creator and f :: "datetime \<Rightarrow> api_response"
    by (rule ends_try [where n = 1, OF api_call_ends [OF save_ends]], rule ends_clock [OF ends_value]) simp_all
  then show ?thesis
    unfolding records_post_one_def Let_def
    by (intro ends_ret_try ends_id [where n = 5] ends_id [where n = 4]) simp_all
qed

lemma upload_ends: "ends 1 (settles M (\<lambda>_. True)) (assets_post_one ext st b)"
  unfolding assets_post_one_def Let_def
  by (auto intro!: ends_ret_try ends_try [OF ends_map_err [OF s3_ends(2)] ends_value [where n = 0]] simp del: ends.simps One_nat_def
      split: prod.splits)

lemma handler_ends:
  assumes "\<And>i f m. ep = PostFix i f \<Longrightarrow> api_parse_sha256_hex ext (fr_content_hash f) = Panicked m \<Longrightarrow> m \<in> M"
  shows "ends 14 (settles M (\<lambda>_. True)) (handler ext st ep req)"
proof (cases ep)
  case GetHealth
  then show ?thesis by (simp add: handler_def health_handler_def del: ends.simps)
next
  case (GetRecord i)
  then show ?thesis by (simp add: handler_def get_one_def ends_weaken [OF reread_ends] del: ends.simps)
next
  case (PutRecord i u)
  then show ?thesis by (simp add: handler_def ends_weaken [OF put_ends] del: ends.simps)
next
  case (PostFix i f)
  then show ?thesis using assms by (simp add: handler_def fix_ends del: ends.simps)
next
  case (PostRecord r)
  then show ?thesis by (simp add: handler_def ends_weaken [OF post_ends] del: ends.simps)
next
  case (PostAsset b)
  then show ?thesis by (simp add: handler_def ends_weaken [OF upload_ends] del: ends.simps)
qed

lemma scope_ends:
  assumes "\<And>req. ends n (settles M (\<lambda>_. True)) (next_run req)"
  shows "ends n (settles M (\<lambda>_. True)) (require_scope st scope next_run req)"
  unfolding require_scope_def
  by (auto intro!: ends_ret_try assms simp del: ends.simps)

lemma token_ends:
  assumes "\<And>req. ends n (settles M (\<lambda>_. True)) (next_run req)" "5 + n \<le> N"
  shows "ends N (settles M (\<lambda>_. True)) (verify_jwt_middleware ext st next_run req)"
  unfolding verify_jwt_middleware_def
  by (use assms(2) in \<open>auto split: option.splits simp del: ends.simps
      intro!: ends_ret_try ends_try [OF ends_map_err [OF upsert_ends] assms(1)] ends_weaken [OF assms(1)]\<close>)

lemma router_ends:
  assumes "\<And>i f m. ep = PostFix i f \<Longrightarrow> api_parse_sha256_hex ext (fr_content_hash f) = Panicked m \<Longrightarrow> m \<in> M"
  shows "ends 19 (settles M (\<lambda>_. True)) (build_router ext st ep req)"
proof -
  have run: "ends 14 (settles M (\<lambda>_. True)) (handler ext st ep r)" for r
    using assms by (rule handler_ends)
  have gated: "ends 19 (settles M (\<lambda>_. True)) (verify_jwt_middleware ext st (require_scope st scope (handler ext st ep)) req)"
    for scope by (rule token_ends [OF scope_ends [OF run]]) simp
  have "require_scope_read st next_run = require_scope st SCOPE_READ next_run"
    "require_scope_write st next_run = require_scope st SCOPE_WRITE next_run" for next_run
    by (rule ext, simp add: require_scope_read_def require_scope_write_def)+
  then show ?thesis
    unfolding build_router_def Let_def
    using gated ends_weaken [OF run [of req], of "\<lambda>_. True" 19] by (cases ep) (simp_all del: ends.simps)
qed

section \<open>Runs and schedules\<close>

lemma ends_step:
  assumes "ends n Q p" "step_prog ops p w = Some (p', w')"
  obtains m where "n = Suc m" "ends m Q p'"
proof -
  have p': "p' \<in> replies p" using step_replies [OF assms(2)] .
  then have ne: "replies p \<noteq> {}" by blast
  show ?thesis
  proof (cases n)
    case 0
    then show ?thesis using assms(1) ne by (auto simp: halted_replies)
  next
    case (Suc m)
    then show ?thesis using assms(1) ne p' that by (auto simp: ends_reply simp del: ends.simps)
  qed
qed

lemma ends_calls: "ends n Q p \<Longrightarrow> \<exists>out w'. run_calls ops n (p, w) = (halted out, w') \<and> Q out"
proof (induction n arbitrary: p w)
  case 0
  then show ?case by auto
next
  case (Suc n)
  show ?case
  proof (cases "step_prog ops p w")
    case None
    then obtain out where "p = halted out" by (auto simp: step_None halted_replies)
    then show ?thesis using Suc.prems None by (cases out) (auto simp: halted_simps simp del: ends.simps)
  next
    case (Some c)
    obtain p' w' where c: "c = (p', w')" by (cases c)
    have "ends n Q p'"
      by (rule ends_step [OF Suc.prems Some [unfolded c]]) simp
    then show ?thesis using Suc.IH Some c by simp
  qed
qed

lemma hex_bytes_panics: "hex_bytes s idx = Panicked m \<Longrightarrow> m = ''byte index is not a char boundary''"
  by (induction idx) (auto split: option.splits sum.splits outcome.splits)

lemma api_parse_only_panic:
  "api_parse_sha256_hex ext s = Panicked m \<Longrightarrow> m = ''byte index is not a char boundary''"
  by (auto simp: api_parse_sha256_hex_def split: if_splits outcome.splits dest: hex_bytes_panics)

text \<open>Each request in a pool has some calls left; a schedule uses them up.\<close>

definition slice_panic :: "string set" where
  "slice_panic = {''byte index is not a char boundary''}"

lemma pool_budget:
  assumes "(pool_step ext ops ^^ k) ([], w) (ps, w')"
  shows "\<exists>ns. list_all2 (\<lambda>n p. ends n (settles slice_panic (\<lambda>_. True)) p) ns ps \<and> k + sum_list ns \<le> 20 * length ps"
  using assms
proof (induction k arbitrary: ps w')
  case 0
  then show ?case by auto
next
  case (Suc k)
  then obtain c where c: "(pool_step ext ops ^^ k) ([], w) c" "pool_step ext ops c (ps, w')" by auto
  obtain qs w1 where "c = (qs, w1)" by (cases c)
  with c obtain ns where ns: "list_all2 (\<lambda>n p. ends n (settles slice_panic (\<lambda>_. True)) p) ns qs"
    "k + sum_list ns \<le> 20 * length qs" and step: "pool_step ext ops (qs, w1) (ps, w')"
    using Suc.IH by blast
  from step show ?case
  proof (cases rule: pool_step.cases)
    case (arrive st ep req)
    have "ends 19 (settles slice_panic (\<lambda>_. True)) (build_router ext st ep req)"
      by (rule router_ends) (auto simp: slice_panic_def dest: api_parse_only_panic)
    then have "list_all2 (\<lambda>n p. ends n (settles slice_panic (\<lambda>_. True)) p) (ns @ [19]) ps"
      using ns(1) arrive by (simp add: list_all2_appendI del: ends.simps)
    then show ?thesis using ns(2) arrive by (intro exI [of _ "ns @ [19]"]) simp
  next
    case (call i p')
    then have i: "i < length ns" "ends (ns ! i) (settles slice_panic (\<lambda>_. True)) (qs ! i)"
      using ns(1) by (auto simp: list_all2_conv_all_nth)
    then obtain m where m: "ns ! i = Suc m" "ends m (settles slice_panic (\<lambda>_. True)) p'"
      using ends_step [OF i(2)] call by metis
    have "sum_list ns = Suc (sum_list (ns[i := m]))"
      using sum_list_update [OF i(1), of m] elem_le_sum_list [OF i(1)] m(1) by simp
    then show ?thesis
      using ns call m(2) by (intro exI [of _ "ns[i := m]"]) (auto intro: list_all2_update_cong)
  qed
qed

section \<open>Properties\<close>

text \<open>C15: every schedule comes to an end: with any requests arriving at any time and any calls failing, a
  schedule of \<open>k\<close> steps has brought in at least \<open>k / 20\<close> requests (its arrival and at most 19 calls for each), so
  once arrivals stop every request is answered; one that is not can always make its next call, and the only
  panic there is comes from a digest text cut inside a character.\<close>

theorem schedules_terminate:
  assumes "(pool_step ext ops ^^ k) ([], w) (ps, w')"
  shows "k \<le> 20 * length ps \<and>
     (\<forall>i < length ps. (\<exists>out. ps ! i = halted out) \<or>
        (\<exists>p' w''. step_prog ops (ps ! i) w' = Some (p', w'') \<and> pool_step ext ops (ps, w') (ps[i := p'], w''))) \<and>
     (\<forall>m. Panic m \<in> set ps \<longrightarrow> m = ''byte index is not a char boundary'')"
proof -
  obtain ns where ns: "list_all2 (\<lambda>n p. ends n (settles slice_panic (\<lambda>_. True)) p) ns ps" "k + sum_list ns \<le> 20 * length ps"
    using pool_budget [OF assms] by blast
  have "(\<exists>out. ps ! i = halted out) \<or>
      (\<exists>p' w''. step_prog ops (ps ! i) w' = Some (p', w'') \<and> pool_step ext ops (ps, w') (ps[i := p'], w''))"
    if "i < length ps" for i
  proof (cases "step_prog ops (ps ! i) w'")
    case None
    then show ?thesis by (simp add: step_None halted_replies)
  next
    case (Some c)
    then obtain p' w'' where "step_prog ops (ps ! i) w' = Some (p', w'')" by (cases c) simp
    with pool_step.call [OF that this] show ?thesis by blast
  qed
  moreover have "m = ''byte index is not a char boundary''" if "Panic m \<in> set ps" for m
  proof -
    from that obtain i where "i < length ps" "ps ! i = Panic m" by (auto simp: in_set_conv_nth)
    then have "ends (ns ! i) (settles slice_panic (\<lambda>_. True)) (Panic m :: response prog)"
      using ns(1) by (metis list_all2_conv_all_nth)
    then show ?thesis by (simp add: slice_panic_def)
  qed
  ultimately show ?thesis using ns(2) by simp
qed

text \<open>C31: a request served alone is answered within 19 calls to the database and the object store, whatever they
  reply, unless it is a freeze whose digest text makes the parser panic; nothing is assumed of the services.\<close>

theorem answered_within_19_calls:
  assumes "\<And>i f m. ep = PostFix i f \<Longrightarrow> api_parse_sha256_hex ext (fr_content_hash f) \<noteq> Panicked m"
  shows "\<exists>res w'. run_calls ops 19 (build_router ext st ep req, w) = (Ret res, w')"
proof -
  have "ends 19 (settles {} (\<lambda>_. True)) (build_router ext st ep req)"
    by (rule router_ends) (use assms in blast)
  from ends_calls [OF this, of ops w] obtain out w' where
    out: "run_calls ops 19 (build_router ext st ep req, w) = (halted out, w')" "settles {} (\<lambda>_. True) out" by blast
  from out(2) obtain res where "halted out = Ret res" by (cases out) (simp_all add: halted_simps)
  with out(1) show ?thesis by (metis (no_types))
qed

section \<open>Witnesses\<close>

lemma schedules_terminate_witness:
  "\<exists>k ps. (pool_step mem_api_crates (mem_ops False) ^^ k) ([], record_world) (ps, fixed_world) \<and> k \<le> 20 * length ps"
proof -
  obtain ps k where k: "(pool_step mem_api_crates (mem_ops False) ^^ k) ([], record_world) (ps, fixed_world)"
    using freeze_interleaved rtranclp_imp_relpowp by metis
  from schedules_terminate [OF k] k show ?thesis by blast
qed

lemma answered_within_19_calls_witness:
  "\<exists>res w'. run_calls (mem_ops True) 19 (build_router mem_api_crates app_state_new
     (PostFix 1 \<lparr>fr_content_hash = hash_to_string seven\<rparr>) sample_upload, record_world) = (Ret res, w')"
  by (rule answered_within_19_calls) (auto simp: seven_parsed)

end
