(* ===== verification/Isolation.thy ===== *)
theory Isolation
  imports Interleaving_Spec
begin

text \<open>
  What interference cannot do: as long as no request in flight writes a record, the record stays as it is, and a
  read of it, for all its three queries and whatever else is served between them, shows exactly that record. The
  races of \<open>Interleaving_Spec\<close>, \<open>Races\<close> and \<open>Refreeze\<close> are between requests that write one record.
\<close>

section \<open>Reads of an undisturbed record\<close>

definition row_of_stored :: "record_row_db \<Rightarrow> stored \<Rightarrow> bool" where
  "row_of_stored r s \<longleftrightarrow> from_literal (rr_state r) = Inr (st_state s) \<and> kind_from_string (rr_kind r) = st_kind s \<and>
     rr_content_hash r = st_hash s"

context backend
begin

lemma stored_row:
  assumes "repo_inv ext t" "view ext t i = Some s"
  obtains r where "map_of (t_record t) (uuid_to_string ext i) = Some r" "row_of_stored r s"
proof -
  obtain r where r: "map_of (t_record t) (uuid_to_string ext i) = Some r" using assms(2) by (auto simp: view_def)
  obtain st where "from_literal (rr_state r) = Inr st"
    using repo_invD(2) [OF assms(1) r] by (rule state_hash_ok_literal)
  then show ?thesis using that [OF r] assms(2) r by (auto simp: view_def row_of_stored_def)
qed

lemma stored_edge:
  assumes "repo_inv ext t" "view ext t i = Some s"
  obtains e where "edges_to (uuid_to_string ext i) t = [e]" "attribution_of ext e = st_attribution s"
proof -
  obtain r where r: "map_of (t_record t) (uuid_to_string ext i) = Some r" using assms(2) by (auto simp: view_def)
  have "length (edges_to (uuid_to_string ext i) t) = 1"
    using repo_invD(1) [OF assms(1) r] by (simp add: record_wf_def)
  then obtain e where "edges_to (uuid_to_string ext i) t = [e]" by (auto simp: length_Suc_conv)
  then show ?thesis using that assms(2) by (auto simp: view_def)
qed

lemma stored_versions_read:
  assumes "repo_inv ext t" "view ext t i = Some s" "mset rows = mset (map read_version (versions_of i t))"
    and "collect_results (map (version_row_into_persisted ext) rows) = Inr vs"
  shows "mset (map version_from_persisted vs) = st_versions s"
proof -
  have "set rows = read_version ` set (versions_of i t)" using mset_eq_setD [OF assms(3)] by simp
  then have "set rows \<subseteq> read_version ` set (t_version t)" by (auto simp: versions_of_def)
  with assms(1,4) have "vs = chain_of ext rows" using collect_chain [of t rows] by simp
  then show ?thesis using mset_chain [OF assms(3)] assms(2) by (auto simp: view_def)
qed

lemma reports_of_parts:
  assumes "stored_wf s" "row_of_stored r s" "mset (map version_from_persisted vs) = st_versions s"
    and "record_row_into_persisted r i = Inr p"
    and "persisted_row_to_any \<lparr>row_record = p, row_versions = vs, row_attribution = st_attribution s\<rparr> = Inr any"
  shows "reports \<lparr>rwa_record = any, rwa_attribution = st_attribution s\<rparr> i s"
proof -
  let ?row = "\<lparr>row_record = p, row_versions = vs, row_attribution = st_attribution s\<rparr>"
  have p: "pr_id p = i" "pr_state p = st_state s" "pr_kind p = rr_kind r" "pr_content_hash p = st_hash s"
    using assms(2,4) by (auto simp: record_row_into_persisted_def row_of_stored_def)
  then have valid: "row_valid ?row"
    using assms(1,3) by (auto simp: row_valid_def stored_wf_def split: option.splits)
  then have "any = row_to_any ?row" using assms(5) persisted_row_to_any_valid by fastforce
  then show ?thesis
    using row_to_any_reads [OF valid] p assms(2,3) by (simp add: reports_def row_of_stored_def)
qed

end

context api_services
begin

lemma undisturbed_view:
  assumes "later_world K w w1" "i \<in> K" "view ext (tables w) i = Some s"
  shows "view ext (tables w1) i = Some s" "repo_inv ext (tables w1)"
  using assms by (auto simp: later_def undisturbed_def tables_ok_def repo_ok_def)

text \<open>A read whose reply is \<open>Inr\<close> only of what it should be.\<close>

lemma safe_reply: "service_ok ext tables blobs w \<Longrightarrow> (\<And>x. r = Inr x \<Longrightarrow> P x) \<Longrightarrow> safe K (Ret r) (\<lambda>x _. P x) w"
  by (cases r) (auto intro: safe_rules(4) safe_value)

lemma read_row:
  assumes "service_ok ext tables blobs w" "i \<in> K" "view ext (tables w) i = Some s"
  shows "safe K (surreal_read (SelectRecord (uuid_to_string ext i) Ret)) (\<lambda>row _. \<exists>r. row = Some r \<and> row_of_stored r s) w"
proof (rule safe_surreal_read, rule safe_select_record [OF assms(1)], rule safe_reply, erule later_sound, goal_cases)
  case (1 r w1 x)
  with undisturbed_view [OF 1(1) assms(2,3)] show ?case by (auto elim: stored_row)
qed

lemma read_versions:
  assumes "service_ok ext tables blobs w" "i \<in> K" "view ext (tables w) i = Some s"
  shows "safe K (fetch_versions ext i) (\<lambda>vs _. mset (map version_from_persisted vs) = st_versions s) w"
proof -
  have "safe K (surreal_read (SelectVersions i Ret)) (\<lambda>rows _. \<forall>vs.
      collect_results (map (version_row_into_persisted ext) rows) = Inr vs \<longrightarrow> mset (map version_from_persisted vs) = st_versions s) w"
  proof (rule safe_surreal_read, rule safe_select_versions [OF assms(1)], rule safe_reply, erule later_sound, goal_cases)
    case (1 r w1 rows)
    with undisturbed_view [OF 1(1) assms(2,3)] stored_versions_read show ?case by blast
  qed
  then show ?thesis
    unfolding fetch_versions_def by (rule safe_try [OF assms(1)]) (rule safe_reply; blast)
qed

lemma read_attribution:
  assumes "service_ok ext tables blobs w" "i \<in> K" "view ext (tables w) i = Some s"
  shows "safe K (fetch_attribution ext i) (\<lambda>a _. a = Some (st_attribution s)) w"
proof -
  have "safe K (surreal_read (SelectCreatedBy (uuid_to_string ext i) Ret))
      (\<lambda>edge _. map_option (\<lambda>e. \<lparr>pa_creator = strip_thing_backticks (ce_creator e), pa_at = ce_at e\<rparr>) edge = Some (st_attribution s)) w"
  proof (rule safe_surreal_read, rule safe_quiet [OF assms(1), where f = "do_select_created_by ops (uuid_to_string ext i)" and k = Ret],
      goal_cases)
    case (4 w1 r w2)
    have view: "view ext (tables w1) i = Some s" "repo_inv ext (tables w1)"
      using undisturbed_view [OF 4(1) assms(2,3)] 4(3) by simp_all
    obtain e where e: "edges_to (uuid_to_string ext i) (tables w1) = [e]" "attribution_of ext e = st_attribution s"
      using stored_edge view by blast
    show ?case
    proof (rule safe_reply [OF later_sound [OF 4(1)]])
      fix x assume "r = Inr x"
      then show "map_option (\<lambda>e. \<lparr>pa_creator = strip_thing_backticks (ce_creator e), pa_at = ce_at e\<rparr>) x = Some (st_attribution s)"
        using select_created_by_reply [of "uuid_to_string ext i" w1 x w2] 4(2) e by (auto simp: attribution_of_def split: option.splits)
    qed
  qed (use select_created_by_tables db_keeps_blobs in \<open>auto split: prod.splits\<close>)
  then show ?thesis
    unfolding fetch_attribution_def by (rule safe_try [OF assms(1)]) (rule safe_reply; auto)
qed

lemma read_record:
  assumes "service_ok ext tables blobs w" "i \<in> K" "view ext (tables w) i = Some s"
  shows "safe K (assemble ext i) (\<lambda>found _. \<exists>rwa. found = Some rwa \<and> reports rwa i s) w"
  unfolding assemble_def
proof (rule safe_try [OF assms(1) read_row [OF assms]], goal_cases)
  case (1 row w1)
  then obtain r where r: "row = Some r" "row_of_stored r s" by blast
  have s1: "view ext (tables w1) i = Some s" and inv: "repo_inv ext (tables w1)" using undisturbed_view [OF 1(2) assms(2,3)] by simp_all
  show ?case
    unfolding r option.case
  proof (rule safe_rules(2), rule safe_try [OF 1(3) read_versions [OF 1(3) assms(2) s1]], goal_cases)
    case (1 p vs w2)
    have s2: "view ext (tables w2) i = Some s" using undisturbed_view [OF 1(3) assms(2) s1] by simp
    show ?case
    proof (rule safe_try [OF 1(4) read_attribution [OF 1(4) assms(2) s2]], goal_cases)
      case (1 a w3)
      then show ?case
        using reports_of_parts [OF view_wf [OF inv s1] r(2)] \<open>mset (map version_from_persisted vs) = st_versions s\<close>
          \<open>record_row_into_persisted r i = Inr p\<close>
        by (auto intro!: safe_rules(2) safe_reply)
    qed
  qed
qed

lemma read_shows:
  assumes "service_ok ext tables blobs w" "i \<in> K" "view ext (tables w) i = Some s"
  shows "safe K (get_one ext i) (\<lambda>resp _. \<exists>row. resp = RowResponse 200 None row \<and> shows_row row i s) w"
proof -
  have "stored_wf s" using assms(1,3) view_wf by (auto simp: service_ok_def repo_ok_def)
  then have row: "\<exists>row. record_with_attribution_to_row rwa = Done row \<and> shows_row row i s" if "reports rwa i s" for rwa
    using row_of_report [OF that] by blast
  have "safe K (find_or_404 ext i) (\<lambda>rwa _. reports rwa i s) w"
    unfolding find_or_404_def find_record_def
    by (rule safe_try [OF assms(1) safe_api_call [OF read_record [OF assms]]]) (rule safe_reply; auto)
  then show ?thesis
    unfolding get_one_def
    by (rule safe_try [OF assms(1)]) (use row in \<open>fastforce simp: json_row_def intro: safe_reply\<close>)
qed

lemma read_router:
  assumes "service_ok ext tables blobs w" "i \<in> K" "view ext (tables w) i = Some s"
  shows "safe K (build_router ext st (GetRecord i) req) (\<lambda>resp _. \<exists>row. resp = RowResponse 200 None row \<and> shows_row row i s) w"
proof (cases "as_auth st")
  case None
  then have "build_router ext st (GetRecord i) req = get_one ext i" by (simp add: router_open handler_def)
  then show ?thesis using read_shows [OF assms] by simp
next
  case (Some v)
  have ep: "GetRecord i \<noteq> GetHealth" by simp
  show ?thesis
  proof (cases "bearer_claims ext v req")
    case None
    then show ?thesis by (simp add: router_enforced [OF Some ep] safe_rules(4))
  next
    case claims: (Some c)
    show ?thesis
      unfolding router_enforced [OF Some ep] claims option.case
    proof (rule safe_try [OF assms(1) safe_rules(3) [OF safe_upsert [OF assms(1)]]], goal_cases)
      case (1 u w1)
      then show ?case
        using read_shows [OF 1(3) assms(2)] undisturbed_view [OF 1(2) assms(2,3)] by (simp add: handler_def safe_rules(4))
    qed
  qed
qed

end

section \<open>A read in a pool\<close>

text \<open>The first task of a pool and what it promises, whatever arrives and runs beside it.\<close>

context frame
begin

lemma first_task:
  assumes "(pool_step_for ext ops A)\<^sup>*\<^sup>* c c'" "pool_safe ops R c" "fst c = p # ps" "rg ops R Q p (snd c)"
    and "\<And>w st ep req. R (snd c) w \<Longrightarrow> A ep \<Longrightarrow> rg ops R (\<lambda>_ _. True) (build_router ext st ep req) w"
  shows "R (snd c) (snd c') \<and> pool_safe ops R c' \<and> (\<exists>p' ps'. fst c' = p' # ps' \<and> rg ops R Q p' (snd c'))"
  using assms(1)
proof (induction rule: rtranclp_induct)
  case base
  then show ?case using assms(2-4) frame_refl by auto
next
  case (step c1 c2)
  then obtain p1 ps1 where p1: "fst c1 = p1 # ps1" "rg ops R Q p1 (snd c1)" by blast
  have next_safe: "R (snd c1) (snd c2) \<and> pool_safe ops R c2"
    using pool_safe_step [OF step.hyps(2)] step.IH assms(5) frame_trans by blast
  have "\<exists>p' ps'. fst c2 = p' # ps' \<and> rg ops R Q p' (snd c2)"
    using step.hyps(2)
  proof (cases rule: pool_step_for.cases)
    case (arrive ep qs w st req)
    then show ?thesis using p1 by simp
  next
    case (call j qs w p' w')
    show ?thesis
    proof (cases j)
      case 0
      with call p1 have "step_prog ops p1 (snd c1) = Some (p', snd c2)" by simp
      then have "rg ops R Q p' (snd c2)" using p1(2) frame_refl by (metis rg.cases)
      then show ?thesis using call 0 p1(1) by simp
    next
      case (Suc j')
      then show ?thesis using call p1 next_safe by (auto intro: rg_stable)
    qed
  qed
  then show ?case using next_safe step.IH frame_trans by blast
qed

end

context api_services
begin

lemma isolated_read_law:
  assumes "service_ok ext tables blobs w" "view ext (tables w) i = Some s"
    and "(pool_step_for ext ops (\<lambda>ep. i \<notin> writes ep))\<^sup>*\<^sup>* ([build_router ext st (GetRecord i) req], w) (p # ps, w')"
  shows "view ext (tables w') i = Some s"
    and "p = Ret (Inr resp) \<Longrightarrow> \<exists>row. resp = RowResponse 200 None row \<and> shows_row row i s"
proof -
  let ?R = "serves ext tables blobs {i}" and ?Q = "on_ok (\<lambda>resp _. \<exists>row. resp = RowResponse 200 None row \<and> shows_row row i s)"
  have read: "rg ops ?R ?Q (build_router ext st (GetRecord i) req) w"
    by (rule read_router [OF assms(1) _ assms(2)]) simp
  have "?R (snd ([build_router ext st (GetRecord i) req], w)) (snd (p # ps, w')) \<and> pool_safe ops ?R (p # ps, w') \<and>
      (\<exists>p' ps'. fst (p # ps, w') = p' # ps' \<and> rg ops ?R ?Q p' (snd (p # ps, w')))"
  proof (rule frame.first_task [OF serves_frame assms(3)], goal_cases)
    case 1
    then show ?case using frame.rg_weaken [OF serves_frame read] by (simp add: pool_safe_def)
  next
    case (4 w1 st ep req)
    then have "service_ok ext tables blobs w1" "writes ep \<inter> {i} = {}" using assms(1) later_sound by (auto simp: serves_later)
    then show ?case by (rule frame.rg_weaken [OF serves_frame safe_router])
  qed (use read in simp_all)
  then have pool: "?R w w' \<and> rg ops ?R ?Q p w'" by simp
  show "view ext (tables w') i = Some s"
    using pool assms(1,2) undisturbed_view(1) [of "{i}" w w' i s] by (simp add: serves_later)
  show "\<exists>row. resp = RowResponse 200 None row \<and> shows_row row i s" if "p = Ret (Inr resp)"
  proof -
    have "?Q (Inr resp :: response) w'"
      using pool that frame.frame_refl [OF serves_frame, of ext tables blobs "{i}" w'] by (simp add: rg_Ret_simps)
    then show ?thesis by (simp add: on_ok_def)
  qed
qed

end

section \<open>Property\<close>

text \<open>C14: a read is isolated from every request that does not write the record it reads: whatever such
  requests arrive while it is served, however their calls fall between its three queries and whichever
  of them fail, the record is at every moment what it was when the read began, and the read, where it
  answers, answers 200 with exactly that record.\<close>

theorem isolated_reads:
  assumes "api_services ext ops tables blobs" and "service_ok ext tables blobs w" and "view ext (tables w) i = Some s"
    and "(pool_step_for ext ops (\<lambda>ep. i \<notin> writes ep))\<^sup>*\<^sup>* ([build_router ext st (GetRecord i) req], w) (p # ps, w')"
  shows "view ext (tables w') i = Some s \<and>
    (\<forall>resp. p = Ret (Inr resp) \<longrightarrow> (\<exists>row. resp = RowResponse 200 None row \<and> shows_row row i s))"
  using api_services.isolated_read_law [OF assms] by blast

section \<open>Witness\<close>

definition fixed_row :: persisted_row where
  "fixed_row = build_row (mutable_fix sample_record seven) PFixed (Some (hash_to_string seven))
     \<lparr>pa_creator = ''creo_user:ana'', pa_at = 5\<rparr>"

lemma fixed_world_ok: "service_ok mem_api_crates mw_tables mem_blobs fixed_world"
  using mem_services.router_ok [OF record_world_ok freeze_served] by blast

lemma read_served: "run (mem_ops False) (build_router mem_api_crates app_state_new (GetRecord 1) req) fixed_world =
   (Done (Inr (RowResponse 200 None fixed_row)), fixed_world)"
proof -
  have open_state: "as_auth app_state_new = None \<or> GetRecord 1 = GetHealth" by (simp add: app_state_new_def)
  show ?thesis
    unfolding router_open [OF open_state]
    by (simp add: handler_def get_one_def run_try [OF find_in_fixed_world] json_row_def record_with_attribution_to_row_def
        mutable_fix_def fixed_row_def)
qed

lemma isolated_reads_witness: "shows_row fixed_row 1 fixed_sample"
proof -
  let ?get = "build_router mem_api_crates app_state_new (GetRecord 1) sample_upload"
  let ?put = "build_router mem_api_crates app_state_new (PutRecord 2 \<lparr>ur_body = InlineB64 ''A''\<rparr>) sample_upload"
  let ?A = "\<lambda>ep. 1 \<notin> writes ep"
  have "pool_step_for mem_api_crates (mem_ops False) ?A ([?get], fixed_world) ([?get] @ [?put], fixed_world)"
    by (rule pool_step_for.arrive) (simp add: writes_def)
  moreover have "(pool_step_for mem_api_crates (mem_ops False) ?A)\<^sup>*\<^sup>* ([?get] @ [?put], fixed_world)
      ([Ret (Inr (RowResponse 200 None fixed_row)), ?put], fixed_world)"
    using halt_in_pool_for [OF read_served [of sample_upload], of 0 "[?get] @ [?put]"] by (simp add: halted_def)
  ultimately have "(pool_step_for mem_api_crates (mem_ops False) ?A)\<^sup>*\<^sup>* ([?get], fixed_world)
      ([Ret (Inr (RowResponse 200 None fixed_row)), ?put], fixed_world)"
    by (rule converse_rtranclp_into_rtranclp)
  from isolated_reads [OF mem_services.api_services_axioms fixed_world_ok fixed_sample_view this] show ?thesis by simp
qed

end
