(* ===== verification/Races.thy ===== *)
theory Races
  imports Interleaving_Spec
begin

text \<open>
  A second race of requests in flight together, on a concrete record: what \<open>fix_one\<close> verifies is not always
  what \<open>transition_to_fixed\<close> freezes.
\<close>

section \<open>A freeze of a version it has not verified\<close>

lemma try_in_pool:
  assumes "run ops p w = (Done (Inr x), w')" "i < length ps" "ps ! i = prog_try p k"
  shows "(pool_step ext ops)\<^sup>*\<^sup>* (ps, w) (ps[i := k x], w')"
  using run_in_pool [OF assms(1,2) assms(3) [unfolded prog_try_def], of ext] by simp

text \<open>\<open>fix_one\<close> up to its verification, a whole put, and the rest of the freeze.\<close>

lemma unverified_schedule:
  assumes hash: "api_parse_sha256_hex ext (fr_content_hash (f :: fix_record_request)) = Done (Inr h)"
    and found: "run ops (find_or_404 ext i) w = (Done (Inr rwa), w1)" "rwa_record rwa = AnyMutable r"
      "trailing_body (rec_versions r) = Inr b"
    and verified: "run ops (computed_hash ext st b) w1 = (Done (Inr h), w2)" "run ops (copy_to_fixed ext st b h) w2 = (Done (Inr ()), w3)"
    and put: "run ops put w3 = (Done a, w4)" and frozen: "run ops (freeze ext i h) w4 = (Done a', w5)"
    and open_state: "as_auth st = None"
  shows "(pool_step ext ops)\<^sup>*\<^sup>* ([build_router ext st (PostFix i f) req, put], w) ([freeze ext i h, Ret a], w4)"
    "(pool_step ext ops)\<^sup>*\<^sup>* ([freeze ext i h, Ret a], w4) ([Ret a', Ret a], w5)"
proof -
  let ?fix = "build_router ext st (PostFix i f) req" and ?verify = "verify_and_freeze ext st i b h"
  let ?copy = "prog_try (copy_to_fixed ext st b h) (\<lambda>_. freeze ext i h)"
  have fix_start: "?fix = prog_try (find_or_404 ext i) (\<lambda>rwa.
     ret_try (case rwa_record rwa of
         AnyMutable r \<Rightarrow> trailing_body (rec_versions r)
       | AnySnapshot r \<Rightarrow> trailing_body (rec_versions r)
       | AnyFixed _ \<Rightarrow> Inl (StateConflict ''mutable | snapshot'' ''fixed'')) (\<lambda>last_body. verify_and_freeze ext st i last_body h))"
    using open_state by (simp add: router_open handler_def fix_one_def hash prog_try_simps)
  have "(pool_step ext ops)\<^sup>*\<^sup>* ([?fix, put], w) ([?verify, put], w1)"
    using try_in_pool [OF found(1), of 0 "[?fix, put]", unfolded nth_Cons_0, OF _ fix_start, of ext] by (simp add: found)
  also have "(pool_step ext ops)\<^sup>*\<^sup>* ([?verify, put], w1) ([?copy, put], w2)"
    using try_in_pool [OF verified(1), of 0 "[?verify, put]", unfolded nth_Cons_0, OF _ refl, of ext] by simp
  also have "(pool_step ext ops)\<^sup>*\<^sup>* ([?copy, put], w2) ([freeze ext i h, put], w3)"
    using try_in_pool [OF verified(2), of 0 "[?copy, put]", unfolded nth_Cons_0, OF _ refl, of ext] by simp
  also have "(pool_step ext ops)\<^sup>*\<^sup>* ([freeze ext i h, put], w3) ([freeze ext i h, Ret a], w4)"
    using halt_in_pool [OF put, of 1 "[freeze ext i h, put]" ext] by (simp add: halted_def)
  finally show "(pool_step ext ops)\<^sup>*\<^sup>* ([?fix, put], w) ([freeze ext i h, Ret a], w4)" .
  show "(pool_step ext ops)\<^sup>*\<^sup>* ([freeze ext i h, Ret a], w4) ([Ret a', Ret a], w5)"
    using halt_in_pool [OF frozen, of 0 "[freeze ext i h, Ret a]" ext] by (simp add: halted_def)
qed

text \<open>The schedule on a concrete record: fix verifies the body \<open>[7]\<close>, a put appends \<open>[65]\<close>, fix freezes.\<close>

definition appended_world :: mem_world where
  "appended_world = record_world\<lparr>mw_tables := appended_tables (uuid_to_string mem_crates 3)
     \<lparr>vw_record_id = 1, vw_body = PInline [65], vw_created_at = 6\<rparr> (uuid_to_string mem_crates 1) 6 (mw_tables record_world),
     mw_next := 4, mw_clock := 7\<rparr>"

definition stale_world :: mem_world where
  "stale_world = appended_world\<lparr>mw_tables := fixed_tables (uuid_to_string mem_crates 1) (hash_to_string seven) 7
     (uuid_to_string mem_crates 3) (PInline [65]) (mw_tables appended_world), mw_clock := 8\<rparr>"

definition two_versions :: "version list" where
  "two_versions = [\<lparr>ver_id = VersionId 2, ver_body = Inline [7]\<rparr>, \<lparr>ver_id = VersionId 3, ver_body = Inline [65]\<rparr>]"

lemma two_keys: "uuid_to_string mem_crates 2 \<noteq> uuid_to_string mem_crates 3" "uuid_to_string mem_crates 3 \<noteq> uuid_to_string mem_crates 2"
  by (simp_all add: mem_text.uuid_to_string_inj)

lemma appended_world_tables: "mw_tables appended_world =
   \<lparr>t_schema = [unique_sub_index],
    t_record = [(uuid_to_string mem_crates 1, \<lparr>rr_state = ''mutable'', rr_kind = ''log'', rr_content_hash = None, rr_created_at = 5, rr_updated_at = 6\<rparr>)],
    t_version = [(uuid_to_string mem_crates 2, \<lparr>vw_record_id = 1, vw_body = PInline [7], vw_created_at = 5\<rparr>),
      (uuid_to_string mem_crates 3, \<lparr>vw_record_id = 1, vw_body = PInline [65], vw_created_at = 6\<rparr>)],
    t_created_by = [\<lparr>cb_in = (''creo_user'', ''ana''), cb_out = uuid_to_string mem_crates 1, cb_at = 5\<rparr>],
    t_snapshot_of = [], t_or_user = []\<rparr>"
  by (simp add: appended_world_def appended_tables_def record_world_tables map_entry_Cons)

lemma appended_world_faults: "mw_faults appended_world = []" "mw_clock appended_world = 7"
  by (simp_all add: appended_world_def record_world_faults)

lemma stale_world_tables: "mw_tables stale_world =
   \<lparr>t_schema = [unique_sub_index],
    t_record = [(uuid_to_string mem_crates 1, \<lparr>rr_state = ''fixed'', rr_kind = ''log'', rr_content_hash = Some (hash_to_string seven), rr_created_at = 5, rr_updated_at = 7\<rparr>)],
    t_version = [(uuid_to_string mem_crates 2, \<lparr>vw_record_id = 1, vw_body = PInline [7], vw_created_at = 5\<rparr>),
      (uuid_to_string mem_crates 3, \<lparr>vw_record_id = 1, vw_body = PInline [65], vw_created_at = 6\<rparr>)],
    t_created_by = [\<lparr>cb_in = (''creo_user'', ''ana''), cb_out = uuid_to_string mem_crates 1, cb_at = 5\<rparr>],
    t_snapshot_of = [], t_or_user = []\<rparr>"
  by (simp add: stale_world_def fixed_tables_def appended_world_tables map_entry_Cons two_keys)

lemma stale_world_faults: "mw_faults stale_world = []"
  by (simp add: stale_world_def appended_world_faults)

lemma add_in_record_world: "run (mem_ops False) (add_version mem_api_crates 1 (Inline [65])) record_world =
  (Done (Inr \<lparr>ver_id = VersionId 3, ver_body = Inline [65]\<rparr>), appended_world)"
  unfolding add_version_def prog_try_def query_checked_def
  by (simp add: eval_defs record_world_faults mem_query_def run_append record_world_tables two_keys appended_world_def
      body_to_persisted_def del: run_stmts.simps)

lemma freeze_in_appended_world: "run (mem_ops False) (transition_versions mem_api_crates 1 seven Log two_versions) appended_world =
  (Done (Inr (fixed_from_parts 1 Log seven two_versions)), stale_world)"
  unfolding transition_versions_def prog_try_def query_checked_def two_versions_def
  by (simp add: eval_defs rewrite_trailing_def appended_world_faults mem_query_def run_transition body_to_persisted_def
      stale_world_def del: run_stmts.simps)

lemma transition_in_appended_world: "run (mem_ops False) (transition_to_fixed mem_api_crates 1 seven) appended_world =
  (Done (Inr (fixed_from_parts 1 Log seven two_versions)), stale_world)"
  unfolding transition_to_fixed_def find_defs
  by (simp add: eval_defs appended_world_faults appended_world_tables freeze_in_appended_world [unfolded two_versions_def]
      two_versions_def)

lemma find_in_stale_world: "run (mem_ops False) (find_or_404 mem_api_crates 1) stale_world =
   (Done (Inr \<lparr>rwa_record = AnyFixed (fixed_from_parts 1 Log seven two_versions),
      rwa_attribution = \<lparr>pa_creator = ''creo_user:ana'', pa_at = 5\<rparr>\<rparr>), stale_world)"
  unfolding find_defs
  by (simp add: eval_defs stale_world_faults stale_world_tables parse_seven two_versions_def ok_or_def)

lemma find_in_appended_world: "run (mem_ops False) (find_or_404 mem_api_crates 1) appended_world =
   (Done (Inr \<lparr>rwa_record = AnyMutable (mutable_from_parts 1 Log two_versions),
      rwa_attribution = \<lparr>pa_creator = ''creo_user:ana'', pa_at = 5\<rparr>\<rparr>), appended_world)"
  unfolding find_defs
  by (simp add: eval_defs appended_world_faults appended_world_tables two_versions_def ok_or_def)

lemma open_router: "build_router ext app_state_new ep req = handler ext app_state_new ep req"
  by (rule router_open) (simp add: app_state_new_def)

lemma put_served: "run (mem_ops False) (build_router mem_api_crates app_state_new (PutRecord 1 \<lparr>ur_body = InlineB64 ''A''\<rparr>) req) record_world =
   (Done (Inr (RowResponse 200 None (build_row (mutable_from_parts 1 Log two_versions) PMutable None
      \<lparr>pa_creator = ''creo_user:ana'', pa_at = 5\<rparr>))), appended_world)"
proof -
  have "into_core_body mem_api_crates (InlineB64 ''A'') = Inr (Inline [65])"
    by (simp add: into_core_body_def mem_api_crates_def crates.defs byte_of_def)
  then show ?thesis
    by (simp add: open_router handler_def put_one_def run_try [OF find_in_record_world] run_try [OF run_api_call [OF add_in_record_world]]
        run_try [OF find_in_appended_world] json_row_def record_with_attribution_to_row_def)
qed

text \<open>The two requests: to freeze record 1 under the digest of \<open>[7]\<close>, and to append a version to it.\<close>

abbreviation freeze_request :: "response prog" where
  "freeze_request \<equiv> build_router mem_api_crates app_state_new
     (PostFix 1 \<lparr>fr_content_hash = hash_to_string (sha256_of mem_api_crates [7])\<rparr>) sample_upload"

abbreviation append_request :: "response prog" where
  "append_request \<equiv> build_router mem_api_crates app_state_new (PutRecord 1 \<lparr>ur_body = InlineB64 ''A''\<rparr>) sample_upload"

definition appended_row :: persisted_row where
  "appended_row = build_row (mutable_from_parts 1 Log two_versions) PMutable None \<lparr>pa_creator = ''creo_user:ana'', pa_at = 5\<rparr>"

definition stale_row :: persisted_row where
  "stale_row = build_row (fixed_from_parts 1 Log seven two_versions) PFixed (Some (hash_to_string seven))
     \<lparr>pa_creator = ''creo_user:ana'', pa_at = 5\<rparr>"

lemma late_freeze: "run (mem_ops False) (freeze mem_api_crates 1 seven) appended_world =
    (Done (Inr (RowResponse 200 None stale_row)), stale_world)"
  by (simp add: run_try [OF run_api_call [OF transition_in_appended_world]] run_try [OF find_in_stale_world]
      json_row_def record_with_attribution_to_row_def fixed_from_parts_def stale_row_def)

section \<open>Property\<close>

text \<open>C12: a freeze need not freeze the version it verified. Of a freeze and a put of one record in flight together,
  the put is answered first, with the row of a mutable record whose newest body it is; the freeze, which had
  verified the body before that one, then still freezes the record and answers 200 with a row whose digest is
  that of the older body while its newest body is the one of the put.\<close>

theorem freeze_of_unverified_body:
  "\<exists>p w row w' row'.
     (pool_step mem_api_crates (mem_ops False))\<^sup>*\<^sup>* ([freeze_request, append_request], record_world)
       ([p, Ret (Inr (RowResponse 200 None row))], w) \<and>
     pr_state (row_record row) = PMutable \<and> pv_body (last (row_versions row)) = PInline [65] \<and>
     run (mem_ops False) (find_or_404 mem_api_crates 1) w =
       (Done (Inr \<lparr>rwa_record = AnyMutable (mutable_from_parts 1 Log two_versions), rwa_attribution = row_attribution row\<rparr>), w) \<and>
     (pool_step mem_api_crates (mem_ops False))\<^sup>*\<^sup>* ([p, Ret (Inr (RowResponse 200 None row))], w)
       ([Ret (Inr (RowResponse 200 None row')), Ret (Inr (RowResponse 200 None row))], w') \<and>
     pr_state (row_record row') = PFixed \<and> row_versions row' = row_versions row \<and>
     pr_content_hash (row_record row') = Some (hash_to_string (sha256_of mem_api_crates [7])) \<and>
     sha256_of mem_api_crates [65] \<noteq> sha256_of mem_api_crates [7]"
proof -
  have body: "trailing_body (rec_versions sample_record) = Inr (Inline [7])"
    by (simp add: trailing_body_def sample_record_def record_new_def)
  have rows: "pr_state (row_record appended_row) = PMutable" "pv_body (last (row_versions appended_row)) = PInline [65]"
    "row_attribution appended_row = \<lparr>pa_creator = ''creo_user:ana'', pa_at = 5\<rparr>"
    "pr_state (row_record stale_row) = PFixed" "row_versions stale_row = row_versions appended_row"
    "pr_content_hash (row_record stale_row) = Some (hash_to_string (sha256_of mem_api_crates [7]))"
    by (simp_all add: appended_row_def stale_row_def build_row_def Let_def two_versions_def fixed_from_parts_def
        mutable_from_parts_def seven_def)
  have put: "run (mem_ops False) append_request record_world = (Done (Inr (RowResponse 200 None appended_row)), appended_world)"
    by (simp add: put_served appended_row_def)
  note schedule = unverified_schedule [where f = "\<lparr>fr_content_hash = hash_to_string (sha256_of mem_api_crates [7])\<rparr>"
      and st = app_state_new, OF _ find_in_record_world _ body _ _ put late_freeze]
  have "(pool_step mem_api_crates (mem_ops False))\<^sup>*\<^sup>* ([freeze_request, append_request], record_world)
      ([freeze mem_api_crates 1 seven, Ret (Inr (RowResponse 200 None appended_row))], appended_world)"
    by (rule schedule(1)) (simp_all add: seven_parsed seven_def [symmetric] computed_hash_def copy_to_fixed_def app_state_new_def)
  moreover have "(pool_step mem_api_crates (mem_ops False))\<^sup>*\<^sup>*
      ([freeze mem_api_crates 1 seven, Ret (Inr (RowResponse 200 None appended_row))], appended_world)
      ([Ret (Inr (RowResponse 200 None stale_row)), Ret (Inr (RowResponse 200 None appended_row))], stale_world)"
    by (rule schedule(2)) (simp_all add: seven_parsed seven_def [symmetric] computed_hash_def copy_to_fixed_def app_state_new_def)
  moreover have "sha256_of mem_api_crates [65] \<noteq> sha256_of mem_api_crates [7]"
    by (simp add: sha256_of_def)
  ultimately show ?thesis
    using rows find_in_appended_world by metis
qed

end
