(* ===== verification/Refreeze.thy ===== *)
theory Refreeze
  imports Races
begin

text \<open>
  A third race of requests in flight together: a freeze that has read the record before another one of the
  same record commits overwrites what that one stored, digest included.
\<close>

section \<open>Requests served while another one is suspended\<close>

lemma serve_in_pool:
  assumes "run ops (build_router ext st ep req) w = (out, w')"
  shows "(pool_step ext ops)\<^sup>*\<^sup>* (ps, w) (ps @ [halted out], w')"
proof -
  have "pool_step ext ops (ps, w) (ps @ [build_router ext st ep req], w)" by (rule pool_step.arrive)
  also have "(pool_step ext ops)\<^sup>*\<^sup>* (ps @ [build_router ext st ep req], w) (ps @ [halted out], w')"
    using halt_in_pool [OF assms, of "length ps" "ps @ [build_router ext st ep req]"] by simp
  finally show ?thesis .
qed

text \<open>A freeze, suspended between the read of the record and the transaction that writes it.\<close>

lemma freeze_reads:
  assumes "run ops (assemble ext i) w = (Done (Inr (Some rwa)), w1)" "rwa_record rwa = AnyMutable r"
    "j < length ps" "ps ! j = freeze ext i h"
  shows "(pool_step ext ops)\<^sup>*\<^sup>* (ps, w)
    (ps[j := prog_try (api_call (transition_versions ext i h (rec_kind r) (rec_versions r))) (\<lambda>_. reread ext i)], w1)"
proof -
  let ?rest = "\<lambda>p. prog_try (api_call p) (\<lambda>_. reread ext i)"
  define K :: "record_with_attribution option \<Rightarrow> (db_error + fixed orecord) prog" where "K = (\<lambda>found. case found of None \<Rightarrow> Ret (Inl (EmptyVersionChain i))
     | Some current \<Rightarrow> (case rwa_record current of
            AnyFixed _ \<Rightarrow> Ret (Inl (StateMismatch ''fixed'' ''mutable | snapshot''))
          | AnyMutable r \<Rightarrow> transition_versions ext i h (rec_kind r) (rec_versions r)
          | AnySnapshot r \<Rightarrow> transition_versions ext i h (rec_kind r) (rec_versions r)))"
  have "freeze ext i h = ?rest (prog_try (assemble ext i) K)"
    by (simp add: transition_to_fixed_def K_def)
  also have "\<dots> = prog_bind (assemble ext i) (\<lambda>found. ?rest (case found of Inl e \<Rightarrow> Ret (Inl e) | Inr x \<Rightarrow> K x))"
    by (simp only: prog_try_def api_call_def prog_map_err_def prog_bind_assoc)
  finally have "ps ! j = \<dots>" using assms(4) by simp
  from run_in_pool [OF assms(1,3) this, of ext] show ?thesis
    by (simp add: K_def assms(2))
qed

lemma overwrite_schedule:
  assumes hash: "api_parse_sha256_hex ext (fr_content_hash (f :: fix_record_request)) = Done (Inr h)"
    and found: "run ops (find_or_404 ext i) w = (Done (Inr rwa), w1)" "rwa_record rwa = AnyMutable r"
      "trailing_body (rec_versions r) = Inr b"
    and verified: "run ops (computed_hash ext st b) w1 = (Done (Inr h), w2)" "run ops (copy_to_fixed ext st b h) w2 = (Done (Inr ()), w3)"
    and read: "run ops (assemble ext i) w3 = (Done (Inr (Some rwa')), w4)" "rwa_record rwa' = AnyMutable r'"
    and others: "run ops (build_router ext st ep req') w4 = (out, w5)" "run ops (build_router ext st ep' req'') w5 = (out', w6)"
    and frozen: "run ops (transition_versions ext i h (rec_kind r') (rec_versions r')) w6 = (Done (Inr g), w7)"
    and open_state: "as_auth st = None"
  shows "\<exists>p. (pool_step ext ops)\<^sup>*\<^sup>* ([], w) ([p, halted out, halted out'], w6) \<and>
     (pool_step ext ops)\<^sup>*\<^sup>* ([p, halted out, halted out'], w6) ([reread ext i, halted out, halted out'], w7)"
proof -
  let ?fix = "build_router ext st (PostFix i f) req"
  let ?verify = "verify_and_freeze ext st i b h" and ?copied = "prog_try (copy_to_fixed ext st b h) (\<lambda>_. freeze ext i h)"
  let ?commit = "prog_try (api_call (transition_versions ext i h (rec_kind r') (rec_versions r'))) (\<lambda>_. reread ext i)"
  have start: "?fix = prog_try (find_or_404 ext i) (\<lambda>rwa.
     ret_try (case rwa_record rwa of
         AnyMutable r \<Rightarrow> trailing_body (rec_versions r)
       | AnySnapshot r \<Rightarrow> trailing_body (rec_versions r)
       | AnyFixed _ \<Rightarrow> Inl (StateConflict ''mutable | snapshot'' ''fixed'')) (\<lambda>last_body. verify_and_freeze ext st i last_body h))"
    using open_state by (simp add: router_open handler_def fix_one_def hash prog_try_simps)
  have "(pool_step ext ops)\<^sup>*\<^sup>* ([], w) ([?fix], w)"
    using pool_step.arrive [of ext ops "[]" w st "PostFix i f" req] by simp
  also have "(pool_step ext ops)\<^sup>*\<^sup>* ([?fix], w) ([?verify], w1)"
    using try_in_pool [OF found(1), of 0 "[?fix]", unfolded nth_Cons_0, OF _ start, of ext] by (simp add: found)
  also have "(pool_step ext ops)\<^sup>*\<^sup>* ([?verify], w1) ([?copied], w2)"
    using try_in_pool [OF verified(1), of 0 "[?verify]", unfolded nth_Cons_0, OF _ refl, of ext] by simp
  also have "(pool_step ext ops)\<^sup>*\<^sup>* ([?copied], w2) ([freeze ext i h], w3)"
    using try_in_pool [OF verified(2), of 0 "[?copied]", unfolded nth_Cons_0, OF _ refl, of ext] by simp
  also have "(pool_step ext ops)\<^sup>*\<^sup>* ([freeze ext i h], w3) ([?commit], w4)"
    using freeze_reads [OF read, of 0 "[freeze ext i h]" h] by simp
  also have "(pool_step ext ops)\<^sup>*\<^sup>* ([?commit], w4) ([?commit, halted out], w5)"
    using serve_in_pool [OF others(1), of "[?commit]"] by simp
  also have "(pool_step ext ops)\<^sup>*\<^sup>* ([?commit, halted out], w5) ([?commit, halted out, halted out'], w6)"
    using serve_in_pool [OF others(2), of "[?commit, halted out]"] by simp
  finally have "(pool_step ext ops)\<^sup>*\<^sup>* ([], w) ([?commit, halted out, halted out'], w6)" .
  moreover have "(pool_step ext ops)\<^sup>*\<^sup>* ([?commit, halted out, halted out'], w6) ([reread ext i, halted out, halted out'], w7)"
    using try_in_pool [OF run_api_call [OF frozen], of 0 "[?commit, halted out, halted out']", unfolded nth_Cons_0, OF _ refl, of ext] by simp
  ultimately show ?thesis by blast
qed

section \<open>The schedule on a concrete record\<close>

text \<open>A freeze of the body \<open>[7]\<close> has read the record; a put appends \<open>[65]\<close> and a second freeze stores that; then the
  first one writes.\<close>

definition other :: sha256_hash where
  "other = sha256_of mem_api_crates [65]"

definition refrozen_world :: mem_world where
  "refrozen_world = appended_world\<lparr>mw_tables := fixed_tables (uuid_to_string mem_crates 1) (hash_to_string other) 7
     (uuid_to_string mem_crates 3) (PInline [65]) (mw_tables appended_world), mw_clock := 8\<rparr>"

definition overwritten_world :: mem_world where
  "overwritten_world = refrozen_world\<lparr>mw_tables := fixed_tables (uuid_to_string mem_crates 1) (hash_to_string seven) 8
     (uuid_to_string mem_crates 2) (PInline [7]) (mw_tables refrozen_world), mw_clock := 9\<rparr>"

lemma other_wf: "hash_wf other"
  by (simp add: other_def sha256_of_def hash_wf_def)

lemma other_parsed: "api_parse_sha256_hex mem_api_crates (hash_to_string other) = Done (Inr other)"
  using other_wf by (simp add: api_parse_hash)

lemma parse_other: "Convert.parse_sha256_hex (hash_to_string other) = Inr (hash_bytes other)"
  by (rule parse_sha256_hex_hash [OF other_wf])

lemma refrozen_world_tables: "mw_tables refrozen_world = (mw_tables appended_world)\<lparr>
    t_record := [(uuid_to_string mem_crates 1, \<lparr>rr_state = ''fixed'', rr_kind = ''log'', rr_content_hash = Some (hash_to_string other), rr_created_at = 5, rr_updated_at = 7\<rparr>)]\<rparr>"
  by (simp add: refrozen_world_def fixed_tables_def appended_world_tables map_entry_Cons two_keys)

lemma overwritten_world_tables: "mw_tables overwritten_world = (mw_tables appended_world)\<lparr>
    t_record := [(uuid_to_string mem_crates 1, \<lparr>rr_state = ''fixed'', rr_kind = ''log'', rr_content_hash = Some (hash_to_string seven), rr_created_at = 5, rr_updated_at = 8\<rparr>)]\<rparr>"
  by (simp add: overwritten_world_def fixed_tables_def refrozen_world_tables appended_world_tables map_entry_Cons two_keys)

lemma overwritten_world_faults: "mw_faults refrozen_world = []" "mw_clock refrozen_world = 8" "mw_faults overwritten_world = []"
  by (simp_all add: refrozen_world_def overwritten_world_def appended_world_faults)

lemma find_in_refrozen_world: "run (mem_ops False) (find_or_404 mem_api_crates 1) refrozen_world =
   (Done (Inr \<lparr>rwa_record = AnyFixed (fixed_from_parts 1 Log other two_versions),
      rwa_attribution = \<lparr>pa_creator = ''creo_user:ana'', pa_at = 5\<rparr>\<rparr>), refrozen_world)"
  unfolding find_defs
  by (simp add: eval_defs overwritten_world_faults refrozen_world_tables appended_world_tables parse_other two_versions_def ok_or_def)

lemma find_in_overwritten_world: "run (mem_ops False) (find_or_404 mem_api_crates 1) overwritten_world =
   (Done (Inr \<lparr>rwa_record = AnyFixed (fixed_from_parts 1 Log seven two_versions),
      rwa_attribution = \<lparr>pa_creator = ''creo_user:ana'', pa_at = 5\<rparr>\<rparr>), overwritten_world)"
  unfolding find_defs
  by (simp add: eval_defs overwritten_world_faults overwritten_world_tables appended_world_tables parse_seven two_versions_def ok_or_def)

lemma assemble_in_record_world: "run (mem_ops False) (assemble mem_api_crates 1) record_world =
   (Done (Inr (Some \<lparr>rwa_record = AnyMutable sample_record, rwa_attribution = \<lparr>pa_creator = ''creo_user:ana'', pa_at = 5\<rparr>\<rparr>)), record_world)"
  unfolding find_defs
  by (simp add: eval_defs record_world_faults record_world_tables sample_record_def record_new_def)

lemma transition_in_appended: "run (mem_ops False) (transition_to_fixed mem_api_crates 1 other) appended_world =
  (Done (Inr (fixed_from_parts 1 Log other two_versions)), refrozen_world)"
proof -
  have "run (mem_ops False) (transition_versions mem_api_crates 1 other Log two_versions) appended_world =
      (Done (Inr (fixed_from_parts 1 Log other two_versions)), refrozen_world)"
    unfolding transition_versions_def prog_try_def query_checked_def two_versions_def
    by (simp add: eval_defs rewrite_trailing_def appended_world_faults mem_query_def run_transition body_to_persisted_def
        refrozen_world_def del: run_stmts.simps)
  then show ?thesis
    unfolding transition_to_fixed_def find_defs
    by (simp add: eval_defs appended_world_faults appended_world_tables two_versions_def)
qed

lemma late_write: "run (mem_ops False) (transition_versions mem_api_crates 1 seven (rec_kind sample_record) (rec_versions sample_record))
     refrozen_world = (Done (Inr (fixed_from_parts 1 Log seven (rec_versions sample_record))), overwritten_world)"
  unfolding transition_versions_def prog_try_def query_checked_def sample_record_def record_new_def
  by (simp add: eval_defs rewrite_trailing_def overwritten_world_faults mem_query_def run_transition body_to_persisted_def
      overwritten_world_def del: run_stmts.simps)

text \<open>The second freeze is served whole and answers 200 with the row as it then is.\<close>

lemma second_freeze_served: "run (mem_ops False) (build_router mem_api_crates app_state_new (PostFix 1 \<lparr>fr_content_hash = hash_to_string other\<rparr>) req) appended_world =
   (Done (Inr (RowResponse 200 None (build_row (fixed_from_parts 1 Log other two_versions) PFixed (Some (hash_to_string other))
      \<lparr>pa_creator = ''creo_user:ana'', pa_at = 5\<rparr>))), refrozen_world)"
proof -
  have "trailing_body (rec_versions (mutable_from_parts 1 Log two_versions)) = Inr (Inline [65])"
    by (simp add: trailing_body_def mutable_from_parts_def two_versions_def)
  then show ?thesis
    by (simp add: open_router handler_def fix_one_def other_parsed run_try [OF find_in_appended_world] computed_hash_def
        other_def [symmetric] copy_to_fixed_def run_try [OF run_api_call [OF transition_in_appended]]
        run_try [OF find_in_refrozen_world] json_row_def record_with_attribution_to_row_def fixed_from_parts_def)
qed

section \<open>Property\<close>

text \<open>C13: a fixed record is not fixed for good when requests are in flight together: after a freeze has
  been answered with 200 and a digest, a freeze that had read the record before can still write, and the
  record, still fixed and with the same trailing body, then carries the digest of an older body.\<close>

theorem fixed_digest_overwritten:
  "\<exists>ps w ps' w' f f' a a'.
     (pool_step mem_api_crates (mem_ops False))\<^sup>*\<^sup>* ([], record_world) (ps, w) \<and>
     (pool_step mem_api_crates (mem_ops False))\<^sup>*\<^sup>* (ps, w) (ps', w') \<and>
     run (mem_ops False) (find_or_404 mem_api_crates 1) w = (Done (Inr \<lparr>rwa_record = AnyFixed f, rwa_attribution = a\<rparr>), w) \<and>
     run (mem_ops False) (find_or_404 mem_api_crates 1) w' = (Done (Inr \<lparr>rwa_record = AnyFixed f', rwa_attribution = a'\<rparr>), w') \<and>
     rec_versions f' = rec_versions f \<and> record_body f = Some (Inline [65]) \<and>
     rec_content_hash f = Some (sha256_of mem_api_crates [65]) \<and>
     rec_content_hash f' = Some (sha256_of mem_api_crates [7]) \<and>
     sha256_of mem_api_crates [65] \<noteq> sha256_of mem_api_crates [7]"
proof -
  have body: "trailing_body (rec_versions sample_record) = Inr (Inline [7])"
    by (simp add: trailing_body_def sample_record_def record_new_def)
  obtain ps ps' where "(pool_step mem_api_crates (mem_ops False))\<^sup>*\<^sup>* ([], record_world) (ps, refrozen_world)"
    "(pool_step mem_api_crates (mem_ops False))\<^sup>*\<^sup>* (ps, refrozen_world) (ps', overwritten_world)"
    using overwrite_schedule [where f = "\<lparr>fr_content_hash = hash_to_string seven\<rparr>" and st = app_state_new,
        OF _ find_in_record_world _ body _ _ assemble_in_record_world _ put_served second_freeze_served late_write]
    by (auto simp: seven_parsed computed_hash_def copy_to_fixed_def seven_def [symmetric] app_state_new_def)
  moreover have "sha256_of mem_api_crates [65] \<noteq> sha256_of mem_api_crates [7]"
    by (simp add: sha256_of_def)
  ultimately show ?thesis
    using find_in_refrozen_world find_in_overwritten_world
    by (fastforce simp: fixed_from_parts_def two_versions_def record_body_def seven_def other_def)
qed

end
