(* ===== verification/Divergences.thy ===== *)
theory Divergences
  imports Refreeze
begin

text \<open>
  Where the code does not do what its documentation says, on the model: versions appended to a record that
  does not exist, and the reserved prefix of a custom kind.
\<close>

section \<open>A version that belongs to no record\<close>

text \<open>\<open>add_version\<close> does not look whether the record exists: it commits a version and reports it, no record is there to
  read it back from, and the tables are no longer as every sequence of the service's own requests leaves them.\<close>

lemma add_version_orphans:
  assumes "backend ext ops tables blobs" and "uuid_to_string ext i \<notin> fst ` set (t_record (tables w))"
    and "run ops (add_version ext i b) w = (Done (Inr v), w')"
  shows "t_record (tables w') = t_record (tables w) \<and>
    (\<exists>row. (uuid_to_string ext (version_uuid (ver_id v)), row) \<in> set (t_version (tables w')) \<and> vw_record_id row = i) \<and>
    \<not> repo_ok ext (tables w')"
proof -
  define row where "row bd now = \<lparr>vw_record_id = i, vw_body = bd, vw_created_at = now\<rparr>" for bd now
  have "wp ops (add_version ext i b) (\<lambda>res w'. \<forall>v. res = Inr v \<longrightarrow> (\<exists>bd now.
      tables w' = appended_tables (uuid_to_string ext (version_uuid (ver_id v))) (row bd now) (uuid_to_string ext i) now (tables w))) w"
    by (rule backend.wp_add_version [OF assms(1)]) (auto simp: row_def)
  from wp_run [OF this assms(3)] obtain bd now where
    t: "tables w' = appended_tables (uuid_to_string ext (version_uuid (ver_id v))) (row bd now) (uuid_to_string ext i) now (tables w)"
    by auto
  then have "t_record (tables w') = t_record (tables w)"
    using assms(2) by (simp add: appended_tables_def map_entry_absent map_of_eq_None_iff)
  moreover from this have "view ext (tables w') i = None"
    using assms(2) by (simp add: view_None map_of_eq_None_iff)
  then have "\<not> repo_ok ext (tables w')"
    using t no_orphansD [of ext "tables w'" i] by (auto simp: repo_ok_def versions_of_def appended_tables_def row_def)
  ultimately show ?thesis
    using t by (auto simp: appended_tables_def row_def)
qed

section \<open>The reserved prefix\<close>

lemma reserved_prefix_accepted: "parse_kind (RESERVED_CUSTOM_PREFIX @ s) = Inr (Custom (RESERVED_CUSTOM_PREFIX @ s))"
  by (simp add: parse_kind_def RESERVED_CUSTOM_PREFIX_def)

end
