(* ===== verification/Users_Race.thy ===== *)
theory Users_Race
  imports Interleaving
begin

text \<open>
  Two requests of a new subject at once: both look for the user, find none, and create it. The unique index lets one
  of them win; the theory shows that the other one, wherever it was suspended, returns the winner's user.
\<close>

section \<open>After another request has created the user\<close>

text \<open>\<open>upsert_or_user\<close> from its \<open>CREATE\<close> on.\<close>

definition create_or_find :: "'x crates_scheme \<Rightarrow> string \<Rightarrow> uuid \<Rightarrow> datetime \<Rightarrow> (db_error + or_user) prog" where
  "create_or_find ext s u now =
     prog_try (surreal_read (Query (Statements [CreateOrUser (uuid_to_string ext u) s now]) Ret)) (\<lambda>result.
     case result of
       Inr _ \<Rightarrow> Ret (Inr \<lparr>or_id = u, or_auth0_sub = s, or_created_at = now\<rparr>)
     | Inl _ \<Rightarrow> prog_try (find_or_user_by_sub ext s) (\<lambda>again. Ret (ok_or (MalformedHash (reselect_missed_message ext s)) again)))"

lemma transpose_Some: "transpose_result (Some r) = map_ok Some r"
  by (cases r) simp_all

lemma upsert_steps:
  "upsert_or_user ext s = SelectOrUser s (\<lambda>reply. case reply of
     Inl e \<Rightarrow> Ret (Inl (Surreal e))
   | Inr None \<Rightarrow> NowV7 (\<lambda>u. UtcNow (create_or_find ext s u))
   | Inr (Some row) \<Rightarrow> Ret (into_or_user ext row))"
  by (auto simp: upsert_or_user_def find_or_user_by_sub_def surreal_read_def prog_map_err_def prog_try_def map_err_def
      map_ok_def transpose_Some create_or_find_def [abs_def] fun_eq_iff split: sum.splits option.splits)

context backend
begin

text \<open>What the loser of the race answers.\<close>

abbreviation answers_user :: "'w \<Rightarrow> or_user \<Rightarrow> db_error + or_user \<Rightarrow> 'w \<Rightarrow> bool" where
  "answers_user w u \<equiv> \<lambda>res w'. tables w' = tables w \<and> (res = Inr u \<or> can_fail ops tables \<and> (\<exists>e. res = Inl e))"

lemma user_row:
  assumes "users_ok ext t" "user_view ext t s = Some u"
  obtains r where "or_users_of s t = [r]" "r \<in> set (t_or_user t)" "user_of_row ext r = u"
    "unique_sub_index \<in> set (t_schema t)" "s \<in> (fst \<circ> snd) ` set (t_or_user t)"
proof -
  obtain r where r: "or_users_of s t = [r]" "r \<in> set (t_or_user t)" "user_of_row ext r = u"
    using users_of_sub [OF assms(1), of s] assms(2) by (auto simp: user_view_def)
  then have "r \<in> set (or_users_of s t)" by simp
  then have "fst (snd r) = s" by (simp add: or_users_of_def)
  then have "s \<in> (fst \<circ> snd) ` set (t_or_user t)" using r(2) by force
  then show ?thesis using that [OF r] assms(1) by (simp add: users_ok_def)
qed

lemma find_created:
  assumes "users_ok ext (tables w)" "user_view ext (tables w) s = Some u"
  shows "wp ops (find_or_user_by_sub ext s) (\<lambda>res w'. tables w' = tables w \<and>
    (res = Inr (Some u) \<or> can_fail ops tables \<and> (\<exists>e. res = Inl e))) w"
proof -
  obtain r where "or_users_of s (tables w) = [r]" "r \<in> set (t_or_user (tables w))" "user_of_row ext r = u"
    using user_row [OF assms] .
  then show ?thesis by (intro wp_find_or_user) (auto simp: into_or_user_row [OF assms(1)])
qed

lemma upsert_existing:
  assumes "users_ok ext (tables w)" "user_view ext (tables w) s = Some u"
  shows "wp ops (upsert_or_user ext s) (answers_user w u) w"
proof -
  obtain r where "or_users_of s (tables w) = [r]" "r \<in> set (t_or_user (tables w))" "user_of_row ext r = u"
    using user_row [OF assms] .
  then show ?thesis by (intro wp_upsert_or_user) (auto simp: into_or_user_row [OF assms(1)])
qed

lemma create_rejected:
  assumes ok: "users_ok ext (tables w)" and u: "user_view ext (tables w) s = Some u"
  shows "wp ops (create_or_find ext s v now) (answers_user w u) w"
proof -
  have rejected: "run_stmts [CreateOrUser (uuid_to_string ext v) s now] (tables w) = None"
    using user_row [OF assms] by (simp split: option.splits) metis
  have again: "wp ops (prog_try (find_or_user_by_sub ext s) (\<lambda>again.
      Ret (ok_or (MalformedHash (reselect_missed_message ext s)) again))) (answers_user w u) w1" if "tables w1 = tables w" for w1
    unfolding wp_prog_try
    by (rule wp_mono [OF find_created [of w1 s u]]) (use ok u that in auto)
  show ?thesis
    unfolding create_or_find_def surreal_read_def wp_prog_try [of _ "prog_map_err g p" for g p] wp_prog_map_err
    by (rule wp_query [OF atomic_stmts.simps(2)]) (use rejected again in \<open>auto simp del: run_stmts.simps wp_prog_try\<close>)
qed

lemma lost_race_law:
  assumes none: "user_view ext (tables w) s = None" and calls: "n \<le> 3" "run_calls ops n (upsert_or_user ext s, w) = (p, w1)"
    and ok: "users_ok ext (tables w2)" and u: "user_view ext (tables w2) s = Some u"
  shows "wp ops p (answers_user w2 u) w2"
proof -
  have same: "users_ok ext (tables w')" "user_view ext (tables w') s = Some u" if "tables w' = tables w2" for w'
    using ok u that by simp_all
  have create: "wp ops (create_or_find ext s v now) (answers_user w2 u) w'" if "tables w' = tables w2" for v now w'
    using create_rejected [OF same [OF that], of v now] that by simp
  have clock: "wp ops (UtcNow (create_or_find ext s v)) (answers_user w2 u) w'" if "tables w' = tables w2" for v w'
    by (rule wp_utc_now) (use create that in simp)
  have ids: "wp ops (NowV7 (\<lambda>v. UtcNow (create_or_find ext s v))) (answers_user w2 u) w2"
    by (rule wp_now_v7) (rule clock)
  have failed: "wp ops (Ret (Inl e)) (answers_user w2 u) w2" if "can_fail ops tables" for e
    using that by simp
  have empty: "or_users_of s (tables w) = []"
    using none by (auto simp: user_view_def split: list.splits)
  obtain reply w0 where reply: "do_select_or_user ops s w = (reply, w0)" by (cases "do_select_or_user ops s w")
  consider (lost) e where "reply = Inl e" "can_fail ops tables" | (none) "reply = Inr None"
    using reply select_or_user_reply [of s w _ w0] empty can_fail.or_user_lost [of ops s w _ w0 tables]
    by (cases reply) (force split: option.splits)+
  then show ?thesis
  proof cases
    case lost
    have stop: "run_calls ops k (Ret (Inl (Surreal e) :: db_error + or_user), w0) = (Ret (Inl (Surreal e)), w0)" for k
      by (cases k) simp_all
    show ?thesis
      using calls(2) reply lost upsert_existing [OF ok u] failed
      by (cases n) (auto simp: upsert_steps stop)
  next
    case none
    have "n = 0 \<or> n = 1 \<or> n = 2 \<or> n = 3" using calls(1) by auto
    then show ?thesis
      using calls(2) reply none upsert_existing [OF ok u] ids clock create
      by (elim disjE) (auto simp: upsert_steps numeral_2_eq_2 numeral_3_eq_3 apfst_def map_prod_def split: prod.splits)
  qed
qed

end

section \<open>Property\<close>

text \<open>C21: a request that loses the race to create its user still answers: suspended anywhere between its look-up, which
  found no user of the subject, and its \<open>CREATE\<close>, while another request creates that user, it returns the user that
  was created and adds none, by looking a second time when the unique index rejects its row. It fails only
  when a call of the database can.\<close>

theorem upsert_survives_lost_race:
  assumes "backend ext ops tables blobs" and "user_view ext (tables w) s = None"
    and "n \<le> 3" "run_calls ops n (upsert_or_user ext s, w) = (p, w1)"
    and "users_ok ext (tables w2)" "user_view ext (tables w2) s = Some u"
  shows "wp ops p (\<lambda>res w'. tables w' = tables w2 \<and> (res = Inr u \<or> can_fail ops tables \<and> (\<exists>e. res = Inl e))) w2"
  using backend.lost_race_law [OF assms] .

text \<open>The user that another request has created meanwhile.\<close>

definition raced_world :: mem_world where
  "raced_world = users_world\<lparr>mw_tables := empty_tables\<lparr>t_schema := [unique_sub_index],
     t_or_user := [(uuid_to_string mem_crates 9, ''auth0|ana'', 5)]\<rparr>\<rparr>"

lemma upsert_survives_lost_race_witness:
  "\<exists>p w1. run_calls (mem_ops False) 3 (upsert_or_user mem_crates ''auth0|ana'', users_world) = (p, w1) \<and>
     wp (mem_ops False) p (\<lambda>res w'. mw_tables w' = mw_tables raced_world \<and>
       (res = Inr \<lparr>or_id = 9, or_auth0_sub = ''auth0|ana'', or_created_at = 5\<rparr> \<or>
        can_fail (mem_ops False) mw_tables \<and> (\<exists>e. res = Inl e))) raced_world"
proof -
  obtain p w1 where calls: "run_calls (mem_ops False) 3 (upsert_or_user mem_crates ''auth0|ana'', users_world) = (p, w1)"
    by (cases "run_calls (mem_ops False) 3 (upsert_or_user mem_crates ''auth0|ana'', users_world)")
  have none: "user_view mem_crates (mw_tables users_world) ''auth0|ana'' = None"
    by (simp add: user_view_def or_users_of_def users_world_def empty_tables_def)
  have "users_ok mem_crates (mw_tables raced_world)"
    by (auto simp: users_ok_def raced_world_def)
  moreover have "user_view mem_crates (mw_tables raced_world) ''auth0|ana'' =
      Some \<lparr>or_id = 9, or_auth0_sub = ''auth0|ana'', or_created_at = 5\<rparr>"
    by (simp add: user_view_def or_users_of_def raced_world_def user_of_row_def mem_text.uuid_parse_to_string)
  ultimately show ?thesis
    using calls upsert_survives_lost_race [OF mem.backend_axioms none _ calls] by blast
qed

end
