(* ===== verification/Startup_Spec.thy ===== *)
theory Startup_Spec
  imports Service_Spec
begin

text \<open>
  Startup and the service together: what connecting, applying the schema and building the state do to a
  database with or without data, and that a server that has started serves from a good world. The laws on DDL and on the
  calls only startup makes are the locale \<open>startup_services\<close>.
\<close>

section \<open>The services startup runs on\<close>

definition rows_same :: "tables \<Rightarrow> tables \<Rightarrow> bool" where
  "rows_same t t' \<longleftrightarrow> t' = t\<lparr>t_schema := t_schema t'\<rparr>"

lemma last_define: "run_stmts (map Define ds) t = Some t' \<Longrightarrow> ds \<noteq> [] \<Longrightarrow> last ds \<in> set (t_schema t')"
  by (cases ds rule: rev_cases) (auto simp: run_defines simp del: map_append)

lemma rows_same_refl [simp]: "rows_same t t"
  by (simp add: rows_same_def)

lemma rows_same_trans: "rows_same a b \<Longrightarrow> rows_same b c \<Longrightarrow> rows_same a c"
  by (cases a; cases b; cases c) (simp add: rows_same_def)

lemma wp_keeps: "wp ops p Q w \<Longrightarrow> keeps ops R p \<Longrightarrow> wp ops p (\<lambda>r w'. Q r w' \<and> R w w') w"
  unfolding wp_def keeps_def by (auto split: prod.splits outcome.splits) (metis snd_conv)

text \<open>The database rejects some of the DDL it is sent.\<close>

definition ddl_rejected :: "'w world_ops \<Rightarrow> bool" where
  "ddl_rejected ops \<longleftrightarrow> (\<exists>ds e w w'. do_query ops (Statements (map Define ds)) w = (Inr (Inl e), w'))"

locale startup_services = api_services ext ops tables blobs
  for ext :: "'x api_crates_scheme" and ops :: "'w world_ops"
    and tables :: "'w \<Rightarrow> tables" and blobs :: "'w \<Rightarrow> string \<Rightarrow> byte list option" +
  assumes connect_rows: "do_connect ops a w = (r, w') \<Longrightarrow> tables w' = tables w \<and> blobs w' = blobs w"
    and signin_rows: "do_signin ops a b w = (r, w') \<Longrightarrow> tables w' = tables w \<and> blobs w' = blobs w"
    and use_rows: "do_use ops a b w = (r, w') \<Longrightarrow> tables w' = tables w \<and> blobs w' = blobs w"
    and http_rows: "do_http_get ops u w = (rt, w') \<Longrightarrow> tables w' = tables w \<and> blobs w' = blobs w"
    and build_rows: "do_s3_build ops c w = (ro, w') \<Longrightarrow> tables w' = tables w \<and> blobs w' = blobs w"
    and ddl_rows: "do_query ops (Statements (map Define ds)) w = (rq, w') \<Longrightarrow> rows_same (tables w) (tables w')"
    and ddl_done: "do_query ops (Statements (map Define ds)) w = (Inr (Inr ()), w') \<Longrightarrow>
      run_stmts (map Define ds) (tables w) = Some (tables w')"
begin

abbreviation same_rows :: "'w \<Rightarrow> 'w \<Rightarrow> bool" where
  "same_rows w w' \<equiv> rows_same (tables w) (tables w') \<and> blobs w' = blobs w"

lemma same_rows_frame: "frame same_rows"
  by unfold_locales (auto intro: rows_same_trans)

lemma wp_query_unchecked:
  assumes "\<And>e w'. same_rows w w' \<Longrightarrow> Q (Inl (Surreal e)) w'"
    and "\<And>w'. same_rows w w' \<Longrightarrow> ddl_rejected ops \<or> run_stmts (map Define ds) (tables w) = Some (tables w') \<Longrightarrow> Q (Inr ()) w'"
  shows "wp ops (query_unchecked (map Define ds)) Q w"
proof (cases "do_query ops (Statements (map Define ds)) w")
  case (Pair r w')
  have same: "same_rows w w'" using ddl_rows [OF Pair] db_keeps_blobs(3) [OF Pair] by simp
  show ?thesis
  proof (cases r)
    case (Inl e)
    then show ?thesis using Pair assms(1) [OF same] by (simp add: query_unchecked_def surreal_read_def wp_calls)
  next
    case (Inr b)
    then have "ddl_rejected ops \<or> run_stmts (map Define ds) (tables w) = Some (tables w')"
      using Pair ddl_done [of ds w w'] unfolding ddl_rejected_def by (cases b) auto
    then show ?thesis
      using Pair Inr assms(2) [OF same] by (simp add: query_unchecked_def surreal_read_def wp_calls)
  qed
qed

lemma wp_connect:
  "wp ops (connect c) (\<lambda>res w'. same_rows w w' \<and>
     (res = Inr () \<longrightarrow> ddl_rejected ops \<or> unique_sub_index \<in> set (t_schema (tables w')))) w"
  (is "wp ops _ (?good w) w")
proof -
  have trans: "same_rows u x" if "same_rows u v" "same_rows v x" for u v x
    using that frame.frame_trans [OF same_rows_frame] by blast
  have start: "wp ops (surreal_read p) (\<lambda>res w'. same_rows u w') u"
    if "p \<in> {SurrealConnect a Ret, SurrealSignin b d Ret, SurrealUse f g Ret}" for p u a b d f g
    using that connect_rows signin_rows use_rows
    by (auto simp: surreal_read_def wp_calls split: prod.splits)
  have ddl: "wp ops (prog_try (query_unchecked (map Define ds)) k) (?good w) u"
    if "same_rows w u" "\<And>v. same_rows w v \<Longrightarrow> ddl_rejected ops \<or> run_stmts (map Define ds) (tables u) = Some (tables v) \<Longrightarrow>
      wp ops (k ()) (?good w) v"
    for ds u and k :: "unit \<Rightarrow> (db_error + unit) prog"
    unfolding wp_prog_try
  proof (rule wp_query_unchecked, goal_cases)
    case (1 e v)
    then show ?case using trans [OF that(1)] by simp
  next
    case (2 v)
    then show ?case using trans [OF that(1)] that(2) by simp
  qed
  have index: "unique_sub_index \<in> set (t_schema t')"
    if "run_stmts (map Define [DefineTable ''or_user'' Schemafull, DefineField ''auth0_sub'' ''or_user'' ''string'' False,
      DefineField ''created_at'' ''or_user'' ''datetime'' False,
      DefineIndex ''idx_or_user_auth0_sub'' ''or_user'' ''auth0_sub'' True]) t = Some t'" for t t'
    using last_define [OF that] by (simp add: unique_sub_index_def)
  have schema: "wp ops schema_apply (?good w) u" if "same_rows w u" for u
    unfolding schema_apply_def RECORD_TABLE_def VERSION_TABLE_def CREATED_BY_EDGE_def SNAPSHOT_OF_EDGE_def OR_USER_TABLE_def
    by (intro ddl that) (auto dest: index simp del: run_stmts.simps list.map)
  have schema': "wp ops (prog_try schema_apply (\<lambda>_. Ret (Inr ()))) (?good w) u" if "same_rows w u" for u
    unfolding wp_prog_try by (rule wp_mono [OF schema [OF that]]) (auto split: sum.splits)
  have next_call: "wp ops (prog_try (surreal_read p) k) (?good w) u"
    if "p \<in> {SurrealConnect a Ret, SurrealSignin b d Ret, SurrealUse f g Ret}" "same_rows w u"
      "\<And>v. same_rows w v \<Longrightarrow> wp ops (k ()) (?good w) v" for p u a b d f g and k :: "unit \<Rightarrow> (db_error + unit) prog"
    unfolding wp_prog_try by (rule wp_mono [OF start [OF that(1)]]) (use that(3) trans [OF that(2)] in \<open>auto split: sum.splits\<close>)
  show ?thesis
    unfolding connect_def by (intro next_call schema') auto
qed

text \<open>What follows the connection only reads the environment, fetches the keys and builds the client.\<close>

abbreviation same_data :: "'w \<Rightarrow> 'w \<Rightarrow> bool" where
  "same_data w w' \<equiv> tables w' = tables w \<and> blobs w' = blobs w"

lemma same_data_frame: "frame same_data"
  by unfold_locales auto

lemmas data_combinators = frame.keeps_combinators [OF same_data_frame]

lemma keeps_outside:
  "keeps ops same_data (HttpGetText u Ret)" "keeps ops same_data (S3Build c Ret)"
  using http_rows build_rows by (auto simp: keeps_def split: prod.splits)

lemma keeps_configured:
  "keeps ops same_data (ret_try (map_err StartAuthEnv (auth_env_from_vars (non_blank vars))) (\<lambda>auth_env.
     prog_try (auth_part ext auth_env) (storage_part ext vars)))"
  unfolding s3_from_config_def
  by (auto intro!: data_combinators keeps_outside split: auth_env.splits storage_env.splits)

lemma wp_startup:
  "wp ops (startup ext vars) (\<lambda>res w'. same_rows w w' \<and>
     (\<forall>st. res = Inr st \<longrightarrow>
       (ddl_rejected ops \<or> unique_sub_index \<in> set (t_schema (tables w'))) \<and> state_as_configured vars st)) w"
  unfolding startup_def wp_prog_try [of _ "prog_map_err StartDb p" for p] wp_prog_map_err
proof (rule wp_mono [OF wp_connect], goal_cases)
  case (1 res w1)
  show ?case
  proof (cases "map_err StartDb res")
    case (Inl e)
    then show ?thesis using 1 by simp
  next
    case (Inr u)
    then have w1: "same_rows w w1" "ddl_rejected ops \<or> unique_sub_index \<in> set (t_schema (tables w1))"
      using 1 by (simp_all add: map_err_eq_Inr)
    have "wp ops (ret_try (map_err StartAuthEnv (auth_env_from_vars (non_blank vars))) (\<lambda>auth_env.
         prog_try (auth_part ext auth_env) (storage_part ext vars)))
       (\<lambda>res w'. same_rows w w' \<and>
         (\<forall>st. res = Inr st \<longrightarrow>
       (ddl_rejected ops \<or> unique_sub_index \<in> set (t_schema (tables w'))) \<and> state_as_configured vars st)) w1"
      by (rule wp_mono [OF wp_keeps [OF configured_law keeps_configured]]) (use w1 in \<open>auto split: sum.splits\<close>)
    then show ?thesis by (simp only: Inr sum.case)
  qed
qed

end

section \<open>Data that a server may find\<close>

text \<open>The invariant of the service without the schema: the empty database has it, and so has every database a
  server has served.\<close>

definition data_ok ::
  "'x api_crates_scheme \<Rightarrow> ('w \<Rightarrow> tables) \<Rightarrow> ('w \<Rightarrow> string \<Rightarrow> byte list option) \<Rightarrow> 'w \<Rightarrow> bool" where
  "data_ok ext tables blobs w \<longleftrightarrow>
     repo_ok ext (tables w) \<and> users_ok ext ((tables w)\<lparr>t_schema := [unique_sub_index]\<rparr>) \<and> content_ok ext (blobs w)"

lemma service_data_ok: "service_ok ext tables blobs w \<Longrightarrow> data_ok ext tables blobs w"
  by (simp add: service_ok_def data_ok_def users_ok_def)

lemma empty_data_ok: "tables w = empty_tables \<Longrightarrow> blobs w = Map.empty \<Longrightarrow> data_ok ext tables blobs w"
  by (simp add: data_ok_def users_ok_def content_ok_def empty_tables_def repo_ok_def repo_inv_empty no_orphans_def versions_of_def)

lemma rows_same_reads:
  assumes "rows_same t t'"
  shows "repo_ok ext t' = repo_ok ext t" "view ext t' = view ext t" "t_or_user t' = t_or_user t"
    "users_ok ext t' \<longleftrightarrow> unique_sub_index \<in> set (t_schema t') \<and> users_ok ext (t\<lparr>t_schema := [unique_sub_index]\<rparr>)"
proof -
  obtain S where t': "t' = t\<lparr>t_schema := S\<rparr>" using assms by (simp add: rows_same_def)
  show "repo_ok ext t' = repo_ok ext t"
    by (simp add: t' repo_ok_def repo_inv_def no_orphans_def record_wf_def versions_of_def edges_to_def)
  show "view ext t' = view ext t"
    by (rule ext, simp add: t' view_def versions_of_def edges_to_def)
  show "t_or_user t' = t_or_user t"
    "users_ok ext t' \<longleftrightarrow> unique_sub_index \<in> set (t_schema t') \<and> users_ok ext (t\<lparr>t_schema := [unique_sub_index]\<rparr>)"
    by (simp_all add: t' users_ok_def)
qed

interpretation mem_startup: startup_services mem_api_crates "mem_ops f" mw_tables mem_blobs
proof (unfold_locales, goal_cases)
  case (6 ds w rq w')
  then show ?case
    by (auto simp: mem_ops_def mem_call_def mem_query_def run_defines rows_same_def split: list.splits if_splits)
next
  case (7 ds w w')
  then show ?case
    by (auto simp: mem_ops_def mem_call_def mem_query_def run_defines split: list.splits if_splits)
qed (auto simp: mem_ops_def mem_call_def mem_blobs_def split: list.splits if_splits)

section \<open>Property\<close>

text \<open>C8: a server that starts, on an empty database or on one that a server has left, finds every record, user and
  blob as they were, with the switches as the environment says. Unless the database rejects some of the DDL,
  which startup does not notice, it serves from a world with the invariant of the service, the unique index on
  subjects included, and from an empty database and bucket this is where the histories of requests begin.\<close>

theorem startup_then_serves:
  assumes "startup_services ext ops tables blobs" and "data_ok ext tables blobs w"
    and "run ops (startup ext vars) w = (Done (Inr st), w')"
  shows "data_ok ext tables blobs w' \<and> view ext (tables w') = view ext (tables w) \<and>
     t_or_user (tables w') = t_or_user (tables w) \<and> blobs w' = blobs w \<and> state_as_configured vars st \<and>
     (\<not> ddl_rejected ops \<longrightarrow> service_ok ext tables blobs w' \<and>
       (tables w = empty_tables \<and> blobs w = Map.empty \<longrightarrow> served ext ops tables blobs w'))"
proof -
  have w': "rows_same (tables w) (tables w')" "blobs w' = blobs w" "state_as_configured vars st"
    and index: "ddl_rejected ops \<or> unique_sub_index \<in> set (t_schema (tables w'))"
    using wp_run [OF startup_services.wp_startup [OF assms(1)] assms(3)] by simp_all
  note reads = rows_same_reads(1,2,4) [OF w'(1), of ext] rows_same_reads(3) [OF w'(1)]
  have data: "data_ok ext tables blobs w'"
    using assms(2) w'(2) reads(1,4) by (simp add: data_ok_def users_ok_def)
  have "served ext ops tables blobs w'" if "\<not> ddl_rejected ops" "tables w = empty_tables" "blobs w = Map.empty"
    by (rule served.fresh) (use w' index that in \<open>auto simp: fresh_service_def rows_same_def\<close>)
  then show ?thesis
    using w' reads index data assms(2) by (auto simp: service_ok_def data_ok_def)
qed

lemma mem_query_unchecked:
  assumes "mw_faults w = []" "\<And>v. mw_faults v = [] \<Longrightarrow> wp (mem_ops f) (k ()) Q v"
  shows "wp (mem_ops f) (prog_try (query_unchecked (map Define ds)) k) Q w"
  unfolding wp_prog_try
  using assms by (simp add: query_unchecked_def surreal_read_def wp_calls mem_ops_def mem_call_def mem_query_def run_defines)

lemma mem_startup_runs: "wp (mem_ops f) (startup mem_api_crates (\<lambda>_. None)) (\<lambda>res w'. res = Inr app_state_new) empty_world"
proof -
  have schema: "wp (mem_ops f) schema_apply (\<lambda>r w'. r = Inr ()) w" if "mw_faults w = []" for w
    unfolding schema_apply_def RECORD_TABLE_def VERSION_TABLE_def CREATED_BY_EDGE_def SNAPSHOT_OF_EDGE_def OR_USER_TABLE_def
    by (intro mem_query_unchecked that) simp_all
  have calls: "do_connect (mem_ops f) a = mem_call f ''connect'' (\<lambda>w. (Inr (), w))"
    "do_signin (mem_ops f) a b = mem_call f ''signin'' (\<lambda>w. (Inr (), w))"
    "do_use (mem_ops f) a b = mem_call f ''use'' (\<lambda>w. (Inr (), w))" for a b
    by (simp_all add: mem_ops_def)
  have "mw_faults empty_world = []" by (simp add: empty_world_def)
  then have "wp (mem_ops f) (connect c) (\<lambda>r w'. r = Inr ()) empty_world" for c
    unfolding connect_def wp_prog_try
    by (simp add: surreal_read_def wp_calls calls mem_call_def wp_mono [OF schema])
  then show ?thesis
    unfolding startup_def wp_prog_try [of _ "prog_map_err StartDb p" for p] wp_prog_map_err
    by (rule wp_mono) (simp add: non_blank_def auth_env_from_vars_def storage_env_from_vars_def)
qed

lemma startup_then_serves_witness:
  "\<exists>w'. run (mem_ops False) (startup mem_api_crates (\<lambda>_. None)) empty_world = (Done (Inr app_state_new), w') \<and>
     service_ok mem_api_crates mw_tables mem_blobs w' \<and> served mem_api_crates (mem_ops False) mw_tables mem_blobs w'"
proof -
  obtain w' where run: "run (mem_ops False) (startup mem_api_crates (\<lambda>_. None)) empty_world = (Done (Inr app_state_new), w')"
    using mem_startup_runs by (rule wp_runE) blast
  have empty: "mw_tables empty_world = empty_tables" "mem_blobs empty_world = Map.empty"
    by (simp_all add: empty_world_def mem_blobs_def fun_eq_iff)
  have "\<not> ddl_rejected (mem_ops False)"
    by (auto simp: ddl_rejected_def mem_ops_def mem_call_def mem_query_def run_defines split: list.splits)
  with startup_then_serves [OF mem_startup.startup_services_axioms empty_data_ok [of mw_tables empty_world mem_blobs, OF empty] run] run empty
  show ?thesis by blast
qed

end
