(* ===== verification/Multipart.thy ===== *)
theory Multipart
  imports Blob_Storage
begin

text \<open>
  \<open>multipart_put_chunks\<close> of \<open>s3_compat.rs\<close> against its contract: it is a put of the concatenated chunks.
\<close>

section \<open>The multipart interface of the object store\<close>

text \<open>\<open>uploads w n\<close>: the key of the open upload \<open>n\<close> and the bytes of the parts it has. Parts are stored in the
  order in which they are sent; the blob appears when the upload is completed.\<close>

locale multipart_sdk = object_store_sdk ops blobs
  for ops :: "'w world_ops" and blobs :: "'w \<Rightarrow> string \<Rightarrow> byte list option" +
  fixes uploads :: "'w \<Rightarrow> nat \<Rightarrow> (string \<times> byte list) option"
  assumes multipart_blobs: "do_obj_multipart ops p w = (r, w') \<Longrightarrow> blobs w' = blobs w"
    and multipart_open: "do_obj_multipart ops p w = (Inr n, w') \<Longrightarrow> uploads w' n = Some (p, [])"
    and part_blobs: "do_obj_put_part ops n b w = (u, w') \<Longrightarrow> blobs w' = blobs w"
    and part_added: "do_obj_put_part ops n b w = (Inr (), w') \<Longrightarrow> uploads w n = Some (p, bs) \<Longrightarrow> uploads w' n = Some (p, bs @ b)"
    and complete_ok: "do_obj_complete ops n w = (Inr (), w') \<Longrightarrow> uploads w n = Some (p, bs) \<Longrightarrow> blobs w' = (blobs w)(p \<mapsto> bs)"
    and complete_err: "do_obj_complete ops n w = (Inl e, w') \<Longrightarrow> uploads w n = Some (p, bs) \<Longrightarrow>
      blobs w' = blobs w \<or> blobs w' = (blobs w)(p \<mapsto> bs)"
begin

lemma put_parts_law:
  "uploads w n = Some (p, bs) \<Longrightarrow>
   wp ops (put_parts n chunks) (\<lambda>res w'. blobs w' = blobs w \<and>
     (case res of Inl e \<Rightarrow> True | Inr _ \<Rightarrow> uploads w' n = Some (p, bs @ concat chunks))) w"
proof (induction chunks arbitrary: w bs)
  case Nil
  then show ?case by simp
next
  case (Cons b chunks)
  show ?case
  proof (cases "do_obj_put_part ops n b w")
    case (Pair r w1)
    show ?thesis
    proof (cases r)
      case (Inl e)
      then show ?thesis using Pair part_blobs by (simp add: wp_calls)
    next
      case (Inr u)
      have "uploads w1 n = Some (p, bs @ b)" "blobs w1 = blobs w"
        using Pair Inr part_added [OF _ Cons.prems] part_blobs by auto
      then have "wp ops (put_parts n chunks) (\<lambda>res w'. blobs w' = blobs w \<and>
          (case res of Inl e \<Rightarrow> True | Inr _ \<Rightarrow> uploads w' n = Some (p, bs @ concat (b # chunks)))) w1"
        using Cons.IH [of w1 "bs @ b"] by (simp only: append_assoc concat.simps simp_thms)
      then show ?thesis using Pair Inr by (simp add: wp_calls del: concat.simps append_assoc)
    qed
  qed
qed

lemma multipart_law:
  "wp ops (multipart_put_chunks ext key chunks) (\<lambda>res w'.
     case res of
       Inr _ \<Rightarrow> blobs w' = (blobs w)(object_path ext key \<mapsto> concat chunks)
     | Inl e \<Rightarrow> blobs w' = blobs w \<or> blobs w' = (blobs w)(object_path ext key \<mapsto> concat chunks)) w"
proof (cases "do_obj_multipart ops (object_path ext key) w")
  case (Pair r w1)
  show ?thesis
  proof (cases r)
    case (Inl e)
    then show ?thesis using Pair multipart_blobs by (simp add: multipart_put_chunks_def wp_calls)
  next
    case (Inr n)
    have w1: "uploads w1 n = Some (object_path ext key, [])" "blobs w1 = blobs w"
      using Pair Inr multipart_open multipart_blobs by auto
    have finish: "wp ops (prog_try (prog_map_err blob_map_err (ObjComplete n Ret)) (\<lambda>_. Ret (Inr ()))) (\<lambda>res w'.
       case res of
         Inr _ \<Rightarrow> blobs w' = (blobs w)(object_path ext key \<mapsto> concat chunks)
       | Inl e \<Rightarrow> blobs w' = blobs w \<or> blobs w' = (blobs w)(object_path ext key \<mapsto> concat chunks)) w2"
      if "uploads w2 n = Some (object_path ext key, concat chunks)" "blobs w2 = blobs w" for w2
    proof (cases "do_obj_complete ops n w2")
      case (Pair r w3)
      then show ?thesis
        using complete_ok [OF _ that(1)] complete_err [OF _ that(1)] that(2) by (cases r) (auto simp: wp_calls)
    qed
    have "wp ops (prog_try (put_parts n chunks) (\<lambda>_. prog_try (prog_map_err blob_map_err (ObjComplete n Ret)) (\<lambda>_. Ret (Inr ()))))
       (\<lambda>res w'. case res of
         Inr _ \<Rightarrow> blobs w' = (blobs w)(object_path ext key \<mapsto> concat chunks)
       | Inl e \<Rightarrow> blobs w' = blobs w \<or> blobs w' = (blobs w)(object_path ext key \<mapsto> concat chunks)) w1"
      unfolding wp_prog_try [of _ "put_parts n chunks"]
    proof (rule wp_mono [OF put_parts_law [OF w1(1)]], goal_cases)
      case (1 res w2)
      then show ?case using w1(2) finish by (cases res) (simp_all del: wp_prog_try)
    qed
    then show ?thesis
      unfolding multipart_put_chunks_def wp_prog_try [of _ "prog_map_err blob_map_err (ObjMultipart p Ret)" for p]
      by (simp add: wp_calls Pair Inr del: wp_prog_try)
  qed
qed

end

section \<open>The in-memory world\<close>

definition mem_uploads :: "mem_world \<Rightarrow> nat \<Rightarrow> (string \<times> byte list) option" where
  "mem_uploads w = map_of (mw_uploads w)"

interpretation mem_multipart: multipart_sdk "mem_ops f" mem_blobs mem_uploads
  by unfold_locales (auto simp: mem_ops_def mem_call_def mem_uploads_def mem_blobs_def mem_put_def map_of_map_entry
      split: list.splits if_splits option.splits)

section \<open>Property\<close>

text \<open>C30: a multipart upload that returns stores exactly the chunks, in order, under its key, as one put
  of their concatenation would; one that fails has stored all of it or nothing, never a part.\<close>

theorem multipart_is_put_of_concat:
  assumes "multipart_sdk ops blobs uploads"
  shows "wp ops (multipart_put_chunks ext key chunks) (\<lambda>res w'.
     case res of
       Inr _ \<Rightarrow> blobs w' = (blobs w)(object_path ext key \<mapsto> concat chunks)
     | Inl e \<Rightarrow> blobs w' = blobs w \<or> blobs w' = (blobs w)(object_path ext key \<mapsto> concat chunks)) w"
  using multipart_sdk.multipart_law [OF assms] .

lemma multipart_is_put_of_concat_witness:
  "wp (mem_ops True) (multipart_put_chunks mem_crates ''/assets/big'' [[1, 2], [3]]) (\<lambda>res w'.
     case res of
       Inr _ \<Rightarrow> mem_blobs w' = (mem_blobs empty_world)(object_path mem_crates ''/assets/big'' \<mapsto> concat [[1, 2], [3]])
     | Inl e \<Rightarrow> mem_blobs w' = mem_blobs empty_world \<or>
         mem_blobs w' = (mem_blobs empty_world)(object_path mem_crates ''/assets/big'' \<mapsto> concat [[1, 2], [3]])) empty_world"
  by (rule multipart_is_put_of_concat [OF mem_multipart.multipart_sdk_axioms])

end
