(* ===== verification/Core_Spec.thy ===== *)
theory Core_Spec
  imports Digest_Text
begin

text \<open>
  Properties of the record type-state (\<open>Core_Record\<close>) and of the conversion between records and rows
  (\<open>Convert\<close>): what a freeze keeps of a record, which records survive storage, which rows are read back and with
  which error the others are refused.
\<close>

section \<open>A record is determined by what is read of it\<close>

lemma hash_wf_of_text: "hex64 (hash_to_string h) \<Longrightarrow> hash_wf h"
  by (simp add: hex64_def length_hash_to_string hash_wf_def)

lemma any_record_eqI:
  assumes "any_state a = any_state b" "any_id a = any_id b" "any_kind a = any_kind b"
    "any_hash a = any_hash b" "any_versions a = any_versions b"
  shows "a = b"
proof -
  have "r = s" if "rec_id r = rec_id s" "rec_kind r = rec_kind s" "rec_content_hash r = rec_content_hash s"
    "rec_versions r = rec_versions s" for r s :: "'a orecord"
    using that by (intro orecord.equality) simp_all
  with assms show ?thesis by (cases a; cases b) simp_all
qed

lemma stored_hash_inj:
  assumes "map_option hash_to_string x = map_option hash_to_string y"
    and "\<And>h. x = Some h \<Longrightarrow> hex64 (hash_to_string h)"
  shows "x = y"
  using assms hash_to_string_inj hash_wf_of_text by (cases x; cases y) (force simp: hash_wf_def)+

section \<open>Which records survive storage\<close>

lemma plain_kind_back: "kind_from_string (kind_to_string k) = k \<Longrightarrow> plain_kind k"
  using kind_from_to_string by simp

lemma row_of_fields [simp]:
  "pr_state (row_record (record_to_persisted_row lit r c t)) = LITERAL lit"
  "pr_kind (row_record (record_to_persisted_row lit r c t)) = kind_to_string (rec_kind r)"
  "pr_content_hash (row_record (record_to_persisted_row lit r c t)) = map_option hash_to_string (rec_content_hash r)"
  "row_versions (record_to_persisted_row lit r c t) = [] \<longleftrightarrow> rec_versions r = []"
  by (simp_all add: record_to_persisted_row_def)

lemmas literal_defs = literal_mutable_def literal_snapshot_def literal_fixed_def

lemma mutable_storable:
  "storable literal_mutable r \<longleftrightarrow> rec_versions r \<noteq> [] \<and> plain_kind (rec_kind r) \<and> rec_content_hash r = None"
  by (cases "rec_content_hash r") (simp_all add: storable_def literal_defs)

lemma snapshot_storable:
  "storable literal_snapshot r \<longleftrightarrow> rec_versions r \<noteq> [] \<and> plain_kind (rec_kind r) \<and> rec_content_hash r = None"
  by (cases "rec_content_hash r") (simp_all add: storable_def literal_defs)

lemma fixed_storable:
  "storable literal_fixed r \<longleftrightarrow>
     rec_versions r \<noteq> [] \<and> plain_kind (rec_kind r) \<and> (\<exists>h. rec_content_hash r = Some h \<and> hash_wf h)"
  by (cases "rec_content_hash r") (simp_all add: storable_def literal_defs)

text \<open>A record whose row is read back with its kind is storable, whatever else is read.\<close>

lemma storable_of_valid:
  assumes "row_valid (record_to_persisted_row lit r c t)"
    and "kind_from_string (kind_to_string (rec_kind r)) = rec_kind r"
  shows "storable lit r"
  using assms hash_wf_of_text plain_kind_back
  by (cases "rec_content_hash r") (simp_all add: row_valid_def storable_def)

lemma storable_of_read:
  assumes "persisted_row_to_any (record_to_persisted_row lit r c t) = Inr a" "any_kind a = rec_kind r"
  shows "storable lit r"
proof (rule storable_of_valid)
  show v: "row_valid (record_to_persisted_row lit r c t)"
    using assms(1) by (simp add: persisted_row_to_any_Inr)
  show "kind_from_string (kind_to_string (rec_kind r)) = rec_kind r"
    using row_to_any_reads(3) [OF v] assms by (simp add: persisted_row_to_any_Inr)
qed

lemma mutable_back:
  "persisted_row_to_any (record_to_persisted_row literal_mutable r c t) = Inr (AnyMutable r) \<longleftrightarrow> storable literal_mutable r"
  using mutable_round_trip [of r c t] storable_of_read [of literal_mutable r c t]
  by (auto simp: persisted_row_to_any_def literal_mutable_def)

lemma snapshot_back:
  "persisted_row_to_any (record_to_persisted_row literal_snapshot r c t) = Inr (AnySnapshot r) \<longleftrightarrow> storable literal_snapshot r"
  using snapshot_round_trip [of r c t] storable_of_read [of literal_snapshot r c t]
  by (auto simp: persisted_row_to_any_def literal_snapshot_def)

lemma fixed_back:
  "persisted_row_to_any (record_to_persisted_row literal_fixed r c t) = Inr (AnyFixed r) \<longleftrightarrow> storable literal_fixed r"
  using fixed_round_trip [of r c t] storable_of_read [of literal_fixed r c t]
  by (auto simp: persisted_row_to_any_def literal_fixed_def)

section \<open>Properties\<close>

text \<open>C22: freezing a record built by the crate keeps its id, its kind, its version ids and every body but the last;
  the last is kept when it is inline and moves to the key of the digest, with its size, when it is a blob. The
  digest is recorded, and freezing a snapshot of the record gives the same fixed record.\<close>

theorem fix_preserves_history:
  assumes "live_mutable r"
  shows "rec_id (mutable_fix r h) = rec_id r \<and> rec_kind (mutable_fix r h) = rec_kind r \<and>
     rec_content_hash (mutable_fix r h) = Some h \<and>
     map ver_id (rec_versions (mutable_fix r h)) = map ver_id (rec_versions r) \<and>
     previous_version (mutable_fix r h) = previous_version r \<and>
     butlast (rec_versions (mutable_fix r h)) = butlast (rec_versions r) \<and>
     record_body (mutable_fix r h) = Some (case ver_body (last (rec_versions r)) of
        Inline bytes \<Rightarrow> Inline bytes
      | BlobRef _ sz \<Rightarrow> BlobRef (''/fixed/'' @ hash_to_string h) sz) \<and>
     snapshot_fix (snapshot_of r) h = mutable_fix r h"
proof -
  have ne: "rec_versions r \<noteq> []" using live_mutable_wf [OF assms] by simp
  have prev: "previous_version a = previous_version b"
    if "map ver_id (rec_versions a) = map ver_id (rec_versions b)" for a :: "fixed orecord" and b :: "mutable orecord"
  proof -
    have len: "length (rec_versions a) = length (rec_versions b)" using that by (rule map_eq_imp_length_eq)
    moreover have "ver_id (rec_versions a ! i) = ver_id (rec_versions b ! i)" if "i < length (rec_versions a)" for i
      using that len \<open>map ver_id (rec_versions a) = map ver_id (rec_versions b)\<close> by (metis nth_map)
    ultimately show ?thesis by (simp add: previous_version_def Let_def)
  qed
  show ?thesis
    using ne prev [of "mutable_fix r h" r, unfolded mutable_fix_def, OF fossilize_version_ids]
      fossilize_version_ids [of "rec_id r" "rec_kind r" "rec_versions r" h]
    unfolding mutable_fix_def snapshot_fix_def snapshot_of_def
    by (simp add: fossilize_versions record_body_fossilize fossilize_body_def)
qed

lemma fix_preserves_history_witness:
  "rec_versions (mutable_fix (update 3 (BlobRef ''/assets/a'' 5) (record_new 1 2 Log (Inline [7]))) (Sha256Hash (replicate 32 171)))
     \<noteq> [] \<and>
   record_body (mutable_fix (update 3 (BlobRef ''/assets/a'' 5) (record_new 1 2 Log (Inline [7]))) (Sha256Hash (replicate 32 171)))
     = Some (BlobRef (''/fixed/'' @ hash_to_string (Sha256Hash (replicate 32 171))) 5)"
proof -
  let ?r = "update 3 (BlobRef ''/assets/a'' 5) (record_new 1 2 Log (Inline [7]))"
  have "live_mutable ?r" by (intro live_mutable.intros)
  from fix_preserves_history [OF this, of "Sha256Hash (replicate 32 171)"] show ?thesis
    by (auto simp: update_def record_new_def)
qed

text \<open>C23: a record of each state is read back from its row unchanged exactly when it has a version, its kind is not a
  custom one with the name of a built-in one, and it has a digest of 32 bytes just when it is fixed.\<close>

theorem rows_round_trip:
  "(persisted_row_to_any (record_to_persisted_row literal_mutable m c t) = Inr (AnyMutable m) \<longleftrightarrow>
     rec_versions m \<noteq> [] \<and> plain_kind (rec_kind m) \<and> rec_content_hash m = None) \<and>
   (persisted_row_to_any (record_to_persisted_row literal_snapshot s c t) = Inr (AnySnapshot s) \<longleftrightarrow>
     rec_versions s \<noteq> [] \<and> plain_kind (rec_kind s) \<and> rec_content_hash s = None) \<and>
   (persisted_row_to_any (record_to_persisted_row literal_fixed f c t) = Inr (AnyFixed f) \<longleftrightarrow>
     rec_versions f \<noteq> [] \<and> plain_kind (rec_kind f) \<and> (\<exists>h. rec_content_hash f = Some h \<and> hash_wf h))"
  unfolding mutable_storable [symmetric] snapshot_storable [symmetric] fixed_storable [symmetric]
  using mutable_back snapshot_back fixed_back by blast

lemma rows_read:
  "persisted_row_to_any row = Inr a \<longleftrightarrow>
     row_valid row \<and> any_state a = pr_state (row_record row) \<and> any_id a = pr_id (row_record row) \<and>
     any_kind a = kind_from_string (pr_kind (row_record row)) \<and>
     map_option hash_to_string (any_hash a) = pr_content_hash (row_record row) \<and>
     any_versions a = map version_from_persisted (row_versions row)"
proof -
  have "a = row_to_any row"
    if v: "row_valid row" and reads: "any_state a = pr_state (row_record row)" "any_id a = pr_id (row_record row)"
      "any_kind a = kind_from_string (pr_kind (row_record row))"
      "map_option hash_to_string (any_hash a) = pr_content_hash (row_record row)"
      "any_versions a = map version_from_persisted (row_versions row)"
  proof (rule any_record_eqI)
    show "any_hash a = any_hash (row_to_any row)"
      using v reads(4) row_to_any_reads(4) [OF v]
      by (intro stored_hash_inj) (auto simp: row_valid_def split: option.splits)
  qed (simp_all add: reads row_to_any_reads [OF v])
  then show ?thesis
    using row_to_any_reads [of row] unfolding persisted_row_to_any_Inr by blast
qed

text \<open>C24: a row is read as the record with its state, id, kind, digest and versions exactly when it has versions and a
  digest text of 64 lower-case hexadecimal digits just when it is fixed; any other row is refused with the first
  check that fails: the digest that its state must not have, or must have, then the digits of the digest, then the
  empty version chain.\<close>

theorem rows_read_exactly:
  "(persisted_row_to_any row = Inr a \<longleftrightarrow>
     row_versions row \<noteq> [] \<and>
     (case pr_content_hash (row_record row) of
        None \<Rightarrow> pr_state (row_record row) \<noteq> PFixed
      | Some s \<Rightarrow> pr_state (row_record row) = PFixed \<and> hex64 s) \<and>
     any_state a = pr_state (row_record row) \<and> any_id a = pr_id (row_record row) \<and>
     any_kind a = kind_from_string (pr_kind (row_record row)) \<and>
     map_option hash_to_string (any_hash a) = pr_content_hash (row_record row) \<and>
     any_versions a = map version_from_persisted (row_versions row)) \<and>
   (persisted_row_to_any row = Inl e \<longleftrightarrow>
     (let r = row_record row in
      case (pr_state r, pr_content_hash r) of
        (PFixed, None) \<Rightarrow> e = MissingContentHash (pr_id r)
      | (PFixed, Some s) \<Rightarrow>
          (if hex64 s then row_versions row = [] \<and> e = EmptyVersionChain (pr_id r)
           else parse_sha256_hex s = Inl e)
      | (st, Some s) \<Rightarrow> e = UnexpectedContentHash (if st = PMutable then ''Mutable'' else ''Snapshot'') (pr_id r)
      | (st, None) \<Rightarrow> row_versions row = [] \<and> e = EmptyVersionChain (pr_id r)))"
  unfolding persisted_row_to_any_error rows_read row_valid_def by blast

text \<open>The digest reader of the database layer inverts the printing of digests: it reads exactly the texts that
  32 bytes print as, and these are the texts of 64 lower-case hexadecimal digits.\<close>

lemma digest_text_round_trip:
  "(parse_sha256_hex s = Inr bs \<longleftrightarrow> length bs = 32 \<and> hash_to_string (Sha256Hash bs) = s) \<and>
   ((\<exists>bs. parse_sha256_hex s = Inr bs) \<longleftrightarrow> length s = 64 \<and> list_all (\<lambda>c. c \<in> set ''0123456789abcdef'') s)"
proof
  show "parse_sha256_hex s = Inr bs \<longleftrightarrow> length bs = 32 \<and> hash_to_string (Sha256Hash bs) = s"
    by (auto simp: parse_sha256_hex_Inr)
  show "(\<exists>bs. parse_sha256_hex s = Inr bs) \<longleftrightarrow> length s = 64 \<and> list_all (\<lambda>c. c \<in> set ''0123456789abcdef'') s"
    by (simp only: parse_sha256_hex_ok_iff hex64_def is_hex_char_def [abs_def])
qed

text \<open>A kind that a request may name is printed back as it was named and survives storage; a custom kind that takes
  the name of a built-in one, which the core allows, comes back as the built-in kind.\<close>

lemma kinds_survive_storage:
  "(parse_kind raw = Inr k \<longleftrightarrow> raw \<noteq> [] \<and> kind_from_string raw = k) \<and>
   api_kind_to_string (kind_from_string raw) = raw \<and>
   kind_from_string (kind_to_string (kind_from_string raw)) = kind_from_string raw \<and>
   (kind_from_string (kind_to_string j) = j \<longleftrightarrow> j \<notin> {Custom ''log'', Custom ''fix'', Custom ''dataset'', Custom ''asset''})"
  by (cases j) (auto simp: parse_kind_def kind_from_string_def api_kind_to_string_def kind_to_string_def)

text \<open>C16: the type of a record says what is in it: every constructor and transition of the core yields, from records that
  keep the promise of their state, one that keeps the promise of its own state (a version, and a digest of 32 bytes
  just when it is fixed), and so does every conversion from a row, which yields a record of a state only from a row
  of that state.\<close>

theorem type_states_sound:
  assumes "well_formed literal_mutable m" "well_formed literal_snapshot s" "hash_wf h"
  shows "well_formed literal_mutable (record_new i v k b) \<and> well_formed literal_mutable (update v b m) \<and>
     well_formed literal_snapshot (snapshot_of m) \<and> well_formed literal_fixed (mutable_fix m h) \<and>
     well_formed literal_fixed (snapshot_fix s h) \<and>
     (\<forall>r. mutable_try_from row = Inr r \<longrightarrow> pr_state (row_record row) = PMutable \<and> well_formed literal_mutable r) \<and>
     (\<forall>r. snapshot_try_from row = Inr r \<longrightarrow> pr_state (row_record row) = PSnapshot \<and> well_formed literal_snapshot r) \<and>
     (\<forall>r. fixed_try_from row = Inr r \<longrightarrow> pr_state (row_record row) = PFixed \<and> well_formed literal_fixed r)"
proof -
  have ne: "rec_versions m \<noteq> []" "rec_versions s \<noteq> []" using assms(1,2) by (simp_all add: well_formed_def)
  have frozen: "well_formed literal_fixed (fossilize j l vs h)" if "vs \<noteq> []" for j l vs
    using that assms(3) by (simp add: well_formed_def literal_fixed_def fossilize_versions)
  have rows: "well_formed literal_mutable r \<and> pr_state (row_record row) = PMutable" if "mutable_try_from row = Inr r" for r
    using that by (auto simp: mutable_try_from_def Let_def try_result_eq_Inr validate_state_simps ensure_versions_simps
        mutable_from_parts_def well_formed_def literal_mutable_def split: if_splits)
  have rows': "well_formed literal_snapshot r \<and> pr_state (row_record row) = PSnapshot" if "snapshot_try_from row = Inr r" for r
    using that by (auto simp: snapshot_try_from_def Let_def try_result_eq_Inr validate_state_simps ensure_versions_simps
        snapshot_from_parts_def well_formed_def literal_snapshot_def split: if_splits)
  have rows'': "well_formed literal_fixed r \<and> pr_state (row_record row) = PFixed" if "fixed_try_from row = Inr r" for r
  proof -
    from that obtain s hs where row: "pr_state (row_record row) = PFixed" "row_versions row \<noteq> []" "map_ok Sha256Hash (parse_sha256_hex s) = Inr hs"
      and r: "r = fixed_from_parts (pr_id (row_record row)) (kind_from_string (pr_kind (row_record row))) hs (map version_from_persisted (row_versions row))"
      by (auto simp: fixed_try_from_def Let_def try_result_eq_Inr validate_state_simps ensure_versions_simps)
    have "hash_wf hs" using row(3) by (auto simp: map_ok_def hash_wf_def parse_sha256_hex_Inr split: sum.splits)
    with row r show ?thesis by (simp add: fixed_from_parts_def well_formed_def literal_fixed_def)
  qed
  show ?thesis
    using ne assms rows rows' rows'' frozen
    by (auto simp: record_new_def update_def snapshot_of_def mutable_fix_def snapshot_fix_def well_formed_def literal_mutable_def
        literal_snapshot_def split: option.splits)
qed

lemma type_states_sound_witness:
  "well_formed literal_fixed (mutable_fix (update 3 (BlobRef ''/assets/a'' 5) (record_new 1 2 Log (Inline [7]))) (Sha256Hash (replicate 32 171)))"
proof -
  let ?r = "update 3 (BlobRef ''/assets/a'' 5) (record_new 1 2 Log (Inline [7]))"
  have "well_formed literal_mutable ?r" "well_formed literal_snapshot (snapshot_of ?r)" "hash_wf (Sha256Hash (replicate 32 171))"
    by (simp_all add: well_formed_def literal_mutable_def literal_snapshot_def snapshot_of_def update_def record_new_def hash_wf_def)
  from type_states_sound [OF this] show ?thesis by blast
qed

end
