(* ===== verification/Storage_Tests.thy ===== *)
theory Storage_Tests
  imports Blob_Storage
begin

text \<open>
  The two test modules of \<open>crates/objectrecords-storage\<close>: that of \<open>src/lib.rs\<close> for \<open>InMemoryStorage\<close>, and those tests of
  \<open>tests/s3_compat_seaweedfs.rs\<close> for the S3 backend that use the methods of the trait only. A test is a definition
  over a backend, the record of those methods, and the state of the storage. Both modules follow from the
  contract of the trait, the one of S3 for every object store with S3's laws that does not fail.
\<close>

section \<open>A backend under test\<close>

record 's blob_backend =
  bb_put :: "string \<Rightarrow> byte list \<Rightarrow> 's \<Rightarrow> (blob_storage_error + unit) \<times> 's"
  bb_get :: "string \<Rightarrow> 's \<Rightarrow> (blob_storage_error + byte list) \<times> 's"
  bb_head :: "string \<Rightarrow> 's \<Rightarrow> (blob_storage_error + blob_metadata) \<times> 's"
  bb_delete :: "string \<Rightarrow> 's \<Rightarrow> (blob_storage_error + unit) \<times> 's"
  bb_put_if_absent :: "string \<Rightarrow> byte list \<Rightarrow> 's \<Rightarrow> (blob_storage_error + put_outcome) \<times> 's"

definition in_memory_backend :: "in_memory_storage blob_backend" where
  "in_memory_backend =
     \<lparr>bb_put = in_memory_put, bb_get = in_memory_get, bb_head = in_memory_head, bb_delete = in_memory_delete,
      bb_put_if_absent = in_memory_put_if_absent\<rparr>"

definition s3_backend :: "'x crates_scheme \<Rightarrow> 'w world_ops \<Rightarrow> 'w blob_backend" where
  "s3_backend ext ops =
     \<lparr>bb_put = (\<lambda>k b. on_world ops (s3_put ext k b)), bb_get = (\<lambda>k. on_world ops (s3_get ext k)),
      bb_head = (\<lambda>k. on_world ops (s3_head ext k)), bb_delete = (\<lambda>k. on_world ops (s3_delete ext k)),
      bb_put_if_absent = (\<lambda>k b. on_world ops (s3_put_if_absent ext k b))\<rparr>"

text \<open>\<open>.await.unwrap()\<close> and \<open>.await.unwrap_err()\<close>, with the rest of the test.\<close>

definition unwrap :: "('e + 'a) \<times> 's \<Rightarrow> ('a \<Rightarrow> 's \<Rightarrow> bool) \<Rightarrow> bool" where
  "unwrap reply rest = (case reply of (Inr x, s) \<Rightarrow> rest x s | (Inl _, s) \<Rightarrow> False)"

definition unwrap_err :: "('e + 'a) \<times> 's \<Rightarrow> ('e \<Rightarrow> 's \<Rightarrow> bool) \<Rightarrow> bool" where
  "unwrap_err reply rest = (case reply of (Inl e, s) \<Rightarrow> rest e s | (Inr _, s) \<Rightarrow> False)"

definition is_not_found :: "blob_storage_error \<Rightarrow> bool" where
  "is_not_found e = (case e of BlobNotFound _ \<Rightarrow> True | BlobBackend _ \<Rightarrow> False)"

section \<open>The tests of the in-memory backend\<close>

definition test_put_then_get_returns_same_blob :: "'s blob_backend \<Rightarrow> 's \<Rightarrow> bool" where
  "test_put_then_get_returns_same_blob B s =
     (let payload = map byte_of ''hello world'' in
      unwrap (bb_put B ''k1'' payload s) (\<lambda>_ s.
      unwrap (bb_get B ''k1'' s) (\<lambda>got s. got = payload)))"

definition test_get_missing_returns_not_found :: "'s blob_backend \<Rightarrow> 's \<Rightarrow> bool" where
  "test_get_missing_returns_not_found B s =
     unwrap_err (bb_get B ''absent'' s) (\<lambda>e s. case e of BlobNotFound k \<Rightarrow> k = ''absent'' | BlobBackend _ \<Rightarrow> False)"

definition test_head_returns_correct_size :: "'s blob_backend \<Rightarrow> 's \<Rightarrow> bool" where
  "test_head_returns_correct_size B s =
     unwrap (bb_put B ''size-check'' (map byte_of ''12345'') s) (\<lambda>_ s.
     unwrap (bb_head B ''size-check'' s) (\<lambda>meta s. bm_size meta = 5 \<and> bm_etag meta = None))"

definition test_head_missing_returns_not_found :: "'s blob_backend \<Rightarrow> 's \<Rightarrow> bool" where
  "test_head_missing_returns_not_found B s = unwrap_err (bb_head B ''absent'' s) (\<lambda>e s. is_not_found e)"

definition test_delete_removes_blob :: "'s blob_backend \<Rightarrow> 's \<Rightarrow> bool" where
  "test_delete_removes_blob B s =
     unwrap (bb_put B ''doomed'' (map byte_of ''x'') s) (\<lambda>_ s.
     unwrap (bb_delete B ''doomed'' s) (\<lambda>_ s.
     unwrap_err (bb_get B ''doomed'' s) (\<lambda>e s. is_not_found e)))"

definition test_delete_missing_returns_not_found :: "'s blob_backend \<Rightarrow> 's \<Rightarrow> bool" where
  "test_delete_missing_returns_not_found B s = unwrap_err (bb_delete B ''absent'' s) (\<lambda>e s. is_not_found e)"

definition test_put_overwrites_existing_blob :: "'s blob_backend \<Rightarrow> 's \<Rightarrow> bool" where
  "test_put_overwrites_existing_blob B s =
     unwrap (bb_put B ''k'' (map byte_of ''old'') s) (\<lambda>_ s.
     unwrap (bb_put B ''k'' (map byte_of ''new'') s) (\<lambda>_ s.
     unwrap (bb_get B ''k'' s) (\<lambda>got s. got = map byte_of ''new'')))"

definition test_put_if_absent_writes_when_absent :: "'s blob_backend \<Rightarrow> 's \<Rightarrow> bool" where
  "test_put_if_absent_writes_when_absent B s =
     unwrap (bb_put_if_absent B ''/fixed/abc'' (map byte_of ''hello'') s) (\<lambda>outcome s. outcome = Wrote \<and>
     unwrap (bb_get B ''/fixed/abc'' s) (\<lambda>got s. got = map byte_of ''hello''))"

definition test_put_if_absent_skips_when_present :: "'s blob_backend \<Rightarrow> 's \<Rightarrow> bool" where
  "test_put_if_absent_skips_when_present B s =
     unwrap (bb_put_if_absent B ''/fixed/abc'' (map byte_of ''first'') s) (\<lambda>_ s.
     unwrap (bb_put_if_absent B ''/fixed/abc'' (map byte_of ''second'') s) (\<lambda>outcome s. outcome = AlreadyExists))"

definition test_put_if_absent_preserves_original_blob_on_collision :: "'s blob_backend \<Rightarrow> 's \<Rightarrow> bool" where
  "test_put_if_absent_preserves_original_blob_on_collision B s =
     unwrap (bb_put_if_absent B ''/fixed/abc'' (map byte_of ''first'') s) (\<lambda>_ s.
     unwrap (bb_put_if_absent B ''/fixed/abc'' (map byte_of ''second'') s) (\<lambda>_ s.
     unwrap (bb_get B ''/fixed/abc'' s) (\<lambda>got s. got = map byte_of ''first'')))"

definition in_memory_tests :: "'s blob_backend \<Rightarrow> 's \<Rightarrow> bool" where
  "in_memory_tests B s \<longleftrightarrow>
     test_put_then_get_returns_same_blob B s \<and> test_get_missing_returns_not_found B s \<and>
     test_head_returns_correct_size B s \<and> test_head_missing_returns_not_found B s \<and>
     test_delete_removes_blob B s \<and> test_delete_missing_returns_not_found B s \<and> test_put_overwrites_existing_blob B s \<and>
     test_put_if_absent_writes_when_absent B s \<and> test_put_if_absent_skips_when_present B s \<and>
     test_put_if_absent_preserves_original_blob_on_collision B s"

lemmas in_memory_test_defs = test_put_then_get_returns_same_blob_def test_get_missing_returns_not_found_def
  test_head_returns_correct_size_def test_head_missing_returns_not_found_def test_delete_removes_blob_def
  test_delete_missing_returns_not_found_def test_put_overwrites_existing_blob_def
  test_put_if_absent_writes_when_absent_def test_put_if_absent_skips_when_present_def
  test_put_if_absent_preserves_original_blob_on_collision_def

section \<open>The tests of the S3 backend\<close>

text \<open>\<open>key\<close> is the result of \<open>unique_key\<close>.\<close>

definition s3_put_then_get_returns_same_blob :: "string \<Rightarrow> 's blob_backend \<Rightarrow> 's \<Rightarrow> bool" where
  "s3_put_then_get_returns_same_blob key B s =
     (let payload = map byte_of ''hello world'' in
      unwrap (bb_put B key payload s) (\<lambda>_ s.
      unwrap (bb_get B key s) (\<lambda>got s. got = payload)))"

definition s3_get_missing_returns_not_found :: "string \<Rightarrow> 's blob_backend \<Rightarrow> 's \<Rightarrow> bool" where
  "s3_get_missing_returns_not_found key B s = unwrap_err (bb_get B key s) (\<lambda>e s. is_not_found e)"

definition s3_head_returns_correct_size :: "string \<Rightarrow> 's blob_backend \<Rightarrow> 's \<Rightarrow> bool" where
  "s3_head_returns_correct_size key B s =
     unwrap (bb_put B key (map byte_of ''12345'') s) (\<lambda>_ s.
     unwrap (bb_head B key s) (\<lambda>meta s. bm_size meta = 5 \<and> bm_etag meta \<noteq> None))"

definition s3_head_missing_returns_not_found :: "string \<Rightarrow> 's blob_backend \<Rightarrow> 's \<Rightarrow> bool" where
  "s3_head_missing_returns_not_found key B s = unwrap_err (bb_head B key s) (\<lambda>e s. is_not_found e)"

definition s3_delete_removes_blob :: "string \<Rightarrow> 's blob_backend \<Rightarrow> 's \<Rightarrow> bool" where
  "s3_delete_removes_blob key B s =
     unwrap (bb_put B key (map byte_of ''x'') s) (\<lambda>_ s.
     unwrap (bb_delete B key s) (\<lambda>_ s.
     unwrap_err (bb_get B key s) (\<lambda>e s. is_not_found e)))"

definition s3_put_if_absent_writes_when_absent :: "string \<Rightarrow> 's blob_backend \<Rightarrow> 's \<Rightarrow> bool" where
  "s3_put_if_absent_writes_when_absent key B s =
     unwrap (bb_put_if_absent B key (map byte_of ''hello'') s) (\<lambda>outcome s. outcome = Wrote \<and>
     unwrap (bb_get B key s) (\<lambda>got s. got = map byte_of ''hello''))"

definition s3_put_if_absent_skips_when_present :: "string \<Rightarrow> 's blob_backend \<Rightarrow> 's \<Rightarrow> bool" where
  "s3_put_if_absent_skips_when_present key B s =
     unwrap (bb_put_if_absent B key (map byte_of ''first'') s) (\<lambda>_ s.
     unwrap (bb_put_if_absent B key (map byte_of ''second'') s) (\<lambda>outcome s. outcome = AlreadyExists \<and>
     unwrap (bb_get B key s) (\<lambda>got s. got = map byte_of ''first'')))"

definition s3_tests :: "string \<Rightarrow> 's blob_backend \<Rightarrow> 's \<Rightarrow> bool" where
  "s3_tests key B s \<longleftrightarrow>
     s3_put_then_get_returns_same_blob key B s \<and> s3_get_missing_returns_not_found key B s \<and>
     s3_head_returns_correct_size key B s \<and> s3_head_missing_returns_not_found key B s \<and>
     s3_delete_removes_blob key B s \<and> s3_put_if_absent_writes_when_absent key B s \<and>
     s3_put_if_absent_skips_when_present key B s"

lemmas s3_test_defs = s3_put_then_get_returns_same_blob_def s3_get_missing_returns_not_found_def
  s3_head_returns_correct_size_def s3_head_missing_returns_not_found_def s3_delete_removes_blob_def
  s3_put_if_absent_writes_when_absent_def s3_put_if_absent_skips_when_present_def

section \<open>The tests follow from the contract\<close>

text \<open>A backend that keeps the contract of the trait, does not fail, and of whose metadata
  \<open>tagged\<close> says whether they have an etag.\<close>

locale answering_storage = blob_storage +
  fixes tagged :: bool
  assumes healthy: "\<not> fails"
    and head_tag: "head k s = (Inr m, s') \<Longrightarrow> bm_etag m \<noteq> None \<longleftrightarrow> tagged"
begin

lemma after_put:
  "(\<And>s'. (\<And>k'. contents s' k' = (if same k k' then Some b else contents s k')) \<Longrightarrow> P s') \<Longrightarrow> unwrap (put k b s) (\<lambda>_. P)"
  using put_err [of k b s] put_ok [of k b s] healthy
  by (cases "put k b s"; cases "fst (put k b s)") (auto simp: unwrap_def)

lemma after_get:
  "contents s k = Some b \<Longrightarrow> (\<And>s'. P b s') \<Longrightarrow> unwrap (get k s) P"
  "contents s k = None \<Longrightarrow> (\<And>p s'. get k s = (Inl (BlobNotFound p), s') \<Longrightarrow> Q (BlobNotFound p) s') \<Longrightarrow> unwrap_err (get k s) Q"
  using get_reply [of k s] healthy by (cases "get k s"; auto simp: unwrap_def unwrap_err_def)+

lemma after_head:
  "contents s k = Some b \<Longrightarrow> (\<And>m s'. bm_size m = of_nat (length b) \<Longrightarrow> bm_etag m \<noteq> None \<longleftrightarrow> tagged \<Longrightarrow> P m s') \<Longrightarrow>
   unwrap (head k s) P"
  "contents s k = None \<Longrightarrow> (\<And>p s'. Q (BlobNotFound p) s') \<Longrightarrow> unwrap_err (head k s) Q"
  using head_reply [of k s] head_tag [of k s] healthy by (cases "head k s"; auto simp: unwrap_def unwrap_err_def)+

lemma after_delete:
  assumes "contents s k \<noteq> None" "\<And>s'. contents s' k = None \<Longrightarrow> P s'"
  shows "unwrap (delete k s) (\<lambda>_. P)"
proof (cases "delete k s")
  case (Pair r s')
  then have "r \<noteq> Inl e" for e
    using delete_missing [of k s _ s'] assms(1) delete_err [of k s _ s'] healthy by (cases e) auto
  then have "r = Inr ()" by (cases r) auto
  then show ?thesis using Pair delete_ok [of k s s' k] same_refl assms(2) by (simp add: unwrap_def)
qed

lemma after_create:
  "contents s k = None \<Longrightarrow> (\<And>s'. contents s' k = Some b \<Longrightarrow> P Wrote s') \<Longrightarrow> unwrap (put_if_absent k b s) P"
  "contents s k = Some b' \<Longrightarrow> (\<And>s'. contents s' k = Some b' \<Longrightarrow> P AlreadyExists s') \<Longrightarrow> unwrap (put_if_absent k b s) P"
  using create_err [of k b s] create_wrote [of k b s _ k] create_exists [of k b s _ k] healthy same_refl
  by (cases "put_if_absent k b s"; cases "fst (put_if_absent k b s)"; cases "projr (fst (put_if_absent k b s))";
      auto simp: unwrap_def)+

lemmas after = after_put after_get after_head after_delete after_create

lemma collision:
  assumes "contents s k = None" "\<And>s'. contents s' k = Some b \<Longrightarrow> P AlreadyExists s'"
  shows "unwrap (put_if_absent k b s) (\<lambda>_ s. unwrap (put_if_absent k b' s) P)"
  by (intro after_create(1) [OF assms(1)] after_create(2) assms(2))

lemma five: "n = of_nat (length (map byte_of ''12345'')) \<Longrightarrow> n = (5 :: u64)"
  by simp

abbreviation backend_record :: "'a blob_backend" where
  "backend_record \<equiv> \<lparr>bb_put = put, bb_get = get, bb_head = head, bb_delete = delete, bb_put_if_absent = put_if_absent\<rparr>"

lemma passes_s3_tests:
  assumes "contents s key = None" "tagged"
  shows "s3_tests key backend_record s"
  unfolding s3_tests_def s3_test_defs blob_backend.simps Let_def
  by (intro conjI collision after; simp add: assms same_refl is_not_found_def after del: list.map length_map) (erule five)

lemma passes_in_memory_tests:
  assumes new: "\<And>k. contents s k = None" and untagged: "\<not> tagged"
    and name: "\<And>k p s'. get k s = (Inl (BlobNotFound p), s') \<Longrightarrow> p = k"
    and missing: "\<And>k. contents s k = None \<Longrightarrow> \<exists>p s'. delete k s = (Inl (BlobNotFound p), s')"
  shows "in_memory_tests backend_record s"
proof -
  have "unwrap_err (delete ''absent'' s) (\<lambda>e s. is_not_found e)"
    using missing [OF new, of "''absent''"] by (auto simp: unwrap_err_def is_not_found_def)
  then show ?thesis
    unfolding in_memory_tests_def in_memory_test_defs blob_backend.simps Let_def
    by (intro conjI collision after; (assumption | simp add: new same_refl untagged is_not_found_def after del: list.map length_map)?)
      (erule five | (frule name, simp))+
qed

end

section \<open>The two backends\<close>

interpretation in_memory_answers: answering_storage in_memory_put in_memory_get in_memory_head in_memory_delete
    in_memory_put_if_absent "(=)" "\<lambda>m. m" False False
  by unfold_locales
    (auto simp: in_memory_head_def in_memory_delete_def try_result_def ok_or_def split: option.splits)

lemma s3_answers:
  assumes "object_store_sdk ops blobs" "\<not> store_can_fail ops"
    and "\<And>p w m w'. do_obj_head ops p w = (Inr m, w') \<Longrightarrow> om_e_tag m \<noteq> None"
  shows "answering_storage (\<lambda>k b. on_world ops (s3_put ext k b)) (\<lambda>k. on_world ops (s3_get ext k))
    (\<lambda>k. on_world ops (s3_head ext k)) (\<lambda>k. on_world ops (s3_delete ext k)) (\<lambda>k b. on_world ops (s3_put_if_absent ext k b))
    (\<lambda>k k'. object_path ext k = object_path ext k') (\<lambda>w k. blobs w (object_path ext k)) (store_can_fail ops) True"
proof (intro answering_storage.intro answering_storage_axioms.intro object_store_sdk.s3_blob_storage assms(1,2))
  fix k w m w'
  assume "on_world ops (s3_head ext k) w = (Inr m, w')"
  then show "bm_etag m \<noteq> None \<longleftrightarrow> True"
    using assms(3) by (auto simp: on_world_s3 result_map_eqs map_err_eq_Inr split: prod.splits)
qed

interpretation mem_s3_answers: answering_storage "\<lambda>k b. on_world (mem_ops False) (s3_put mem_crates k b)"
    "\<lambda>k. on_world (mem_ops False) (s3_get mem_crates k)" "\<lambda>k. on_world (mem_ops False) (s3_head mem_crates k)"
    "\<lambda>k. on_world (mem_ops False) (s3_delete mem_crates k)" "\<lambda>k b. on_world (mem_ops False) (s3_put_if_absent mem_crates k b)"
    "\<lambda>k k'. object_path mem_crates k = object_path mem_crates k'" "\<lambda>w k. mem_blobs w (object_path mem_crates k)"
    "store_can_fail (mem_ops False)" True
  by (rule s3_answers [OF mem_store.object_store_sdk_axioms mem_store_healthy])
    (auto simp: mem_obj_simps mem_call_healthy split: option.splits)

section \<open>Property\<close>

text \<open>C37: the tests of the storage crate hold of their backends: those of the S3 backend over every object store that
  keeps S3's laws, does not fail and reports an etag, for every key that is not in use; those of the in-memory
  backend on a new storage. The tests differ where the backends do: the etag of \<open>head\<close> and \<open>delete\<close> of a missing key.\<close>

theorem storage_tests_pass:
  assumes "object_store_sdk ops blobs" and "\<not> store_can_fail ops"
    and "\<And>p w m w'. do_obj_head ops p w = (Inr m, w') \<Longrightarrow> om_e_tag m \<noteq> None"
    and "blobs w (object_path ext key) = None"
  shows "s3_tests key (s3_backend ext ops) w \<and> in_memory_tests in_memory_backend in_memory_new"
proof
  show "s3_tests key (s3_backend ext ops) w"
    unfolding s3_backend_def
    by (rule answering_storage.passes_s3_tests [OF s3_answers [OF assms(1-3)]]) (simp_all add: assms(4))
  show "in_memory_tests in_memory_backend in_memory_new"
    unfolding in_memory_backend_def
    by (rule in_memory_answers.passes_in_memory_tests)
      (auto simp: in_memory_new_def in_memory_get_def in_memory_delete_def ok_or_def split: option.splits)
qed

lemma storage_tests_pass_witness:
  "s3_tests ''test/1/blob'' (s3_backend mem_crates (mem_ops False)) empty_world \<and> in_memory_tests in_memory_backend in_memory_new"
  by (rule storage_tests_pass [OF mem_store.object_store_sdk_axioms mem_store_healthy])
    (auto simp: mem_obj_simps mem_call_healthy mem_blobs_def empty_world_def split: option.splits)

end
