(* ===== verification/Core_Tests.thy ===== *)
theory Core_Tests
  imports Core_Record
begin

text \<open>
  The test module of \<open>crates/objectrecords-core/src/lib.rs\<close>, run on the model. A test is a definition that
  computes to the conjunction of its assertions, over the ids its calls of \<open>Uuid::now_v7()\<close> draw, in the order
  of the calls. Two tests are left out: the order of the ids is the \<open>uuid\<close> crate's, and
  \<open>fix_transitions_to_fixed_state\<close> asserts a type only.
\<close>

section \<open>Idioms of the tests\<close>

text \<open>A byte string literal; \<open>unwrap()\<close> or \<open>expect()\<close>, and \<open>unwrap_err()\<close>, with the assertions on the value; the
  substring test \<open>contains\<close>.\<close>

definition utf8 :: "string \<Rightarrow> byte list" where
  "utf8 s = map byte_of s"

definition ok_then :: "'e + 'a \<Rightarrow> ('a \<Rightarrow> bool) \<Rightarrow> bool" where
  "ok_then r assertions = (case r of Inl _ \<Rightarrow> False | Inr x \<Rightarrow> assertions x)"

definition err_then :: "'e + 'a \<Rightarrow> ('e \<Rightarrow> bool) \<Rightarrow> bool" where
  "err_then r assertions = (case r of Inl e \<Rightarrow> assertions e | Inr _ \<Rightarrow> False)"

fun str_contains :: "string \<Rightarrow> string \<Rightarrow> bool" where
  "str_contains [] needle = (needle = [])"
| "str_contains (c # s) needle = (strip_prefix needle (c # s) \<noteq> None \<or> str_contains s needle)"

lemma str_contains_Cons:
  "str_contains (c # s) needle \<longleftrightarrow> (\<exists>b. c # s = needle @ b) \<or> str_contains s needle"
  using strip_prefix_eq_Some [of needle "c # s"]
  by (cases "strip_prefix needle (c # s)") (auto simp del: strip_prefix.simps)

lemma str_contains_infix: "str_contains s needle \<longleftrightarrow> (\<exists>a b. s = a @ needle @ b)"
proof (induction s)
  case (Cons c s)
  have "(\<exists>a b. c # s = a @ needle @ b) \<longleftrightarrow> (\<exists>b. c # s = needle @ b) \<or> (\<exists>a b. s = a @ needle @ b)"
    by (metis append_Cons append_Nil list.exhaust list.inject)
  then show ?case unfolding str_contains_Cons Cons.IH by simp
qed simp

lemmas test_idioms = utf8_def ok_then_def err_then_def

section \<open>Creation and versions\<close>

definition test_mutable_record_can_be_created :: "uuid \<Rightarrow> uuid \<Rightarrow> bool" where
  "test_mutable_record_can_be_created i v =
     (let record = record_new i v Log (Inline (utf8 ''hello'')) in
      length (rec_versions record) = 1 \<and> previous_version record = None)"

definition test_update_appends_to_version_chain :: "uuid \<Rightarrow> uuid \<Rightarrow> uuid \<Rightarrow> bool" where
  "test_update_appends_to_version_chain i v u =
     (let record = record_new i v Log (Inline [1]); original_id = rec_id record;
          record = update u (Inline [2]) record in
      rec_id record = original_id \<and> length (rec_versions record) = 2)"

definition test_kind_custom_rejects_non_creo_first_party_prefix :: bool where
  "test_kind_custom_rejects_non_creo_first_party_prefix =
     (let first_party_ok = Custom ''creo:internal''; user_ok = Custom ''user:my-thing'' in
      RESERVED_CUSTOM_PREFIX = ''creo:'')"

definition test_mutable_asset_content_hash_is_optional :: "uuid \<Rightarrow> uuid \<Rightarrow> bool" where
  "test_mutable_asset_content_hash_is_optional i v =
     (let record = record_new i v Asset (BlobRef ''/mutable/abc'' 4) in rec_content_hash record = None)"

definition test_previous_version_links_to_chain_tail :: "uuid \<Rightarrow> uuid \<Rightarrow> uuid \<Rightarrow> bool" where
  "test_previous_version_links_to_chain_tail i v u =
     (let record = update u (Inline [2]) (record_new i v Log (Inline [1]));
          versions = rec_versions record in
      case previous_version record of
        None \<Rightarrow> False
      | Some previous \<Rightarrow> previous = ver_id (versions ! (length versions - 2)))"

section \<open>Fossilization\<close>

definition test_fixed_asset_requires_content_hash :: "uuid \<Rightarrow> uuid \<Rightarrow> bool" where
  "test_fixed_asset_requires_content_hash i v =
     (let record = record_new i v Asset (BlobRef ''/mutable/abc'' 4);
          fixed = mutable_fix record (Sha256Hash (replicate 32 0xAB)) in
      rec_content_hash fixed \<noteq> None)"

definition test_fixed_storage_key_uses_content_hash :: "uuid \<Rightarrow> uuid \<Rightarrow> bool" where
  "test_fixed_storage_key_uses_content_hash i v =
     (let record = record_new i v Asset (BlobRef ''/mutable/will-be-overwritten'' 0);
          hash = Sha256Hash (replicate 32 0xCD);
          fixed = mutable_fix record hash in
      case record_body fixed of
        Some (BlobRef key _) \<Rightarrow>
          strip_prefix ''/fixed/'' key \<noteq> None \<and> key = ''/fixed/'' @ concat (replicate 32 ''cd'')
      | _ \<Rightarrow> False)"

section \<open>Annual rings\<close>

text \<open>\<open>match &versions[n].body { Body::Inline(b) => assert_eq!(\<dots>), \<dots> => panic! }\<close>.\<close>

definition inline_is :: "version list \<Rightarrow> nat \<Rightarrow> string \<Rightarrow> bool" where
  "inline_is versions n s =
     (n < length versions \<and> (case ver_body (versions ! n) of Inline b \<Rightarrow> b = utf8 s | BlobRef _ _ \<Rightarrow> False))"

definition test_versions_preserve_full_body_history :: "uuid \<Rightarrow> uuid \<Rightarrow> uuid \<Rightarrow> uuid \<Rightarrow> bool" where
  "test_versions_preserve_full_body_history i v u u' =
     (let record = record_new i v Log (Inline (utf8 ''v1''));
          record = update u (Inline (utf8 ''v2'')) record;
          record = update u' (Inline (utf8 ''v3'')) record;
          versions = rec_versions record in
      length versions = 3 \<and> inline_is versions 0 ''v1'' \<and> inline_is versions 1 ''v2'' \<and> inline_is versions 2 ''v3'')"

definition test_fix_preserves_full_version_history :: "uuid \<Rightarrow> uuid \<Rightarrow> uuid \<Rightarrow> bool" where
  "test_fix_preserves_full_version_history i v u =
     (let record = record_new i v Log (Inline (utf8 ''v1''));
          record = update u (Inline (utf8 ''v2'')) record;
          fixed = mutable_fix record (Sha256Hash (replicate 32 0)) in
      length (rec_versions fixed) = 2 \<and> inline_is (rec_versions fixed) 0 ''v1'' \<and> inline_is (rec_versions fixed) 1 ''v2'')"

section \<open>Snapshots\<close>

definition test_snapshot_can_be_taken_from_mutable :: "uuid \<Rightarrow> uuid \<Rightarrow> uuid \<Rightarrow> bool" where
  "test_snapshot_can_be_taken_from_mutable i v u =
     (let record = record_new i v Log (Inline (utf8 ''v1''));
          record = update u (Inline (utf8 ''v2'')) record;
          snap = snapshot_of record in
      length (rec_versions snap) = 2 \<and> rec_id snap = rec_id record)"

definition test_mutable_continues_evolving_after_snapshot :: "uuid \<Rightarrow> uuid \<Rightarrow> uuid \<Rightarrow> bool" where
  "test_mutable_continues_evolving_after_snapshot i v u =
     (let record = record_new i v Log (Inline (utf8 ''v1''));
          snap = snapshot_of record;
          record = update u (Inline (utf8 ''v2'')) record in
      length (rec_versions snap) = 1 \<and> length (rec_versions record) = 2)"

definition test_snapshot_can_be_fossilized :: "uuid \<Rightarrow> uuid \<Rightarrow> bool" where
  "test_snapshot_can_be_fossilized i v =
     (let record = record_new i v Log (Inline (utf8 ''draft''));
          snap = snapshot_of record;
          fixed = snapshot_fix snap (Sha256Hash (replicate 32 0)) in
      length (rec_versions fixed) = 1 \<and> rec_content_hash fixed \<noteq> None)"

definition test_snapshot_of_asset_preserves_mutable_blob_key :: "uuid \<Rightarrow> uuid \<Rightarrow> bool" where
  "test_snapshot_of_asset_preserves_mutable_blob_key i v =
     (let record = record_new i v Asset (BlobRef ''/mutable/draft-abc'' 12);
          snap = snapshot_of record in
      case record_body snap of
        Some (BlobRef key sz) \<Rightarrow> key = ''/mutable/draft-abc'' \<and> sz = 12
      | _ \<Rightarrow> False)"

section \<open>The run\<close>

text \<open>The printed digest of \<open>[0xCD; 32]\<close>.\<close>

lemma hash_of_copies: "hash_to_string (Sha256Hash (replicate n b)) = concat (replicate n (fmt_02x b))"
  by (simp add: hash_to_string_def)

lemma fmt_cd: "fmt_02x 0xCD = ''cd''"
  by (code_simp)

lemma core_creation_tests:
  "test_mutable_record_can_be_created i v" "test_update_appends_to_version_chain i v u"
  "test_kind_custom_rejects_non_creo_first_party_prefix" "test_mutable_asset_content_hash_is_optional i v"
  "test_previous_version_links_to_chain_tail i v u"
  by (simp_all add: test_mutable_record_can_be_created_def test_update_appends_to_version_chain_def
      test_kind_custom_rejects_non_creo_first_party_prefix_def test_mutable_asset_content_hash_is_optional_def
      test_previous_version_links_to_chain_tail_def record_new_def previous_version_def update_def RESERVED_CUSTOM_PREFIX_def)

lemma core_fossil_tests:
  "test_fixed_asset_requires_content_hash i v" "test_fixed_storage_key_uses_content_hash i v"
  "test_fix_preserves_full_version_history i v u" "test_versions_preserve_full_body_history i v u u'"
  by (simp_all add: test_fixed_asset_requires_content_hash_def test_fixed_storage_key_uses_content_hash_def
      test_fix_preserves_full_version_history_def test_versions_preserve_full_body_history_def mutable_fix_def fossilize_def
      fossilize_body_def record_new_def record_body_def update_def inline_is_def hash_of_copies fmt_cd del: hash_to_string_simps)

lemma core_snapshot_tests:
  "test_snapshot_can_be_taken_from_mutable i v u" "test_mutable_continues_evolving_after_snapshot i v u"
  "test_snapshot_can_be_fossilized i v" "test_snapshot_of_asset_preserves_mutable_blob_key i v"
  by (simp_all add: test_snapshot_can_be_taken_from_mutable_def test_mutable_continues_evolving_after_snapshot_def
      test_snapshot_can_be_fossilized_def test_snapshot_of_asset_preserves_mutable_blob_key_def snapshot_of_def snapshot_fix_def
      fossilize_def record_new_def record_body_def update_def)

text \<open>All tests, over the ids of at most four calls of \<open>Uuid::now_v7()\<close>.\<close>

definition core_tests :: "uuid \<Rightarrow> uuid \<Rightarrow> uuid \<Rightarrow> uuid \<Rightarrow> bool" where
  "core_tests i v u u' \<longleftrightarrow>
     test_mutable_record_can_be_created i v \<and>
     test_update_appends_to_version_chain i v u \<and>
     test_kind_custom_rejects_non_creo_first_party_prefix \<and>
     test_mutable_asset_content_hash_is_optional i v \<and>
     test_previous_version_links_to_chain_tail i v u \<and>
     test_fixed_asset_requires_content_hash i v \<and>
     test_fixed_storage_key_uses_content_hash i v \<and>
     test_versions_preserve_full_body_history i v u u' \<and>
     test_fix_preserves_full_version_history i v u \<and>
     test_snapshot_can_be_taken_from_mutable i v u \<and>
     test_mutable_continues_evolving_after_snapshot i v u \<and>
     test_snapshot_can_be_fossilized i v \<and>
     test_snapshot_of_asset_preserves_mutable_blob_key i v"

lemma core_tests_law: "core_tests i v u u'"
  unfolding core_tests_def by (intro conjI core_creation_tests core_fossil_tests core_snapshot_tests)

end
