(* ===== verification/Api_Tests.thy ===== *)
theory Api_Tests
  imports Core_Tests Digest_Text Router
begin

text \<open>
  The unit tests of \<open>objectrecords-api\<close>, run on the model: the modules of \<open>error.rs\<close>, \<open>storage.rs\<close>, \<open>auth.rs\<close>,
  \<open>routes/assets.rs\<close> and \<open>routes/records.rs\<close>, one definition a test. The pure third-party functions are the
  parameter \<open>ext\<close> (or the case table \<open>uni\<close>). Left out are the tests of those functions alone: the decoding of JSON
  (five tests), of base64 (two), and the SHA-256 vectors of \<open>sha256_of\<close> (two).
\<close>

section \<open>\<open>error.rs\<close>\<close>

definition test_status_and_kind_phase_4_0_baseline :: bool where
  "test_status_and_kind_phase_4_0_baseline \<longleftrightarrow>
     status_and_kind Unauthorized = (401, ''Unauthorized'') \<and>
     status_and_kind NotFound = (404, ''NotFound'') \<and>
     status_and_kind ApiAlreadyExists = (409, ''AlreadyExists'') \<and>
     status_and_kind (BadRequest ''malformed uuid'') = (400, ''BadRequest'') \<and>
     status_and_kind Internal = (500, ''Internal'')"

definition test_state_conflict_is_409 :: bool where
  "test_state_conflict_is_409 \<longleftrightarrow>
     (let err = StateConflict ''mutable'' ''fixed'' in status_and_kind err = (409, ''StateConflict''))"

definition test_hash_mismatch_is_400 :: bool where
  "test_hash_mismatch_is_400 \<longleftrightarrow>
     (let err = HashMismatch ''abc'' ''def'' in status_and_kind err = (400, ''HashMismatch''))"

definition test_forbidden_is_403 :: bool where
  "test_forbidden_is_403 \<longleftrightarrow>
     (let err = Forbidden ''scope objectrecords:write required'' in status_and_kind err = (403, ''Forbidden''))"

definition test_payload_too_large_is_413 :: bool where
  "test_payload_too_large_is_413 \<longleftrightarrow>
     (let err = PayloadTooLarge 20000000 10485760 in status_and_kind err = (413, ''PayloadTooLarge''))"

definition test_db_state_mismatch_maps_to_state_conflict :: bool where
  "test_db_state_mismatch_maps_to_state_conflict \<longleftrightarrow>
     (let dberr = StateMismatch ''fixed'' ''mutable | snapshot'' in
      case api_error_from dberr of
        StateConflict expected actual \<Rightarrow> expected = ''mutable | snapshot'' \<and> actual = ''fixed''
      | _ \<Rightarrow> False)"

definition test_db_already_exists_maps_to_already_exists :: bool where
  "test_db_already_exists_maps_to_already_exists \<longleftrightarrow>
     (let dberr = DbAlreadyExists 0 in api_error_from dberr = ApiAlreadyExists)"

definition test_state_conflict_display_includes_both_states :: bool where
  "test_state_conflict_display_includes_both_states \<longleftrightarrow>
     (let err = StateConflict ''mutable'' ''fixed''; s = api_error_to_string err in
      str_contains s ''mutable'' \<and> str_contains s ''fixed'')"

definition test_forbidden_display_includes_reason :: bool where
  "test_forbidden_display_includes_reason \<longleftrightarrow>
     (let err = Forbidden ''scope foo required'' in str_contains (api_error_to_string err) ''scope foo required'')"

section \<open>\<open>storage.rs\<close>\<close>

text \<open>The closure over a table of pairs: the first entry of a name is its value.\<close>

definition lookup :: "(string \<times> string) list \<Rightarrow> string \<Rightarrow> string option" where
  "lookup pairs key = map_option snd (find (\<lambda>(name, _). name = key) pairs)"

definition test_storage_all_unset_resolves_to_disabled :: "(string \<Rightarrow> string) \<Rightarrow> bool" where
  "test_storage_all_unset_resolves_to_disabled uni \<longleftrightarrow>
     ok_then (storage_env_from_vars uni (lookup [])) (\<lambda>env. env = StorageDisabled)"

definition test_all_required_set_resolves_to_enabled_with_defaults :: "(string \<Rightarrow> string) \<Rightarrow> bool" where
  "test_all_required_set_resolves_to_enabled_with_defaults uni \<longleftrightarrow>
     ok_then (storage_env_from_vars uni (lookup
         [(ENV_S3_ENDPOINT, ''http://localhost:8333''), (ENV_S3_BUCKET, ''objectrecords-live''),
          (ENV_S3_ACCESS_KEY, ''ak''), (ENV_S3_SECRET_KEY, ''sk'')])) (\<lambda>env.
       env = StorageEnabled
         \<lparr>s3_endpoint = ''http://localhost:8333'', s3_region = ''us-east-1'', s3_bucket = ''objectrecords-live'',
          s3_access_key = ''ak'', s3_secret_key = ''sk'', s3_allow_http = False\<rparr>)"

definition test_region_override_applied :: "(string \<Rightarrow> string) \<Rightarrow> bool" where
  "test_region_override_applied uni \<longleftrightarrow>
     ok_then (storage_env_from_vars uni (lookup
         [(ENV_S3_ENDPOINT, ''https://r2.example.com''), (ENV_S3_BUCKET, ''or''), (ENV_S3_ACCESS_KEY, ''ak''),
          (ENV_S3_SECRET_KEY, ''sk''), (ENV_S3_REGION, ''auto'')])) (\<lambda>env.
       case env of StorageEnabled config \<Rightarrow> s3_region config = ''auto'' | StorageDisabled \<Rightarrow> False)"

definition test_allow_http_truthy_values :: "(string \<Rightarrow> string) \<Rightarrow> bool" where
  "test_allow_http_truthy_values uni \<longleftrightarrow>
     list_all (\<lambda>v.
       ok_then (storage_env_from_vars uni (lookup
           [(ENV_S3_ENDPOINT, ''http://localhost:8333''), (ENV_S3_BUCKET, ''b''), (ENV_S3_ACCESS_KEY, ''ak''),
            (ENV_S3_SECRET_KEY, ''sk''), (ENV_S3_ALLOW_HTTP, v)])) (\<lambda>env.
         case env of StorageEnabled config \<Rightarrow> s3_allow_http config | StorageDisabled \<Rightarrow> False))
       [''true'', ''True'', ''TRUE'', ''1'', ''yes'', ''on'']"

definition test_allow_http_falsy_default :: "(string \<Rightarrow> string) \<Rightarrow> bool" where
  "test_allow_http_falsy_default uni \<longleftrightarrow>
     ok_then (storage_env_from_vars uni (lookup
         [(ENV_S3_ENDPOINT, ''https://r2.example.com''), (ENV_S3_BUCKET, ''b''), (ENV_S3_ACCESS_KEY, ''ak''),
          (ENV_S3_SECRET_KEY, ''sk'')])) (\<lambda>env.
       case env of StorageEnabled config \<Rightarrow> \<not> s3_allow_http config | StorageDisabled \<Rightarrow> False)"

definition test_storage_partial_config_is_rejected_loudly :: "(string \<Rightarrow> string) \<Rightarrow> bool" where
  "test_storage_partial_config_is_rejected_loudly uni \<longleftrightarrow>
     err_then (storage_env_from_vars uni (lookup
         [(ENV_S3_ENDPOINT, ''http://localhost:8333''), (ENV_S3_ACCESS_KEY, ''ak'')])) (\<lambda>missing.
       \<not> str_contains missing ENV_S3_ENDPOINT \<and> \<not> str_contains missing ENV_S3_ACCESS_KEY \<and>
       str_contains missing ENV_S3_BUCKET \<and> str_contains missing ENV_S3_SECRET_KEY)"

definition test_partial_with_optional_doesnt_trip_error :: "(string \<Rightarrow> string) \<Rightarrow> bool" where
  "test_partial_with_optional_doesnt_trip_error uni \<longleftrightarrow>
     ok_then (storage_env_from_vars uni (lookup [(ENV_S3_REGION, ''ap-northeast-1'')])) (\<lambda>env. env = StorageDisabled)"

section \<open>\<open>auth.rs\<close>\<close>

definition test_auth_all_unset_resolves_to_disabled :: bool where
  "test_auth_all_unset_resolves_to_disabled \<longleftrightarrow>
     ok_then (auth_env_from_vars (lookup [])) (\<lambda>env. env = AuthDisabled)"

definition test_all_set_resolves_to_enabled :: bool where
  "test_all_set_resolves_to_enabled \<longleftrightarrow>
     ok_then (auth_env_from_vars (lookup
         [(ENV_AUTH0_AUDIENCE, ''https://api.objectrecords.io''), (ENV_AUTH0_ISSUER, ''https://example.auth0.com/''),
          (ENV_AUTH0_JWKS_URL, ''https://example.auth0.com/.well-known/jwks.json'')])) (\<lambda>env.
       env = AuthEnabled ''https://api.objectrecords.io'' ''https://example.auth0.com/''
         ''https://example.auth0.com/.well-known/jwks.json'')"

definition test_auth_partial_config_is_rejected_loudly :: bool where
  "test_auth_partial_config_is_rejected_loudly \<longleftrightarrow>
     err_then (auth_env_from_vars (lookup [(ENV_AUTH0_AUDIENCE, ''https://api.objectrecords.io'')])) (\<lambda>missing.
       \<not> str_contains missing ENV_AUTH0_AUDIENCE \<and> str_contains missing ENV_AUTH0_ISSUER \<and>
       str_contains missing ENV_AUTH0_JWKS_URL)"

definition claims_with_scope :: "string \<Rightarrow> claims" where
  "claims_with_scope s =
     \<lparr>cl_sub = ''auth0|test'', cl_aud = ''https://api.objectrecords.io'', cl_iss = ''https://example.auth0.com/'',
      cl_exp = 0, cl_iat = None, cl_act = None, cl_scope = s\<rparr>"

definition test_has_scope_finds_exact_match :: bool where
  "test_has_scope_finds_exact_match \<longleftrightarrow>
     (let c = claims_with_scope ''objectrecords:read objectrecords:write'' in
      has_scope c ''objectrecords:read'' \<and> has_scope c ''objectrecords:write'')"

definition test_has_scope_missing_returns_false :: bool where
  "test_has_scope_missing_returns_false \<longleftrightarrow>
     (let c = claims_with_scope ''objectrecords:read'' in
      \<not> has_scope c ''objectrecords:write'' \<and> \<not> has_scope c ''admin'')"

definition test_has_scope_empty_returns_false :: bool where
  "test_has_scope_empty_returns_false \<longleftrightarrow>
     (let c = claims_with_scope '''' in \<not> has_scope c ''objectrecords:read'' \<and> \<not> has_scope c '''')"

definition test_has_scope_treats_substring_as_no_match :: bool where
  "test_has_scope_treats_substring_as_no_match \<longleftrightarrow>
     (let c = claims_with_scope ''objectrecords:read'' in
      \<not> has_scope c ''objectrecords:rea'' \<and> \<not> has_scope c ''objectrecords:read objectrecords:admin'')"

definition test_has_scope_ignores_extra_whitespace :: bool where
  "test_has_scope_ignores_extra_whitespace \<longleftrightarrow>
     (let c = claims_with_scope ''  objectrecords:read   objectrecords:write  '' in
      has_scope c ''objectrecords:read'' \<and> has_scope c ''objectrecords:write'' \<and> \<not> has_scope c '''')"

section \<open>\<open>routes/assets.rs\<close>\<close>

definition test_empty_body_is_bad_request :: "'x api_crates_scheme \<Rightarrow> bool" where
  "test_empty_body_is_bad_request ext \<longleftrightarrow>
     err_then (validate_asset_body ext [] ASSET_BODY_LIMIT) (\<lambda>err.
       case err of BadRequest msg \<Rightarrow> str_contains msg ''empty'' | _ \<Rightarrow> False)"

definition test_over_limit_is_payload_too_large :: "'x api_crates_scheme \<Rightarrow> bool" where
  "test_over_limit_is_payload_too_large ext \<longleftrightarrow>
     err_then (validate_asset_body ext (replicate 1024 0xCD) 100) (\<lambda>err.
       case err of PayloadTooLarge actual mx \<Rightarrow> actual = 1024 \<and> mx = 100 | _ \<Rightarrow> False)"

definition test_key_uses_sha256_hex_lowercase :: "'x api_crates_scheme \<Rightarrow> bool" where
  "test_key_uses_sha256_hex_lowercase ext \<longleftrightarrow>
     ok_then (validate_asset_body ext (utf8 ''hello'') ASSET_BODY_LIMIT) (\<lambda>(key, hex).
       let expected_hex = ''2cf24dba5fb0a30e26e83b2ac5b9e29e1b161e5c1fa7425e73043362938b9824'' in
       hex = expected_hex \<and> key = ''/assets/'' @ expected_hex \<and>
       hex = to_lowercase (unicode_lowercase ext) hex \<and> CHR '':'' \<notin> set hex \<and> CHR ''-'' \<notin> set hex)"

definition test_at_exact_limit_passes :: "'x api_crates_scheme \<Rightarrow> bool" where
  "test_at_exact_limit_passes ext \<longleftrightarrow> ok_then (validate_asset_body ext (replicate 1024 0xAB) 1024) (\<lambda>_. True)"

definition test_deterministic_key_across_calls :: "'x api_crates_scheme \<Rightarrow> bool" where
  "test_deterministic_key_across_calls ext \<longleftrightarrow>
     (let b = utf8 ''deterministic-payload'' in
      ok_then (validate_asset_body ext b ASSET_BODY_LIMIT) (\<lambda>(k1, h1).
      ok_then (validate_asset_body ext b ASSET_BODY_LIMIT) (\<lambda>(k2, h2). k1 = k2 \<and> h1 = h2)))"

section \<open>\<open>routes/records.rs\<close>\<close>

definition is_bad_request :: "api_error + 'a \<Rightarrow> bool" where
  "is_bad_request r = (case r of Inl (BadRequest _) \<Rightarrow> True | _ \<Rightarrow> False)"

text \<open>A pure function that may panic: a panic fails the test.\<close>

definition done_then :: "'a outcome \<Rightarrow> ('a \<Rightarrow> bool) \<Rightarrow> bool" where
  "done_then out assertions = (case out of Done r \<Rightarrow> assertions r | Panicked _ \<Rightarrow> False)"

definition test_into_core_body_rejects_empty_inline_b64 :: "'x api_crates_scheme \<Rightarrow> bool" where
  "test_into_core_body_rejects_empty_inline_b64 ext \<longleftrightarrow>
     (case into_core_body ext (InlineB64 []) of Inl (BadRequest msg) \<Rightarrow> str_contains msg ''empty'' | _ \<Rightarrow> False)"

definition test_into_core_body_blob_ref_passes_through :: "'x api_crates_scheme \<Rightarrow> bool" where
  "test_into_core_body_blob_ref_passes_through ext \<longleftrightarrow>
     ok_then (into_core_body ext (BlobRefInput ''/assets/sha256hex'' 100)) (\<lambda>core.
       case core of BlobRef key sz \<Rightarrow> key = ''/assets/sha256hex'' \<and> sz = 100 | Inline _ \<Rightarrow> False)"

definition test_into_core_body_rejects_empty_blob_ref_key :: "'x api_crates_scheme \<Rightarrow> bool" where
  "test_into_core_body_rejects_empty_blob_ref_key ext \<longleftrightarrow> is_bad_request (into_core_body ext (BlobRefInput [] 0))"

definition test_parse_kind_predefined_variants :: bool where
  "test_parse_kind_predefined_variants \<longleftrightarrow>
     ok_then (parse_kind ''log'') (\<lambda>k. k = Log) \<and> ok_then (parse_kind ''fix'') (\<lambda>k. k = Fix) \<and>
     ok_then (parse_kind ''dataset'') (\<lambda>k. k = Dataset) \<and> ok_then (parse_kind ''asset'') (\<lambda>k. k = Asset)"

definition test_parse_kind_custom_passes_through :: bool where
  "test_parse_kind_custom_passes_through \<longleftrightarrow>
     ok_then (parse_kind ''creo:memory'') (\<lambda>k. case k of Custom s \<Rightarrow> s = ''creo:memory'' | _ \<Rightarrow> False)"

definition test_parse_kind_empty_rejected :: bool where
  "test_parse_kind_empty_rejected \<longleftrightarrow> is_bad_request (parse_kind [])"

definition test_creator_from_claims_uses_sub_when_present :: bool where
  "test_creator_from_claims_uses_sub_when_present \<longleftrightarrow>
     (let c = \<lparr>cl_sub = ''auth0|abc123'', cl_aud = ''a'', cl_iss = ''i'', cl_exp = 0, cl_iat = None, cl_act = None,
               cl_scope = []\<rparr> in
      creator_from_claims (Some c) = ''creo_user:auth0|abc123'')"

definition test_creator_from_claims_anonymous_when_missing :: bool where
  "test_creator_from_claims_anonymous_when_missing \<longleftrightarrow> creator_from_claims None = ''creo_user:anonymous''"

definition test_parse_sha256_hex_valid_lowercase :: "'x api_crates_scheme \<Rightarrow> bool" where
  "test_parse_sha256_hex_valid_lowercase ext \<longleftrightarrow>
     (let s = ''2cf24dba5fb0a30e26e83b2ac5b9e29e1b161e5c1fa7425e73043362938b9824'' in
      done_then (api_parse_sha256_hex ext s) (\<lambda>r. ok_then r (\<lambda>h. hash_to_string h = s)))"

definition test_parse_sha256_hex_rejects_uppercase :: "'x api_crates_scheme \<Rightarrow> bool" where
  "test_parse_sha256_hex_rejects_uppercase ext \<longleftrightarrow>
     (let s = ''2CF24DBA5FB0A30E26E83B2AC5B9E29E1B161E5C1FA7425E73043362938B9824'' in
      done_then (api_parse_sha256_hex ext s) is_bad_request)"

definition test_parse_sha256_hex_rejects_wrong_length :: "'x api_crates_scheme \<Rightarrow> bool" where
  "test_parse_sha256_hex_rejects_wrong_length ext \<longleftrightarrow>
     done_then (api_parse_sha256_hex ext []) is_bad_request \<and>
     done_then (api_parse_sha256_hex ext ''abc'') is_bad_request \<and>
     done_then (api_parse_sha256_hex ext (replicate 63 (CHR ''a''))) is_bad_request \<and>
     done_then (api_parse_sha256_hex ext (replicate 65 (CHR ''a''))) is_bad_request"

definition test_parse_sha256_hex_rejects_non_hex_chars :: "'x api_crates_scheme \<Rightarrow> bool" where
  "test_parse_sha256_hex_rejects_non_hex_chars ext \<longleftrightarrow>
     done_then (api_parse_sha256_hex ext (CHR ''z'' # replicate 63 (CHR ''a''))) is_bad_request"

definition test_parse_sha256_hex_zero_hash_round_trip :: "'x api_crates_scheme \<Rightarrow> bool" where
  "test_parse_sha256_hex_zero_hash_round_trip ext \<longleftrightarrow>
     (let zero = replicate 64 (CHR ''0'') in
      done_then (api_parse_sha256_hex ext zero) (\<lambda>r. ok_then r (\<lambda>h. hash_bytes h = replicate 32 0 \<and> hash_to_string h = zero)))"

definition test_sha256_of_round_trip_with_parse :: "'x api_crates_scheme \<Rightarrow> bool" where
  "test_sha256_of_round_trip_with_parse ext \<longleftrightarrow>
     (let h = sha256_of ext (utf8 ''deterministic'') in
      done_then (api_parse_sha256_hex ext (hash_to_string h)) (\<lambda>r. ok_then r (\<lambda>parsed. hash_bytes parsed = hash_bytes h)))"

section \<open>The runs\<close>

lemma error_tests:
  "test_status_and_kind_phase_4_0_baseline" "test_state_conflict_is_409" "test_hash_mismatch_is_400" "test_forbidden_is_403"
  "test_payload_too_large_is_413" "test_db_state_mismatch_maps_to_state_conflict"
  "test_db_already_exists_maps_to_already_exists"
  "test_state_conflict_display_includes_both_states" "test_forbidden_display_includes_reason"
  by (simp_all add: test_status_and_kind_phase_4_0_baseline_def test_state_conflict_is_409_def test_hash_mismatch_is_400_def
      test_forbidden_is_403_def test_payload_too_large_is_413_def test_db_state_mismatch_maps_to_state_conflict_def
      test_db_already_exists_maps_to_already_exists_def test_state_conflict_display_includes_both_states_def
      test_forbidden_display_includes_reason_def status_and_kind_def api_error_from_def api_error_to_string_def Let_def)

lemma lookup_simps [simp]:
  "lookup [] key = None"
  "lookup ((name, v) # pairs) key = (if name = key then Some v else lookup pairs key)"
  by (simp_all add: lookup_def)

text \<open>The names of the variables, as characters.\<close>

lemmas env_names = ENV_S3_ENDPOINT_def ENV_S3_BUCKET_def ENV_S3_ACCESS_KEY_def ENV_S3_SECRET_KEY_def ENV_S3_REGION_def
  ENV_S3_ALLOW_HTTP_def ENV_AUTH0_AUDIENCE_def ENV_AUTH0_ISSUER_def ENV_AUTH0_JWKS_URL_def

text \<open>The lower case of the values that turn plain HTTP on.\<close>

lemma truthy_values:
  "list_all (\<lambda>v. to_lowercase uni v \<in> {''1'', ''true'', ''yes'', ''on''}) [''true'', ''True'', ''TRUE'', ''1'', ''yes'', ''on'']"
proof -
  have "list_all (\<lambda>v. is_ascii v \<and> map ascii_lower v \<in> {''1'', ''true'', ''yes'', ''on''})
      [''true'', ''True'', ''TRUE'', ''1'', ''yes'', ''on'']"
    by code_simp
  then show ?thesis by (auto simp: to_lowercase_def list_all_iff)
qed

lemma storage_env_tests:
  "test_storage_all_unset_resolves_to_disabled uni" "test_all_required_set_resolves_to_enabled_with_defaults uni"
  "test_region_override_applied uni" "test_allow_http_truthy_values uni" "test_allow_http_falsy_default uni"
  "test_storage_partial_config_is_rejected_loudly uni" "test_partial_with_optional_doesnt_trip_error uni"
  using truthy_values [of uni]
  by (simp_all add: test_storage_all_unset_resolves_to_disabled_def test_all_required_set_resolves_to_enabled_with_defaults_def
      test_region_override_applied_def test_allow_http_truthy_values_def test_allow_http_falsy_default_def
      test_storage_partial_config_is_rejected_loudly_def test_partial_with_optional_doesnt_trip_error_def
      storage_env_from_vars_def ok_then_def err_then_def missing_names_def map_filter_simps Let_def env_names)

lemma auth_env_tests:
  "test_auth_all_unset_resolves_to_disabled" "test_all_set_resolves_to_enabled" "test_auth_partial_config_is_rejected_loudly"
  by (simp_all add: test_auth_all_unset_resolves_to_disabled_def test_all_set_resolves_to_enabled_def
      test_auth_partial_config_is_rejected_loudly_def auth_env_from_vars_def ok_then_def err_then_def missing_names_def
      map_filter_simps Let_def env_names)

lemma scope_tests:
  "test_has_scope_finds_exact_match" "test_has_scope_missing_returns_false" "test_has_scope_empty_returns_false"
  "test_has_scope_treats_substring_as_no_match" "test_has_scope_ignores_extra_whitespace"
  by code_simp+

lemma kind_and_creator_tests:
  "test_parse_kind_predefined_variants" "test_parse_kind_custom_passes_through" "test_parse_kind_empty_rejected"
  "test_creator_from_claims_uses_sub_when_present" "test_creator_from_claims_anonymous_when_missing"
  by (simp_all add: test_parse_kind_predefined_variants_def test_parse_kind_custom_passes_through_def
      test_parse_kind_empty_rejected_def test_creator_from_claims_uses_sub_when_present_def
      test_creator_from_claims_anonymous_when_missing_def parse_kind_def creator_from_claims_def ok_then_def is_bad_request_def)

lemma body_tests:
  "test_into_core_body_rejects_empty_inline_b64 ext" "test_into_core_body_blob_ref_passes_through ext"
  "test_into_core_body_rejects_empty_blob_ref_key ext"
  by (simp_all add: test_into_core_body_rejects_empty_inline_b64_def test_into_core_body_blob_ref_passes_through_def
      test_into_core_body_rejects_empty_blob_ref_key_def into_core_body_def ok_then_def is_bad_request_def)

definition hello_digest :: sha256_hash where
  "hello_digest = Sha256Hash
     [0x2C, 0xF2, 0x4D, 0xBA, 0x5F, 0xB0, 0xA3, 0x0E, 0x26, 0xE8, 0x3B, 0x2A, 0xC5, 0xB9, 0xE2, 0x9E, 0x1B, 0x16, 0x1E, 0x5C, 0x1F, 0xA7, 0x42, 0x5E, 0x73, 0x04, 0x33, 0x62, 0x93, 0x8B, 0x98, 0x24]"

lemma hello_digest_text: "hash_to_string hello_digest = ''2cf24dba5fb0a30e26e83b2ac5b9e29e1b161e5c1fa7425e73043362938b9824''" "hash_wf hello_digest"
  by code_simp+

lemma zero_digest_text: "hash_to_string (Sha256Hash (replicate 32 0)) = replicate 64 (CHR ''0'')"
  by code_simp

lemma zero_digest_wf: "hash_wf (Sha256Hash (replicate 32 0))"
  by (simp add: hash_wf_def)

lemma parsed_tests:
  "test_parse_sha256_hex_valid_lowercase ext" "test_parse_sha256_hex_zero_hash_round_trip ext"
  using api_parse_hash [OF hello_digest_text(2), of ext] api_parse_hash [OF zero_digest_wf, of ext]
  unfolding hello_digest_text(1) zero_digest_text
  by (simp_all add: test_parse_sha256_hex_valid_lowercase_def test_parse_sha256_hex_zero_hash_round_trip_def done_then_def
      ok_then_def hello_digest_text(1) zero_digest_text Let_def del: hash_to_string_simps)

lemma upper_case_text:
  "(let s = ''2CF24DBA5FB0A30E26E83B2AC5B9E29E1B161E5C1FA7425E73043362938B9824'' in length s = 64 \<and> is_ascii s \<and> s \<noteq> map ascii_lower s)"
  by code_simp

lemma bad_digit_text:
  "(let s = CHR ''z'' # replicate 63 (CHR ''a'') in
    length s = 64 \<and> is_ascii s \<and> s = map ascii_lower s \<and> done_then (hex_bytes s [0..<32]) is_bad_request)"
  by code_simp

lemma refused_tests:
  "test_parse_sha256_hex_rejects_uppercase ext" "test_parse_sha256_hex_rejects_wrong_length ext"
  "test_parse_sha256_hex_rejects_non_hex_chars ext"
proof -
  show "test_parse_sha256_hex_rejects_uppercase ext"
    using upper_case_text unfolding test_parse_sha256_hex_rejects_uppercase_def Let_def api_parse_sha256_hex_def to_lowercase_def
    by (simp only: if_True if_False simp_thms) (simp add: done_then_def is_bad_request_def)
  show "test_parse_sha256_hex_rejects_wrong_length ext"
    by (simp add: test_parse_sha256_hex_rejects_wrong_length_def api_parse_sha256_hex_def done_then_def is_bad_request_def)
  show "test_parse_sha256_hex_rejects_non_hex_chars ext"
    using bad_digit_text
    unfolding test_parse_sha256_hex_rejects_non_hex_chars_def Let_def api_parse_sha256_hex_def to_lowercase_def
    by (simp only: if_True if_False simp_thms)
      (auto simp: done_then_def is_bad_request_def map_ok_def split: outcome.splits sum.splits api_error.splits)
qed

context digests
begin

lemma round_trip_test: "test_sha256_of_round_trip_with_parse ext"
  using digest_wf [of "utf8 ''deterministic''"]
  by (simp add: test_sha256_of_round_trip_with_parse_def done_then_def ok_then_def sha256_of_def Let_def)

lemma upload_tests:
  "test_empty_body_is_bad_request ext" "test_over_limit_is_payload_too_large ext" "test_at_exact_limit_passes ext"
  "test_deterministic_key_across_calls ext"
  by (simp_all add: test_empty_body_is_bad_request_def test_over_limit_is_payload_too_large_def test_at_exact_limit_passes_def
      test_deterministic_key_across_calls_def validate_asset_body_def ok_then_def err_then_def utf8_def Let_def
      ASSET_BODY_LIMIT_def)

lemma key_test:
  assumes "sha256 ext (utf8 ''hello'') = hash_bytes hello_digest"
  shows "test_key_uses_sha256_hex_lowercase ext"
proof -
  have hex: "lower_hex ext (sha256 ext (utf8 ''hello'')) = hash_to_string hello_digest"
    by (simp add: lower_hex_text assms)
  have plain: "to_lowercase (unicode_lowercase ext) (hash_to_string hello_digest) = hash_to_string hello_digest"
    by simp
  show ?thesis
    unfolding test_key_uses_sha256_hex_lowercase_def ok_then_def validate_asset_body_def hex Let_def
    using plain unfolding hello_digest_text(1)
    by (simp add: utf8_def ASSET_BODY_LIMIT_def del: to_lowercase_def)
qed

end

section \<open>All tests\<close>

definition api_tests :: "'x api_crates_scheme \<Rightarrow> bool" where
  "api_tests ext \<longleftrightarrow>
     test_status_and_kind_phase_4_0_baseline \<and>
     test_state_conflict_is_409 \<and>
     test_hash_mismatch_is_400 \<and>
     test_forbidden_is_403 \<and>
     test_payload_too_large_is_413 \<and>
     test_db_state_mismatch_maps_to_state_conflict \<and>
     test_db_already_exists_maps_to_already_exists \<and>
     test_state_conflict_display_includes_both_states \<and>
     test_forbidden_display_includes_reason \<and>
     test_storage_all_unset_resolves_to_disabled (unicode_lowercase ext) \<and>
     test_all_required_set_resolves_to_enabled_with_defaults (unicode_lowercase ext) \<and>
     test_region_override_applied (unicode_lowercase ext) \<and>
     test_allow_http_truthy_values (unicode_lowercase ext) \<and>
     test_allow_http_falsy_default (unicode_lowercase ext) \<and>
     test_storage_partial_config_is_rejected_loudly (unicode_lowercase ext) \<and>
     test_partial_with_optional_doesnt_trip_error (unicode_lowercase ext) \<and>
     test_auth_all_unset_resolves_to_disabled \<and>
     test_all_set_resolves_to_enabled \<and>
     test_auth_partial_config_is_rejected_loudly \<and>
     test_has_scope_finds_exact_match \<and>
     test_has_scope_missing_returns_false \<and>
     test_has_scope_empty_returns_false \<and>
     test_has_scope_treats_substring_as_no_match \<and>
     test_has_scope_ignores_extra_whitespace \<and>
     test_empty_body_is_bad_request ext \<and>
     test_over_limit_is_payload_too_large ext \<and>
     test_key_uses_sha256_hex_lowercase ext \<and>
     test_at_exact_limit_passes ext \<and>
     test_deterministic_key_across_calls ext \<and>
     test_into_core_body_rejects_empty_inline_b64 ext \<and>
     test_into_core_body_blob_ref_passes_through ext \<and>
     test_into_core_body_rejects_empty_blob_ref_key ext \<and>
     test_parse_kind_predefined_variants \<and>
     test_parse_kind_custom_passes_through \<and>
     test_parse_kind_empty_rejected \<and>
     test_creator_from_claims_uses_sub_when_present \<and>
     test_creator_from_claims_anonymous_when_missing \<and>
     test_parse_sha256_hex_valid_lowercase ext \<and>
     test_parse_sha256_hex_rejects_uppercase ext \<and>
     test_parse_sha256_hex_rejects_wrong_length ext \<and>
     test_parse_sha256_hex_rejects_non_hex_chars ext \<and>
     test_parse_sha256_hex_zero_hash_round_trip ext \<and>
     test_sha256_of_round_trip_with_parse ext"

lemma api_tests_law:
  assumes "digests ext" "sha256 ext (utf8 ''hello'') = hash_bytes hello_digest"
  shows "api_tests ext"
  unfolding api_tests_def
  by (intro conjI error_tests storage_env_tests auth_env_tests scope_tests kind_and_creator_tests body_tests parsed_tests
      refused_tests digests.round_trip_test digests.upload_tests digests.key_test assms)

text \<open>A regression check: the unit tests of the core and of the API translated here hold of the model, whatever ids are
  drawn and for every choice of the third-party functions that keeps the laws of digests and has the published
  SHA-256 of \<open>hello\<close>.\<close>

lemma unit_tests_pass:
  assumes "digests ext" "sha256 ext (utf8 ''hello'') = hash_bytes hello_digest"
  shows "core_tests i v u u' \<and> api_tests ext"
  using core_tests_law api_tests_law [OF assms] by blast

definition hello_crates :: api_crates where
  "hello_crates = mem_api_crates
     \<lparr>sha256 := \<lambda>b. if b = utf8 ''hello'' then hash_bytes hello_digest else take 32 (b @ replicate 32 0)\<rparr>"

lemma hello_digests: "digests hello_crates"
proof
  show "length (sha256 hello_crates b) = 32" for b
    using hello_digest_text(2) mem_digests.sha256_length [of b] by (simp add: hello_crates_def hash_wf_def)
  show "lower_hex hello_crates bs = hash_to_string (Sha256Hash bs)" for bs
    by (simp add: hello_crates_def)
  have path: "object_path hello_crates = object_path mem_api_crates"
    by (simp add: hello_crates_def)
  show "p \<in> {''/assets/'', ''/fixed/''} \<Longrightarrow> q \<in> {''/assets/'', ''/fixed/''} \<Longrightarrow> hex64 h \<Longrightarrow> hex64 k \<Longrightarrow>
       object_path hello_crates (p @ h) = object_path hello_crates (q @ k) \<Longrightarrow> p = q \<and> h = k" for p q h k
    unfolding path by (rule mem_digests.content_paths)
qed

lemma unit_tests_pass_witness: "core_tests 1 2 3 4 \<and> api_tests hello_crates"
  using unit_tests_pass [OF hello_digests] by (simp add: hello_crates_def)

end
