(* ===== verification/Spec2Isabelle.thy ===== *)
theory Spec2Isabelle
  imports Progress Isolation Divergences Users_Race Startup_Spec Multipart Core_Spec Storage_Tests Api_Tests
begin

text \<open>
  Verification of the Object Records service (\<open>crates/\<close>): records that move from mutable through
  snapshot to fixed, kept in SurrealDB, with their large bodies in S3, behind an HTTP API.

  \<^bold>\<open>How the program is modelled.\<close> Pure Rust functions are HOL functions with the source's names. An
  async function is a value of \<open>'a prog\<close> (theory \<open>Effects\<close>): one constructor per call to code outside
  the repository, with the rest of the function as continuation, in the order of the source, every \<open>?\<close> a
  \<open>prog_try\<close>. What the calls do is the parameter \<open>'w world_ops\<close>; the pure third-party functions are the
  parameters \<open>crates\<close> and \<open>api_crates\<close>. \<open>run\<close> executes a program, \<open>wp\<close> is its weakest precondition, and
  \<open>pool_step\<close> interleaves programs at these calls, where a task may be suspended. \<open>Result\<close> is a
  sum, a panic is the outcome \<open>Panicked\<close>, \<open>String\<close> is its UTF-8 bytes, \<open>u8\<close>, \<open>u64\<close> and \<open>Uuid\<close> are words.

  \<^bold>\<open>Theories\<close>, from the bottom:

  \<^item> \<open>Prelude\<close>, \<open>Rust_Str\<close>: \<open>Result\<close>, lists, and the string functions of the standard library in use.
  \<^item> \<open>Core_Record\<close>: \<open>objectrecords-core/src/lib.rs\<close>. The state is a phantom type argument.
  \<^item> \<open>Persisted\<close>, \<open>Convert\<close>: \<open>persisted.rs\<close>, \<open>error.rs\<close>, \<open>convert.rs\<close> of \<open>objectrecords-db\<close>: rows, errors and
    both conversions. \<open>Core_Spec\<close> holds the properties of these two layers: what a freeze keeps, exactly which
    records and rows survive storage, with which error the others are refused, the texts of digests and kinds.
  \<^item> \<open>Effects\<close>, \<open>Backend\<close>: the calls, and the laws of SurrealDB and the object store as the locales
    \<open>thing_text\<close>, \<open>surreal_sdk\<close>, \<open>object_store_sdk\<close>, \<open>backend\<close>, \<open>healthy_backend\<close>.
  \<^item> \<open>Repository\<close>: every function of \<open>SurrealRecordRepository\<close> (\<open>repository.rs\<close>). \<open>Store_Invariant\<close> gives the
    invariant of the tables, \<open>Repository_Reads\<close> and \<open>Repository_Writes\<close> a rule for each operation with every reply
    it can make, \<open>Store_View\<close> the abstract store, \<open>Repository_Spec\<close> the refinements and histories,
    \<open>Users_Spec\<close> the users.
  \<^item> \<open>Schema\<close>: \<open>schema.rs\<close> and \<open>client.rs\<close>. DDL constants, \<open>schema_apply\<close>, \<open>connect\<close>.
  \<^item> \<open>Blob_Storage\<close>, \<open>Multipart\<close>: \<open>objectrecords-storage\<close>. The trait is the locale \<open>blob_storage\<close>, interpreted on the
    S3 backend, and \<open>strict_blob_storage\<close>, which adds the \<open>NotFound\<close> of \<open>delete\<close> that S3 does not give, interpreted on
    \<open>InMemoryStorage\<close>; a multipart upload is shown to be a put.
  \<^item> \<open>Api_Types\<close>, \<open>Startup\<close>, \<open>Auth\<close>, \<open>Records_Api\<close>, \<open>Router\<close>: \<open>objectrecords-api\<close>: state, requests, responses and
    \<open>error.rs\<close>; \<open>storage.rs\<close>, the environment of \<open>auth.rs\<close> and \<open>main.rs\<close>; the tokens and middlewares of \<open>auth.rs\<close>;
    \<open>routes/records.rs\<close>; \<open>routes/assets.rs\<close>, \<open>routes/health.rs\<close> and \<open>build_router\<close>.
  \<^item> \<open>Digest_Text\<close>, \<open>Records_Spec\<close>, \<open>Gate_Spec\<close>, \<open>Service_Spec\<close>: the digest readers; the contract of each handler over
    the abstract store; the gates as layers of a locale \<open>middleware\<close>; the invariant of the service, what no request
    undoes, and that every request is answered.
  \<^item> \<open>Startup_Spec\<close>: startup on a database with or without data, and the world it serves from.
  \<^item> \<open>Interleaving\<close>, \<open>Concurrency\<close>, \<open>Interleaving_Spec\<close>, \<open>Races\<close>: requests in flight together. \<open>rg\<close> is a
    rely-guarantee judgement on programs, the locale \<open>frame\<close> gives its relations; two races of a put and a freeze are
    shown by schedules. \<open>Refreeze\<close> adds one of two freezes, \<open>Isolation\<close> shows that only requests that
    write the record read can disturb a read, \<open>Users_Race\<close> what the loser of the race
    to create a user answers, \<open>Divergences\<close> where the code does not do what its documentation says.
  \<^item> \<open>Core_Tests\<close>, \<open>Storage_Tests\<close>, \<open>Api_Tests\<close>: tests of the repository, one definition a test, run on the model. Those of
    storage hold of the in-memory backend (the module of its \<open>lib.rs\<close>) and, those of \<open>tests/s3_compat_seaweedfs.rs\<close> that
    call the trait alone, of the S3 backend over every object store with S3's laws, proved inside a locale that extends
    \<open>blob_storage\<close> by the replies. The tests of the core and the API are regression lemmas.
  \<^item> \<open>Progress\<close>: how many calls a program makes whatever the replies are (\<open>ends\<close>), with no law of the services; from it
    that requests are answered and that schedules come to an end.

  \<^bold>\<open>How the parts interact.\<close> \<open>startup\<close> connects, applies the schema and builds \<open>app_state\<close>. \<open>build_router\<close> wraps each
  handler in the token gate and the scope gate that the state configures. Handlers call the repository through
  \<open>api_call\<close>, which maps \<open>DbError\<close> to \<open>ApiError\<close>, and the S3 backend directly. \<open>fix_one\<close> is the widest
  operation: it reads the record, digests its trailing body (from the object store when it is a reference),
  copies the blob under \<open>/fixed/\<close>, and runs the transaction that freezes the record. The abstract store maps
  an id to state, kind, hash, versions and attribution; the refinements read \<open>view (g w) = f (view w)\<close>
  for each operation, or that a failed call left the change whole or not at all. A failure of the services is
  a reply the contracts allow only under \<open>can_fail\<close> (the database) or \<open>store_can_fail\<close> (the object store), which hold of services that do fail
  some call; over healthy services the contracts leave one reply.

  \<^bold>\<open>Parameters and their laws.\<close> The laws of the locales are the documented behaviour of the services: a query
  commits all its statements or none, a server error means none, a lost connection means either; \<open>CREATE\<close> of a taken key
  and a second row under a unique index fail; \<open>ORDER BY\<close> leaves equal keys in any order; \<open>PutMode::Create\<close> is atomic; a
  UUID's text parses back and holds no backtick or colon; a digest has 32 bytes and prints in lower case. Each locale is
  interpreted on \<open>mem_world\<close>, an in-memory database and object store that runs the statement language and can be
  told which calls to fail, and the witnesses run on it.

  \<^bold>\<open>Bounds.\<close> No definition of the program uses fuel: all loops are structural recursions over lists the code has read, and
  the two loops over a digest run over 32 indices, which the length check of 64 before them covers. Bodies of uploads are
  bounded by \<open>ASSET_BODY_LIMIT\<close>, 10 MiB. \<open>run_calls n\<close> counts the calls of a schedule and \<open>run_is_calls\<close> gives the
  number that a run needs; a request needs at most 19 (\<open>router_ends\<close>).

  \<^bold>\<open>Not modelled\<close>: axum's routing, extraction, body limit and JSON (a handler takes what they produce); serde derives; logging;
  binding the socket; the internals of \<open>jsonwebtoken\<close>, \<open>sha2\<close>, \<open>base64\<close>, \<open>object_store\<close> and SurrealDB (parameters);
  \<open>debug_assert!\<close>; allocation failure; the integration tests under \<open>tests/\<close> but the S3 ones named
  above, and the unit tests of third-party code alone (JSON, base64,
  UUID order, SHA-256 vectors). Concurrency is that of the API's requests; the repository's
  operations that no route calls (\<open>delete\<close>, \<open>save_snapshot\<close>, \<open>list_by_creator\<close>) have sequential contracts.
\<close>

end
